theory Spec2Isabelle
  imports Complex_Main "HOL-Library.Monad_Syntax"
begin

section \<open>roadcolor: colour values, parsing and palettes\<close>

text \<open>
  A shallow embedding of \<^verbatim>\<open>src/roadcolor/color.py\<close>. Python's unbounded integers are
  \<^typ>\<open>int\<close>, exceptions are values of a sum type (\<open>Inl\<close> the exception), strings are
  lists of characters whose code points are below 256, and a Python \<^verbatim>\<open>float\<close> is the
  rational number it denotes, every arithmetic operation rounding its exact result to
  the nearest IEEE 754 binary64 value.
\<close>

datatype py_error = ValueError | ZeroDivisionError

subsection \<open>RGB\<close>

record RGB =
  r :: int
  g :: int
  b :: int

text \<open>The dataclass constructor followed by \<^verbatim>\<open>__post_init__\<close>: every channel is clamped.\<close>

definition RGB_new :: "int \<Rightarrow> int \<Rightarrow> int \<Rightarrow> RGB" where
  "RGB_new x y z =
     \<lparr>r = max 0 (min 255 x), g = max 0 (min 255 y), b = max 0 (min 255 z)\<rparr>"

definition hexdigit :: "nat \<Rightarrow> char" where
  "hexdigit d = ''0123456789abcdef'' ! d"

fun hex_of_nat :: "nat \<Rightarrow> string" where
  "hex_of_nat n = (if n < 16 then [hexdigit n] else hex_of_nat (n div 16) @ [hexdigit (n mod 16)])"

declare hex_of_nat.simps [simp del]

text \<open>
  The format specification \<^verbatim>\<open>02x\<close>: lower-case hexadecimal, padded with zeros to a
  width of two, the sign (if any) counted in the width.
\<close>

definition format_02x :: "int \<Rightarrow> string" where
  "format_02x i =
     (let ds = hex_of_nat (nat \<bar>i\<bar>)
      in if i < 0 then CHR ''-'' # replicate (1 - length ds) CHR ''0'' @ ds
         else replicate (2 - length ds) CHR ''0'' @ ds)"

definition to_hex :: "RGB \<Rightarrow> string" where
  "to_hex c = CHR ''#'' # format_02x (r c) @ format_02x (g c) @ format_02x (b c)"

subsection \<open>Python floats\<close>

text \<open>
  A finite binary64 value is a rational \<open>m * 2 ^ e\<close> with \<open>\<bar>m\<bar> < 2 ^ 53\<close> and
  \<open>- 1074 \<le> e\<close>. Addition, subtraction, multiplication and division of CPython floats,
  the true division of two integers and a decimal literal all return the exact result
  rounded to the nearest such value, ties to the even mantissa. Overflow is left out:
  every quantity computed below is smaller than \<open>2 ^ 11\<close> in magnitude. The sign of a
  zero is not represented; nothing below depends on it.
\<close>

type_synonym pyfloat = rat

text \<open>\<open>ilog2 x\<close> is the exponent \<open>e\<close> with \<open>2 ^ e \<le> x < 2 ^ (e + 1)\<close>, for positive \<open>x\<close>.\<close>

function ilog2 :: "rat \<Rightarrow> int" where
  "ilog2 x = (if x \<le> 0 then 0
              else if 2 \<le> x then ilog2 (x / 2) + 1
              else if x < 1 then ilog2 (2 * x) - 1
              else 0)"
  by pat_completeness auto
termination
proof (relation "measure (\<lambda>x. nat \<lfloor>x\<rfloor> + 2 * nat \<lceil>1 / x\<rceil>)")
  show "wf (measure (\<lambda>x::rat. nat \<lfloor>x\<rfloor> + 2 * nat \<lceil>1 / x\<rceil>))" by simp
next
  fix x :: rat
  assume a: "\<not> x \<le> 0" "2 \<le> x"
  have "\<lfloor>x / 2\<rfloor> < \<lfloor>x\<rfloor>" using a by linarith
  moreover have "\<lceil>1 / (x / 2)\<rceil> = 1" using a by (simp add: ceiling_eq_iff field_simps)
  moreover have "\<lceil>1 / x\<rceil> = 1" using a by (simp add: ceiling_eq_iff field_simps)
  moreover have "0 \<le> \<lfloor>x / 2\<rfloor>" using a by simp
  ultimately show "(x / 2, x) \<in> measure (\<lambda>x. nat \<lfloor>x\<rfloor> + 2 * nat \<lceil>1 / x\<rceil>)"
    using a by simp
next
  fix x :: rat
  assume a: "\<not> x \<le> 0" "\<not> 2 \<le> x" "x < 1"
  have f0: "\<lfloor>x\<rfloor> = 0" using a by (simp add: floor_eq_iff)
  have f1: "\<lfloor>2 * x\<rfloor> \<le> 1" using a by (simp add: floor_le_iff)
  have f2: "0 \<le> \<lfloor>2 * x\<rfloor>" using a by simp
  have y: "1 < 1 / x" using a by (simp add: field_simps)
  have c1: "\<lceil>1 / (2 * x)\<rceil> < \<lceil>1 / x\<rceil>"
  proof -
    define c where "c = \<lceil>1 / x\<rceil>"
    have le: "1 / x \<le> of_int c" unfolding c_def by simp
    have "2 \<le> c" unfolding c_def using y by linarith
    then have "(of_int c :: rat) / 2 \<le> of_int c - 1" by simp
    with le have "(1 / x) / 2 \<le> of_int (c - 1)" by simp
    then have "\<lceil>(1 / x) / 2\<rceil> \<le> c - 1" by (simp only: ceiling_le_iff)
    then show ?thesis by (simp add: c_def mult.commute)
  qed
  have c0: "0 < \<lceil>1 / (2 * x)\<rceil>" using a by simp
  show "(2 * x, x) \<in> measure (\<lambda>x. nat \<lfloor>x\<rfloor> + 2 * nat \<lceil>1 / x\<rceil>)"
    using f0 f1 f2 c1 c0 by simp linarith
qed

declare ilog2.simps [simp del]

definition pow2 :: "int \<Rightarrow> rat" where
  "pow2 e = (if 0 \<le> e then 2 ^ nat e else 1 / 2 ^ nat (- e))"

definition round_half_even :: "rat \<Rightarrow> int" where
  "round_half_even q =
     (let f = \<lfloor>q\<rfloor>; d = q - of_int f
      in if d < 1 / 2 then f else if 1 / 2 < d then f + 1 else if even f then f else f + 1)"

text \<open>
  Rounding to binary64: the mantissa has 53 bits, so the unit in the last place of \<open>x\<close>
  is \<open>2 ^ (ilog2 \<bar>x\<bar> - 52)\<close>, and never less than \<open>2 ^ - 1074\<close> (the subnormal range).
\<close>

definition rnd :: "rat \<Rightarrow> pyfloat" where
  "rnd x =
     (if x = 0 then 0
      else let a = \<bar>x\<bar>; e = max (ilog2 a - 52) (- 1074);
               m = round_half_even (a / pow2 e)
           in sgn x * of_int m * pow2 e)"

text \<open>The exponent of the unit in the last place, as \<open>rnd\<close> computes it.\<close>

definition ulp_exp :: "rat \<Rightarrow> int" where
  "ulp_exp x = max (ilog2 \<bar>x\<bar> - 52) (- 1074)"

definition fadd :: "pyfloat \<Rightarrow> pyfloat \<Rightarrow> pyfloat" where
  "fadd x y = rnd (x + y)"

definition fsub :: "pyfloat \<Rightarrow> pyfloat \<Rightarrow> pyfloat" where
  "fsub x y = rnd (x - y)"

definition fmul :: "pyfloat \<Rightarrow> pyfloat \<Rightarrow> pyfloat" where
  "fmul x y = rnd (x * y)"

text \<open>Every divisor below is a non-zero constant or is tested before the division.\<close>

definition fdiv :: "pyfloat \<Rightarrow> pyfloat \<Rightarrow> pyfloat" where
  "fdiv x y = rnd (x / y)"

text \<open>\<^verbatim>\<open>float(i)\<close>, the conversion of an integer operand in mixed arithmetic.\<close>

definition float_of_int :: "int \<Rightarrow> pyfloat" where
  "float_of_int i = rnd (of_int i)"

text \<open>\<^verbatim>\<open>i / j\<close> on two integers: the correctly rounded quotient.\<close>

definition int_truediv :: "int \<Rightarrow> int \<Rightarrow> pyfloat" where
  "int_truediv i j = rnd (of_int i / of_int j)"

text \<open>\<^verbatim>\<open>int(x)\<close> on a float truncates towards zero.\<close>

definition py_int :: "pyfloat \<Rightarrow> int" where
  "py_int x = (if 0 \<le> x then \<lfloor>x\<rfloor> else \<lceil>x\<rceil>)"

text \<open>
  \<^verbatim>\<open>x % 1.0\<close>: the C function \<^verbatim>\<open>fmod\<close> is exact and keeps the sign of \<open>x\<close>; CPython
  then adds the divisor (a rounded addition) when the remainder is negative.
\<close>

definition fmod1 :: "pyfloat \<Rightarrow> pyfloat" where
  "fmod1 x = (let m = x - of_int (py_int x) in if m < 0 then fadd m 1 else m)"

subsection \<open>The standard library's colorsys\<close>

text \<open>
  \<^verbatim>\<open>colorsys.rgb_to_hls\<close> and \<^verbatim>\<open>colorsys.hls_to_rgb\<close> of CPython 3.12
  (\<^verbatim>\<open>Lib/colorsys.py\<close>), which \<^verbatim>\<open>to_hsl\<close> and \<^verbatim>\<open>to_rgb\<close> call.
\<close>

definition ONE_THIRD :: pyfloat where
  "ONE_THIRD = fdiv 1 3"

definition ONE_SIXTH :: pyfloat where
  "ONE_SIXTH = fdiv 1 6"

definition TWO_THIRD :: pyfloat where
  "TWO_THIRD = fdiv 2 3"

definition rgb_to_hls :: "pyfloat \<Rightarrow> pyfloat \<Rightarrow> pyfloat \<Rightarrow> pyfloat \<times> pyfloat \<times> pyfloat" where
  "rgb_to_hls x y z =
     (let maxc = max x (max y z);
          minc = min x (min y z);
          sumc = fadd maxc minc;
          rangec = fsub maxc minc;
          l' = fdiv sumc 2
      in if minc = maxc then (0, l', 0)
         else
           let s' = (if l' \<le> 1 / 2 then fdiv rangec sumc
                     else fdiv rangec (fsub (fsub 2 maxc) minc));
               rc = fdiv (fsub maxc x) rangec;
               gc = fdiv (fsub maxc y) rangec;
               bc = fdiv (fsub maxc z) rangec;
               h' = (if x = maxc then fsub bc gc
                     else if y = maxc then fsub (fadd 2 rc) bc
                     else fsub (fadd 4 gc) rc)
           in (fmod1 (fdiv h' 6), l', s'))"

definition hls_v :: "pyfloat \<Rightarrow> pyfloat \<Rightarrow> pyfloat \<Rightarrow> pyfloat" where
  "hls_v m1 m2 hue0 =
     (let hue = fmod1 hue0
      in if hue < ONE_SIXTH then fadd m1 (fmul (fmul (fsub m2 m1) hue) 6)
         else if hue < 1 / 2 then m2
         else if hue < TWO_THIRD then fadd m1 (fmul (fmul (fsub m2 m1) (fsub TWO_THIRD hue)) 6)
         else m1)"

definition hls_to_rgb :: "pyfloat \<Rightarrow> pyfloat \<Rightarrow> pyfloat \<Rightarrow> pyfloat \<times> pyfloat \<times> pyfloat" where
  "hls_to_rgb h' l' s' =
     (if s' = 0 then (l', l', l')
      else
        let m2 = (if l' \<le> 1 / 2 then fmul l' (fadd 1 s')
                  else fsub (fadd l' s') (fmul l' s'));
            m1 = fsub (fmul 2 l') m2
        in (hls_v m1 m2 (fadd h' ONE_THIRD), hls_v m1 m2 h', hls_v m1 m2 (fsub h' ONE_THIRD)))"

subsection \<open>HSL and the conversions\<close>

record HSL =
  h :: int
  s :: int
  l :: int

definition HSL_new :: "int \<Rightarrow> int \<Rightarrow> int \<Rightarrow> HSL" where
  "HSL_new x y z = \<lparr>h = x mod 360, s = max 0 (min 100 y), l = max 0 (min 100 z)\<rparr>"

definition to_hsl :: "RGB \<Rightarrow> HSL" where
  "to_hsl c =
     (let (h', l', s') = rgb_to_hls (int_truediv (r c) 255) (int_truediv (g c) 255)
                           (int_truediv (b c) 255)
      in HSL_new (py_int (fmul h' 360)) (py_int (fmul s' 100)) (py_int (fmul l' 100)))"

definition HSL_to_rgb :: "HSL \<Rightarrow> RGB" where
  "HSL_to_rgb x =
     (let (r', g', b') = hls_to_rgb (int_truediv (h x) 360) (int_truediv (l x) 100)
                           (int_truediv (s x) 100)
      in RGB_new (py_int (fmul r' 255)) (py_int (fmul g' 255)) (py_int (fmul b' 255)))"

definition luminance :: "RGB \<Rightarrow> pyfloat" where
  "luminance c =
     (let r' = int_truediv (r c) 255; g' = int_truediv (g c) 255; b' = int_truediv (b c) 255
      in fadd (fadd (fmul (rnd (2126 / 10000)) r') (fmul (rnd (7152 / 10000)) g'))
              (fmul (rnd (722 / 10000)) b'))"

subsection \<open>Strings\<close>

text \<open>
  \<^verbatim>\<open>str.isspace\<close>, which \<^verbatim>\<open>str.strip\<close> and the regular expression class \<^verbatim>\<open>\s\<close>
  use, on the code points below 256.
\<close>

definition isspace :: "char \<Rightarrow> bool" where
  "isspace c = (of_char c \<in> {9, 10, 11, 12, 13, 28, 29, 30, 31, 32, 133, 160 :: nat})"

definition strip :: "string \<Rightarrow> string" where
  "strip str = rev (dropWhile isspace (rev (dropWhile isspace str)))"

text \<open>\<^verbatim>\<open>str.lower\<close>: the letters A-Z and the Latin-1 capitals (not the sign at 215).\<close>

definition lower_char :: "char \<Rightarrow> char" where
  "lower_char c =
     (let n = of_char c :: nat
      in if 65 \<le> n \<and> n \<le> 90 then char_of (n + 32)
         else if n = 215 then c
         else if 192 \<le> n \<and> n \<le> 222 then char_of (n + 32)
         else c)"

definition lower :: "string \<Rightarrow> string" where
  "lower str = map lower_char str"

definition startswith :: "string \<Rightarrow> string \<Rightarrow> bool" where
  "startswith str p = (take (length p) str = p)"

subsection \<open>The built-in int on strings\<close>

text \<open>
  \<^verbatim>\<open>int(str, 16)\<close> as CPython parses it: white space around the number (the ASCII
  white space and the two other spaces below 256), an optional sign, an optional prefix
  \<^verbatim>\<open>0x\<close> that one underscore may follow, then hexadecimal digits with single
  underscores between them; anything else raises \<^verbatim>\<open>ValueError\<close>.
\<close>

definition int_space :: "char \<Rightarrow> bool" where
  "int_space c = (of_char c \<in> {9, 10, 11, 12, 13, 32, 133, 160 :: nat})"

definition hex_value :: "char \<Rightarrow> nat option" where
  "hex_value c =
     (let n = of_char c :: nat
      in if 48 \<le> n \<and> n \<le> 57 then Some (n - 48)
         else if 97 \<le> n \<and> n \<le> 102 then Some (n - 87)
         else if 65 \<le> n \<and> n \<le> 70 then Some (n - 55)
         else None)"

definition is_hex :: "char \<Rightarrow> bool" where
  "is_hex c = (case hex_value c of None \<Rightarrow> False | Some v \<Rightarrow> True)"

definition hex_digit :: "char \<Rightarrow> nat" where
  "hex_digit c = (case hex_value c of None \<Rightarrow> 0 | Some v \<Rightarrow> v)"

fun doubled_underscore :: "string \<Rightarrow> bool" where
  "doubled_underscore (c # d # cs) =
     (if c = CHR ''_'' \<and> d = CHR ''_'' then True else doubled_underscore (d # cs))"
| "doubled_underscore cs = False"

definition int_base16 :: "string \<Rightarrow> py_error + int" where
  "int_base16 str =
     (let s1 = dropWhile int_space str;
          (sign, s2) = (case s1 of
                          [] \<Rightarrow> (1, s1)
                        | c # t \<Rightarrow> if c = CHR ''+'' then (1, t)
                                   else if c = CHR ''-'' then (- 1, t) else (1, s1));
          s3 = (case s2 of
                  c # d # t \<Rightarrow>
                    if c = CHR ''0'' \<and> (d = CHR ''x'' \<or> d = CHR ''X'')
                    then (case t of [] \<Rightarrow> t | u # v \<Rightarrow> if u = CHR ''_'' then v else t)
                    else s2
                | _ \<Rightarrow> s2);
          body = takeWhile (\<lambda>c. is_hex c \<or> c = CHR ''_'') s3;
          rest = dropWhile (\<lambda>c. is_hex c \<or> c = CHR ''_'') s3
      in if body = [] then Inl ValueError
         else if hd body = CHR ''_'' then Inl ValueError
         else if last body = CHR ''_'' then Inl ValueError
         else if doubled_underscore body then Inl ValueError
         else if list_all int_space rest
         then Inr (sign * int (foldl (\<lambda>a c. 16 * a + hex_digit c) 0
                                  (filter (\<lambda>c. is_hex c) body)))
         else Inl ValueError)"

text \<open>
  \<^verbatim>\<open>int(str)\<close> on a non-empty string of decimal digits (a group \<^verbatim>\<open>(\d+)\<close> of a
  match). CPython 3.11 and later refuse more than 4300 digits with \<^verbatim>\<open>ValueError\<close>
  (\<^verbatim>\<open>sys.int_info.default_max_str_digits\<close>).
\<close>

definition isdigit :: "char \<Rightarrow> bool" where
  "isdigit c = (48 \<le> (of_char c :: nat) \<and> (of_char c :: nat) \<le> 57)"

definition int_max_str_digits :: nat where
  "int_max_str_digits = 4300"

definition dec_value :: "string \<Rightarrow> nat" where
  "dec_value ds = foldl (\<lambda>a c. 10 * a + (of_char c - 48)) 0 ds"

definition int_dec :: "string \<Rightarrow> py_error + int" where
  "int_dec ds =
     (if int_max_str_digits < length ds then Inl ValueError else Inr (int (dec_value ds)))"

subsection \<open>Regular expressions\<close>

text \<open>
  \<^verbatim>\<open>re.match\<close> anchors the pattern at the start of the string. The pieces of the two
  patterns of the source: a literal, an optional character \<^verbatim>\<open>c?\<close>, \<^verbatim>\<open>\s*\<close> and a
  group \<^verbatim>\<open>(\d+)\<close>. Every repetition is greedy, and in these patterns the character
  that must follow a repetition is never one the repetition accepts, so backtracking
  finds nothing the greedy match misses.
\<close>

fun match_lit :: "string \<Rightarrow> string \<Rightarrow> string option" where
  "match_lit [] str = Some str"
| "match_lit (c # cs) [] = None"
| "match_lit (c # cs) (d # ds) = (if c = d then match_lit cs ds else None)"

definition match_opt :: "char \<Rightarrow> string \<Rightarrow> string" where
  "match_opt c str = (case str of [] \<Rightarrow> str | d # t \<Rightarrow> if d = c then t else str)"

definition match_spaces :: "string \<Rightarrow> string" where
  "match_spaces str = dropWhile isspace str"

definition match_digits :: "string \<Rightarrow> (string \<times> string) option" where
  "match_digits str =
     (let ds = takeWhile isdigit str
      in if ds = [] then None else Some (ds, dropWhile isdigit str))"

text \<open>\<^verbatim>\<open>rgba?\((\d+),\s*(\d+),\s*(\d+)\<close>; the result is the three groups.\<close>

definition rgb_match :: "string \<Rightarrow> (string \<times> string \<times> string) option" where
  "rgb_match str = do {
     s1 \<leftarrow> match_lit ''rgb'' str;
     s2 \<leftarrow> match_lit ''('' (match_opt CHR ''a'' s1);
     (d1, s3) \<leftarrow> match_digits s2;
     s4 \<leftarrow> match_lit '','' s3;
     (d2, s5) \<leftarrow> match_digits (match_spaces s4);
     s6 \<leftarrow> match_lit '','' s5;
     (d3, s7) \<leftarrow> match_digits (match_spaces s6);
     Some (d1, d2, d3)
   }"


text \<open>\<^verbatim>\<open>hsla?\((\d+),\s*(\d+)%?,\s*(\d+)%?\<close>.\<close>

definition hsl_match :: "string \<Rightarrow> (string \<times> string \<times> string) option" where
  "hsl_match str = do {
     s1 \<leftarrow> match_lit ''hsl'' str;
     s2 \<leftarrow> match_lit ''('' (match_opt CHR ''a'' s1);
     (d1, s3) \<leftarrow> match_digits s2;
     s4 \<leftarrow> match_lit '','' s3;
     (d2, s5) \<leftarrow> match_digits (match_spaces s4);
     s6 \<leftarrow> match_lit '','' (match_opt CHR ''%'' s5);
     (d3, s7) \<leftarrow> match_digits (match_spaces s6);
     Some (d1, d2, d3)
   }"

subsection \<open>Parsing a colour\<close>

definition NAMED_COLORS :: "(string \<times> string) list" where
  "NAMED_COLORS =
     [(''black'', ''#000000''), (''white'', ''#ffffff''), (''red'', ''#ff0000''),
      (''green'', ''#00ff00''), (''blue'', ''#0000ff''), (''yellow'', ''#ffff00''),
      (''cyan'', ''#00ffff''), (''magenta'', ''#ff00ff''), (''orange'', ''#ffa500''),
      (''purple'', ''#800080''), (''pink'', ''#ffc0cb''), (''brown'', ''#a52a2a''),
      (''gray'', ''#808080''), (''grey'', ''#808080''), (''navy'', ''#000080''),
      (''teal'', ''#008080''), (''olive'', ''#808000''), (''maroon'', ''#800000''),
      (''aqua'', ''#00ffff''), (''lime'', ''#00ff00''), (''silver'', ''#c0c0c0'')]"

definition three_ints ::
  "py_error + int \<Rightarrow> py_error + int \<Rightarrow> py_error + int \<Rightarrow> py_error + int \<times> int \<times> int" where
  "three_ints u v w =
     (case u of Inl e \<Rightarrow> Inl e | Inr x \<Rightarrow>
     (case v of Inl e \<Rightarrow> Inl e | Inr y \<Rightarrow>
     (case w of Inl e \<Rightarrow> Inl e | Inr z \<Rightarrow> Inr (x, y, z))))"

definition parse_hex :: "string \<Rightarrow> py_error + RGB" where
  "parse_hex str =
     (let hex0 = dropWhile (\<lambda>c. c = CHR ''#'') str;
          hex_str = (if length hex0 = 3 then concat (map (\<lambda>c. [c, c]) hex0) else hex0)
      in case three_ints (int_base16 (take 2 hex_str))
                         (int_base16 (take 2 (drop 2 hex_str)))
                         (int_base16 (take 2 (drop 4 hex_str))) of
           Inl e \<Rightarrow> Inl e
         | Inr (x, y, z) \<Rightarrow> Inr (RGB_new x y z))"

definition parse_rgb_string :: "string \<Rightarrow> py_error + RGB" where
  "parse_rgb_string str =
     (case rgb_match str of
        None \<Rightarrow> Inl ValueError
      | Some (d1, d2, d3) \<Rightarrow>
          (case three_ints (int_dec d1) (int_dec d2) (int_dec d3) of
             Inl e \<Rightarrow> Inl e
           | Inr (x, y, z) \<Rightarrow> Inr (RGB_new x y z)))"

definition parse_hsl_string :: "string \<Rightarrow> py_error + RGB" where
  "parse_hsl_string str =
     (case hsl_match str of
        None \<Rightarrow> Inl ValueError
      | Some (d1, d2, d3) \<Rightarrow>
          (case three_ints (int_dec d1) (int_dec d2) (int_dec d3) of
             Inl e \<Rightarrow> Inl e
           | Inr (x, y, z) \<Rightarrow> Inr (HSL_to_rgb (HSL_new x y z))))"

definition parse_string :: "string \<Rightarrow> py_error + RGB" where
  "parse_string str =
     (let color = lower (strip str)
      in if startswith color ''#'' then parse_hex color
         else if startswith color ''rgb'' then parse_rgb_string color
         else if startswith color ''hsl'' then parse_hsl_string color
         else (case map_of NAMED_COLORS color of
                 Some hex_str \<Rightarrow> parse_hex hex_str
               | None \<Rightarrow> Inl ValueError))"

subsection \<open>Color\<close>

record Color =
  rgb :: RGB

text \<open>\<^verbatim>\<open>Color(color)\<close> for an argument that is an \<^verbatim>\<open>RGB\<close>.\<close>

definition Color_of_RGB :: "RGB \<Rightarrow> Color" where
  "Color_of_RGB c = \<lparr>rgb = c\<rparr>"

text \<open>\<^verbatim>\<open>Color(color)\<close> for an argument that is a string.\<close>

definition Color_of_string :: "string \<Rightarrow> py_error + Color" where
  "Color_of_string str =
     (case parse_string str of Inl e \<Rightarrow> Inl e | Inr c \<Rightarrow> Inr \<lparr>rgb = c\<rparr>)"

definition invert :: "Color \<Rightarrow> Color" where
  "invert c = Color_of_RGB (RGB_new (255 - r (rgb c)) (255 - g (rgb c)) (255 - b (rgb c)))"

text \<open>\<^verbatim>\<open>Color(color)\<close> for an argument that is an \<^verbatim>\<open>HSL\<close>.\<close>

definition Color_of_HSL :: "HSL \<Rightarrow> Color" where
  "Color_of_HSL x = \<lparr>rgb = HSL_to_rgb x\<rparr>"

definition hsl :: "Color \<Rightarrow> HSL" where
  "hsl c = to_hsl (rgb c)"

definition complement :: "Color \<Rightarrow> Color" where
  "complement c = (let x = to_hsl (rgb c) in Color_of_HSL (x\<lparr>h := (h x + 180) mod 360\<rparr>))"

text \<open>
  The ratio of \<^verbatim>\<open>blend\<close> is a float, except that \<^verbatim>\<open>gradient\<close> passes the integer
  \<^verbatim>\<open>0\<close> when \<^verbatim>\<open>steps <= 1\<close>; then the arithmetic is integer arithmetic.
\<close>

datatype pynum = PyInt int | PyFloat pyfloat

fun blend_channel :: "int \<Rightarrow> int \<Rightarrow> pynum \<Rightarrow> int" where
  "blend_channel x y (PyInt k) = x * (1 - k) + y * k"
| "blend_channel x y (PyFloat t) =
     py_int (fadd (fmul (float_of_int x) (fsub 1 t)) (fmul (float_of_int y) t))"

definition blend :: "Color \<Rightarrow> Color \<Rightarrow> pynum \<Rightarrow> Color" where
  "blend c other ratio =
     Color_of_RGB (RGB_new (blend_channel (r (rgb c)) (r (rgb other)) ratio)
                           (blend_channel (g (rgb c)) (g (rgb other)) ratio)
                           (blend_channel (b (rgb c)) (b (rgb other)) ratio))"

definition contrast_ratio :: "Color \<Rightarrow> Color \<Rightarrow> pyfloat" where
  "contrast_ratio c other =
     (let l1 = fadd (luminance (rgb c)) (rnd (5 / 100));
          l2 = fadd (luminance (rgb other)) (rnd (5 / 100))
      in fdiv (max l1 l2) (min l1 l2))"

subsection \<open>Palette\<close>

definition complementary :: "Color \<Rightarrow> Color list" where
  "complementary base = [base, complement base]"

definition triadic :: "Color \<Rightarrow> Color list" where
  "triadic base =
     (let x = hsl base
      in [base,
          Color_of_HSL (HSL_new ((h x + 120) mod 360) (s x) (l x)),
          Color_of_HSL (HSL_new ((h x + 240) mod 360) (s x) (l x))])"

definition monochromatic :: "Color \<Rightarrow> int \<Rightarrow> py_error + Color list" where
  "monochromatic base count =
     (let x = hsl base
      in if count = 0 then Inl ZeroDivisionError
         else
           let step = 80 div count;
               start = max 10 (l x - step * count div 2)
           in Inr (map (\<lambda>i. Color_of_HSL (HSL_new (h x) (s x) (min 90 (start + step * i))))
                       [0..count - 1]))"

definition gradient :: "Color \<Rightarrow> Color \<Rightarrow> int \<Rightarrow> Color list" where
  "gradient start end steps =
     map (\<lambda>i. blend start end
                 (if 1 < steps then PyFloat (int_truediv i (steps - 1)) else PyInt 0))
         [0..steps - 1]"

subsection \<open>Colour objects and their identity\<close>

text \<open>
  The class \<^verbatim>\<open>Color\<close> defines no \<^verbatim>\<open>__eq__\<close>: \<^verbatim>\<open>==\<close> on two colours is the identity
  of the objects, and \<^verbatim>\<open>==\<close> on two lists of colours compares the lengths and then
  the elements, again by identity. Where a claim turns on this, the colour objects
  created so far are kept in a heap: the record \<open>Color\<close> is the state of an object, a
  reference is the position of an object in the heap, and every call of \<^verbatim>\<open>Color(...)\<close>
  adds a new object.
\<close>

type_synonym ref = nat

type_synonym heap = "Color list"

definition alloc :: "Color \<Rightarrow> heap \<Rightarrow> ref \<times> heap" where
  "alloc c hp = (length hp, hp @ [c])"

definition Color_eq :: "ref \<Rightarrow> ref \<Rightarrow> bool" where
  "Color_eq p q = (p = q)"

definition list_eq :: "ref list \<Rightarrow> ref list \<Rightarrow> bool" where
  "list_eq ps qs = (length ps = length qs \<and> list_all2 Color_eq ps qs)"

text \<open>\<^verbatim>\<open>blend\<close> on objects: the result \<^verbatim>\<open>Color(RGB(r, g, b))\<close> is a new object.\<close>

definition blend_obj :: "ref \<Rightarrow> ref \<Rightarrow> pynum \<Rightarrow> heap \<Rightarrow> ref \<times> heap" where
  "blend_obj p q ratio hp = alloc (blend (hp ! p) (hp ! q) ratio) hp"

text \<open>
  The loop of \<^verbatim>\<open>gradient\<close> over the remaining indices, with the list \<^verbatim>\<open>colors\<close>
  built so far.
\<close>

fun gradient_loop :: "ref \<Rightarrow> ref \<Rightarrow> int \<Rightarrow> int list \<Rightarrow> ref list \<Rightarrow> heap \<Rightarrow> ref list \<times> heap" where
  "gradient_loop p q steps [] colors hp = (colors, hp)"
| "gradient_loop p q steps (i # rest) colors hp =
     (let ratio = (if 1 < steps then PyFloat (int_truediv i (steps - 1)) else PyInt 0);
          (c, hp') = blend_obj p q ratio hp
      in gradient_loop p q steps rest (colors @ [c]) hp')"

definition gradient_obj :: "ref \<Rightarrow> ref \<Rightarrow> int \<Rightarrow> heap \<Rightarrow> ref list \<times> heap" where
  "gradient_obj p q steps hp = gradient_loop p q steps [0..steps - 1] [] hp"

section \<open>Properties\<close>

subsection \<open>Rounding\<close>

lemma pow2_powi: "pow2 e = 2 powi e"
  by (simp add: pow2_def power_int_def field_simps)

lemma pow2_pos [simp]: "0 < pow2 e"
  by (simp add: pow2_powi)

lemma pow2_nonzero [simp]: "pow2 e \<noteq> 0"
  by (simp add: pow2_powi)

lemma pow2_nonneg [simp]: "0 \<le> pow2 e"
  by (simp add: pow2_powi)

lemma pow2_not_neg [simp]: "\<not> pow2 e < 0" "\<not> pow2 e \<le> 0"
  using pow2_pos [of e] by (simp_all only: not_less not_le less_imp_le)

lemma pow2_add: "pow2 (i + j) = pow2 i * pow2 j"
  by (simp add: pow2_powi power_int_add)

lemma pow2_0 [simp]: "pow2 0 = 1"
  by (simp add: pow2_def)

lemma pow2_1 [simp]: "pow2 1 = 2"
  by (simp add: pow2_def)

lemma pow2_Suc: "pow2 (e + 1) = 2 * pow2 e"
  by (simp add: pow2_add)

lemma pow2_pred: "pow2 (e - 1) = pow2 e / 2"
  using pow2_Suc [of "e - 1"] by simp

lemma pow2_mono: "i \<le> j \<Longrightarrow> pow2 i \<le> pow2 j"
  by (simp add: pow2_powi power_int_increasing)

lemma pow2_less_iff: "pow2 i < pow2 j \<longleftrightarrow> i < j"
  by (metis pow2_mono pow2_powi linorder_not_less one_less_numeral_iff power_int_strict_increasing semiring_norm(76))

lemma pow2_nat: "0 \<le> e \<Longrightarrow> pow2 e = of_int (2 ^ nat e)"
  by (simp add: pow2_def)

lemma ilog2_bounds: "0 < x \<Longrightarrow> pow2 (ilog2 x) \<le> x \<and> x < pow2 (ilog2 x + 1)"
proof (induction x rule: ilog2.induct)
  case (1 x)
  show ?case
  proof (cases "2 \<le> x")
    case True
    with 1 have ih: "pow2 (ilog2 (x / 2)) \<le> x / 2 \<and> x / 2 < pow2 (ilog2 (x / 2) + 1)"
      by simp
    have eq: "ilog2 x = ilog2 (x / 2) + 1"
      using True 1(3) by (subst ilog2.simps) simp
    have "pow2 (ilog2 (x / 2) + 1 + 1) = 4 * pow2 (ilog2 (x / 2))"
      by (simp only: pow2_Suc)
    then show ?thesis
      using ih unfolding eq by (simp add: pow2_Suc)
  next
    case False
    show ?thesis
    proof (cases "x < 1")
      case True
      with 1 False have ih: "pow2 (ilog2 (2 * x)) \<le> 2 * x \<and> 2 * x < pow2 (ilog2 (2 * x) + 1)"
        by simp
      have eq: "ilog2 x = ilog2 (2 * x) - 1"
        using True False 1(3) by (subst ilog2.simps) simp
      have "pow2 (ilog2 (2 * x) - 1 + 1) = pow2 (ilog2 (2 * x))" by simp
      moreover have "pow2 (ilog2 (2 * x) + 1) = 2 * pow2 (ilog2 (2 * x))" by (rule pow2_Suc)
      ultimately show ?thesis
        using ih unfolding eq by (simp add: pow2_pred)
    next
      case ge: False
      have eq: "ilog2 x = 0"
        using ge False 1(3) by (subst ilog2.simps) simp
      show ?thesis
        using ge False unfolding eq by simp
    qed
  qed
qed

lemma ilog2_unique:
  assumes "0 < x" "pow2 k \<le> x" "x < pow2 (k + 1)"
  shows "ilog2 x = k"
proof -
  from ilog2_bounds [OF assms(1)]
  have b: "pow2 (ilog2 x) \<le> x" "x < pow2 (ilog2 x + 1)" by simp_all
  have "pow2 k < pow2 (ilog2 x + 1)" using assms(2) b(2) by simp
  then have "k < ilog2 x + 1" by (simp only: pow2_less_iff)
  moreover have "pow2 (ilog2 x) < pow2 (k + 1)" using assms(3) b(1) by simp
  then have "ilog2 x < k + 1" by (simp only: pow2_less_iff)
  ultimately show ?thesis by simp
qed

lemma rhe_near:
  assumes "\<bar>q - of_int m\<bar> < 1 / 2"
  shows "round_half_even q = m"
proof (cases "of_int m \<le> q")
  case True
  then have "\<lfloor>q\<rfloor> = m" using assms by (simp add: floor_eq_iff abs_less_iff)
  then show ?thesis using assms True by (simp add: round_half_even_def Let_def abs_less_iff)
next
  case False
  then have f: "\<lfloor>q\<rfloor> = m - 1" using assms by (simp add: floor_eq_iff abs_less_iff)
  have "\<not> q - of_int (m - 1) < 1 / 2" "1 / 2 < q - of_int (m - 1)"
    using assms False by (simp_all add: abs_less_iff)
  then show ?thesis unfolding round_half_even_def Let_def f by simp
qed

lemma rhe_int [simp]: "round_half_even (of_int m) = m"
  by (rule rhe_near) simp

lemma rhe_err: "\<bar>of_int (round_half_even q) - q\<bar> \<le> 1 / 2"
proof -
  have "of_int \<lfloor>q\<rfloor> \<le> q" "q < of_int \<lfloor>q\<rfloor> + 1" by linarith+
  then show ?thesis
    by (auto simp: round_half_even_def Let_def abs_le_iff)
qed

lemma rhe_mono:
  assumes "q \<le> q'"
  shows "round_half_even q \<le> round_half_even q'"
proof (cases "\<lfloor>q\<rfloor> = \<lfloor>q'\<rfloor>")
  case True
  then show ?thesis using assms
    by (auto simp: round_half_even_def Let_def)
next
  case False
  then have "\<lfloor>q\<rfloor> + 1 \<le> \<lfloor>q'\<rfloor>" using floor_mono [OF assms] by simp
  moreover have "round_half_even q \<le> \<lfloor>q\<rfloor> + 1"
    by (simp add: round_half_even_def Let_def)
  moreover have "\<lfloor>q'\<rfloor> \<le> round_half_even q'"
    by (simp add: round_half_even_def Let_def)
  ultimately show ?thesis by linarith
qed


lemma rnd_0 [simp]: "rnd 0 = 0"
  by (simp add: rnd_def)

lemma rnd_pos:
  "0 < x \<Longrightarrow> rnd x = of_int (round_half_even (x / pow2 (ulp_exp x))) * pow2 (ulp_exp x)"
  by (simp add: rnd_def Let_def ulp_exp_def)

lemma rnd_neg: "rnd (- x) = - rnd x"
  by (simp add: rnd_def Let_def sgn_minus)

lemma rnd_near:
  assumes "0 < x" "pow2 k \<le> x" "x < pow2 (k + 1)" "e = max (k - 52) (- 1074)"
    and "\<bar>x / pow2 e - of_int m\<bar> < 1 / 2"
  shows "rnd x = of_int m * pow2 e"
proof -
  have "ilog2 \<bar>x\<bar> = k" using assms(1-3) by (simp add: ilog2_unique)
  then have "ulp_exp x = e" by (simp add: ulp_exp_def assms(4))
  then show ?thesis using assms(1,5) by (simp add: rnd_pos rhe_near)
qed

lemma rnd_exact:
  assumes "x = of_int m * pow2 e" "0 < m" "m < 2 ^ 53" "- 1074 \<le> e"
  shows "rnd x = x"
proof -
  have xpos: "0 < x" using assms(1,2) by simp
  define k where "k = ilog2 x"
  define E where "E = ulp_exp x"
  have b: "pow2 k \<le> x" using ilog2_bounds [OF xpos] by (simp add: k_def)
  have "x < of_int (2 ^ 53) * pow2 e" unfolding assms(1)
    using assms(3) by (simp add: mult_strict_right_mono del: of_int_power)
  also have "\<dots> = pow2 (53 + e)" by (simp add: pow2_add pow2_nat)
  finally have "pow2 k < pow2 (53 + e)" using b by simp
  then have "k < 53 + e" by (simp only: pow2_less_iff)
  then have Ele: "E \<le> e" using assms(4) xpos by (simp add: E_def ulp_exp_def k_def)
  have "pow2 e = pow2 (e - E) * pow2 E" by (simp add: pow2_add [symmetric])
  then have "x / pow2 E = of_int m * pow2 (e - E)" by (simp add: assms(1))
  also have "\<dots> = of_int (m * 2 ^ nat (e - E))" using Ele by (simp add: pow2_nat)
  finally have q: "x / pow2 E = of_int (m * 2 ^ nat (e - E))" .
  have "rnd x = of_int (round_half_even (x / pow2 E)) * pow2 E"
    using xpos by (simp add: rnd_pos E_def)
  also have "\<dots> = (x / pow2 E) * pow2 E" unfolding q by (simp only: rhe_int)
  also have "\<dots> = x" by simp
  finally show ?thesis .
qed

lemma rnd_of_int:
  assumes "\<bar>n\<bar> < 2 ^ 53"
  shows "rnd (of_int n) = of_int n"
proof -
  have pos: "rnd (of_int m) = of_int m" if "0 < m" "m < 2 ^ 53" for m
    using rnd_exact [of "of_int m" m 0] that by simp
  consider "n = 0" | "0 < n" | "n < 0" by linarith
  then show ?thesis
  proof cases
    case 1 then show ?thesis by simp
  next
    case 2 then show ?thesis using pos [of n] assms by simp
  next
    case 3
    then have "rnd (of_int (- n)) = of_int (- n)" using pos [of "- n"] assms by simp
    then show ?thesis by (simp add: rnd_neg)
  qed
qed


lemma rnd_eval:
  assumes "0 < x" "pow2 k \<le> x" "x < pow2 (k + 1)"
    and "\<bar>x / pow2 (max (k - 52) (- 1074)) - of_int m\<bar> < 1 / 2"
    and "v = of_int m * pow2 (max (k - 52) (- 1074))"
  shows "rnd x = v"
  using rnd_near [OF assms(1-3) refl assms(4)] assms(5) by simp

lemma rnd_eval_neg:
  assumes "x < 0" "pow2 k \<le> - x" "- x < pow2 (k + 1)"
    and "\<bar>- x / pow2 (max (k - 52) (- 1074)) - of_int m\<bar> < 1 / 2"
    and "v = - (of_int m * pow2 (max (k - 52) (- 1074)))"
  shows "rnd x = v"
proof -
  have "rnd (- x) = of_int m * pow2 (max (k - 52) (- 1074))"
    using assms(1-4) by (intro rnd_near) simp_all
  then show ?thesis using assms(5) rnd_neg [of x] by simp
qed


lemma ilog2_mono:
  assumes "0 < x" "x \<le> y"
  shows "ilog2 x \<le> ilog2 y"
proof -
  have "pow2 (ilog2 x) \<le> x" using ilog2_bounds [OF assms(1)] by simp
  also have "x \<le> y" by fact
  also have "y < pow2 (ilog2 y + 1)" using ilog2_bounds [of y] assms by simp
  finally have "ilog2 x < ilog2 y + 1" by (simp only: pow2_less_iff)
  then show ?thesis by simp
qed

lemma rnd_le_pow2:
  assumes "0 < x" "x \<le> pow2 j" "ulp_exp x \<le> j"
  shows "rnd x \<le> pow2 j"
proof -
  define E where "E = ulp_exp x"
  have "x / pow2 E \<le> pow2 j / pow2 E" using assms(2) by (simp add: divide_right_mono)
  also have "pow2 j / pow2 E = pow2 (j - E)"
    using pow2_add [of "j - E" E] by simp
  also have "\<dots> = of_int (2 ^ nat (j - E))" using assms(3) by (simp add: pow2_nat E_def)
  finally have "round_half_even (x / pow2 E) \<le> round_half_even (of_int (2 ^ nat (j - E)))"
    by (rule rhe_mono)
  then have "round_half_even (x / pow2 E) \<le> 2 ^ nat (j - E)" by (simp only: rhe_int)
  then have "(of_int (round_half_even (x / pow2 E)) :: rat) \<le> of_int (2 ^ nat (j - E))"
    by (simp only: of_int_le_iff)
  then have "of_int (round_half_even (x / pow2 E)) * pow2 E \<le> of_int (2 ^ nat (j - E)) * pow2 E"
    by (simp add: mult_right_mono)
  also have "of_int (2 ^ nat (j - E)) * pow2 E = pow2 (j - E) * pow2 E"
    using assms(3) by (simp add: pow2_nat E_def)
  also have "\<dots> = pow2 j" using pow2_add [of "j - E" E] by simp
  finally show ?thesis using assms(1) by (simp add: rnd_pos E_def)
qed

lemma rnd_ge_pow2:
  assumes "0 < x" "pow2 j \<le> x" "ulp_exp x \<le> j"
  shows "pow2 j \<le> rnd x"
proof -
  define E where "E = ulp_exp x"
  have int: "pow2 (j - E) = of_int (2 ^ nat (j - E))" using assms(3) by (simp add: pow2_nat E_def)
  have split: "pow2 (j - E) * pow2 E = pow2 j" using pow2_add [of "j - E" E] by simp
  have "pow2 j / pow2 E \<le> x / pow2 E" using assms(2) by (simp add: divide_right_mono)
  moreover have "pow2 j / pow2 E = pow2 (j - E)" using split [symmetric] by simp
  ultimately have "of_int (2 ^ nat (j - E)) \<le> x / pow2 E" using int by simp
  then have "round_half_even (of_int (2 ^ nat (j - E))) \<le> round_half_even (x / pow2 E)"
    by (rule rhe_mono)
  then have "2 ^ nat (j - E) \<le> round_half_even (x / pow2 E)" by (simp only: rhe_int)
  then have "(of_int (2 ^ nat (j - E)) :: rat) \<le> of_int (round_half_even (x / pow2 E))"
    by (simp only: of_int_le_iff)
  then have "of_int (2 ^ nat (j - E)) * pow2 E \<le> of_int (round_half_even (x / pow2 E)) * pow2 E"
    by (simp add: mult_right_mono)
  then have "pow2 j \<le> of_int (round_half_even (x / pow2 E)) * pow2 E"
    by (simp only: int [symmetric] split)
  then show ?thesis using assms(1) by (simp add: rnd_pos E_def)
qed

lemma rnd_nonneg: "0 \<le> x \<Longrightarrow> 0 \<le> rnd x"
proof (cases "x = 0")
  case False
  assume "0 \<le> x"
  with False have "0 < x" by simp
  moreover have "0 \<le> round_half_even (x / pow2 (ulp_exp x))"
    using rhe_mono [of 0 "x / pow2 (ulp_exp x)"] \<open>0 < x\<close> rhe_int [of 0]
    by (simp del: rhe_int)
  ultimately show ?thesis by (simp add: rnd_pos)
qed simp

lemma rnd_mono_pos:
  assumes "0 < x" "x \<le> y"
  shows "rnd x \<le> rnd y"
proof -
  have ypos: "0 < y" using assms by simp
  have kle: "ilog2 x \<le> ilog2 y" using assms by (rule ilog2_mono)
  then have Ele: "ulp_exp x \<le> ulp_exp y" using assms ypos by (simp add: ulp_exp_def)
  show ?thesis
  proof (cases "ulp_exp x = ulp_exp y")
    case True
    have "x / pow2 (ulp_exp y) \<le> y / pow2 (ulp_exp y)"
      using assms(2) by (simp add: divide_right_mono)
    then have "round_half_even (x / pow2 (ulp_exp y)) \<le> round_half_even (y / pow2 (ulp_exp y))"
      by (rule rhe_mono)
    then have "(of_int (round_half_even (x / pow2 (ulp_exp y))) :: rat) * pow2 (ulp_exp y)
        \<le> of_int (round_half_even (y / pow2 (ulp_exp y))) * pow2 (ulp_exp y)"
      by (simp add: mult_right_mono)
    then show ?thesis using assms(1) ypos True by (simp add: rnd_pos)
  next
    case False
    with Ele have lt: "ulp_exp x < ulp_exp y" by simp
    then have Ey: "ulp_exp y = ilog2 y - 52" and klt: "ilog2 x < ilog2 y"
      using assms(1) ypos by (auto simp: ulp_exp_def max_def split: if_splits)
    have "x < pow2 (ilog2 x + 1)" using ilog2_bounds [OF assms(1)] by simp
    also have "\<dots> \<le> pow2 (ilog2 y)" using klt by (intro pow2_mono) simp
    finally have "x \<le> pow2 (ilog2 y)" by simp
    moreover have "ulp_exp x \<le> ilog2 y" using lt Ey by simp
    ultimately have "rnd x \<le> pow2 (ilog2 y)" using assms(1) by (intro rnd_le_pow2)
    moreover have "pow2 (ilog2 y) \<le> rnd y"
      using ypos ilog2_bounds [OF ypos] Ey by (intro rnd_ge_pow2) simp_all
    ultimately show ?thesis by simp
  qed
qed

lemma rnd_mono:
  assumes "x \<le> y"
  shows "rnd x \<le> rnd y"
proof -
  consider "0 < x" | "x \<le> 0" "0 \<le> y" | "y < 0" by linarith
  then show ?thesis
  proof cases
    case 1
    then show ?thesis using assms by (rule rnd_mono_pos)
  next
    case 2
    have "rnd x \<le> 0" using rnd_nonneg [of "- x"] 2(1) by (simp add: rnd_neg)
    moreover have "0 \<le> rnd y" using 2(2) by (rule rnd_nonneg)
    ultimately show ?thesis by simp
  next
    case 3
    then have "rnd (- y) \<le> rnd (- x)" using assms by (intro rnd_mono_pos) simp_all
    then show ?thesis by (simp add: rnd_neg)
  qed
qed

lemma fadd_mono: "x \<le> y \<Longrightarrow> fadd x z \<le> fadd y z"
  unfolding fadd_def by (rule rnd_mono) simp

lemma fadd_max: "max (fadd x z) (fadd y z) = fadd (max x y) z"
  using fadd_mono [of x y z] fadd_mono [of y x z] by (cases "x \<le> y") (auto simp: max_def)

lemma fadd_min: "min (fadd x z) (fadd y z) = fadd (min x y) z"
  using fadd_mono [of x y z] fadd_mono [of y x z] by (cases "x \<le> y") (auto simp: min_def)

subsection \<open>Clamping and hexadecimal output\<close>

lemma hex_of_nat_byte:
  "n < 256 \<Longrightarrow> replicate (2 - length (hex_of_nat n)) CHR ''0'' @ hex_of_nat n
     = [hexdigit (n div 16), hexdigit (n mod 16)]"
proof (cases "n < 16")
  case True
  then show ?thesis by (simp add: hex_of_nat.simps [of n] hexdigit_def)
next
  case False
  assume "n < 256"
  then have "n div 16 < 16" by simp
  with False show ?thesis
    by (simp add: hex_of_nat.simps [of n] hex_of_nat.simps [of "n div 16"])
qed

lemma format_02x_byte:
  "0 \<le> i \<Longrightarrow> i \<le> 255 \<Longrightarrow>
     format_02x i = [hexdigit (nat i div 16), hexdigit (nat i mod 16)]"
  using hex_of_nat_byte [of "nat i"] by (simp add: format_02x_def Let_def)

lemma hexdigit_lower: "d < 16 \<Longrightarrow> hexdigit d \<in> set ''0123456789abcdef''"
  unfolding hexdigit_def by (rule nth_mem) simp

lemma format_02x_digits:
  assumes "0 \<le> i" "i \<le> 255"
  shows "set (format_02x i) \<subseteq> set ''0123456789abcdef''"
proof -
  have "nat i div 16 < 16" using assms by simp
  moreover have "nat i mod 16 < 16" by simp
  ultimately show ?thesis
    using hexdigit_lower [of "nat i div 16"] hexdigit_lower [of "nat i mod 16"]
    by (simp only: format_02x_byte [OF assms]) simp
qed

text \<open>
  C6. For all integers the constructor clamps every channel into \<open>[0, 255]\<close>: a
  channel below 0 becomes 0, a channel above 255 becomes 255, and a channel in range is
  kept. \<^verbatim>\<open>to_hex\<close> of the constructed value is \<open>#\<close> followed by exactly six
  lower-case hexadecimal digits, two per channel, the high nibble first (so a channel
  below 16 is padded with a zero).
\<close>

theorem C6_rgb_clamp_to_hex:
  "(let c = RGB_new x y z in
      r c = (if x < 0 then 0 else if 255 < x then 255 else x) \<and>
      g c = (if y < 0 then 0 else if 255 < y then 255 else y) \<and>
      b c = (if z < 0 then 0 else if 255 < z then 255 else z) \<and>
      0 \<le> r c \<and> r c \<le> 255 \<and> 0 \<le> g c \<and> g c \<le> 255 \<and> 0 \<le> b c \<and> b c \<le> 255 \<and>
      to_hex c = CHR ''#'' #
        [hexdigit (nat (r c) div 16), hexdigit (nat (r c) mod 16),
         hexdigit (nat (g c) div 16), hexdigit (nat (g c) mod 16),
         hexdigit (nat (b c) div 16), hexdigit (nat (b c) mod 16)] \<and>
      length (to_hex c) = 7 \<and>
      set (tl (to_hex c)) \<subseteq> set ''0123456789abcdef'')"
proof -
  define c where "c = RGB_new x y z"
  have clamp: "r c = (if x < 0 then 0 else if 255 < x then 255 else x)"
    "g c = (if y < 0 then 0 else if 255 < y then 255 else y)"
    "b c = (if z < 0 then 0 else if 255 < z then 255 else z)"
    by (simp_all add: c_def RGB_new_def)
  have rng: "0 \<le> r c" "r c \<le> 255" "0 \<le> g c" "g c \<le> 255" "0 \<le> b c" "b c \<le> 255"
    by (simp_all add: c_def RGB_new_def)
  have hex: "to_hex c = CHR ''#'' #
        [hexdigit (nat (r c) div 16), hexdigit (nat (r c) mod 16),
         hexdigit (nat (g c) div 16), hexdigit (nat (g c) mod 16),
         hexdigit (nat (b c) div 16), hexdigit (nat (b c) mod 16)]"
    by (simp add: to_hex_def format_02x_byte rng)
  have len: "length (to_hex c) = 7"
    by (simp add: hex)
  have "set (tl (to_hex c)) = set (format_02x (r c)) \<union> set (format_02x (g c)) \<union> set (format_02x (b c))"
    by (simp add: to_hex_def Un_assoc)
  then have digs: "set (tl (to_hex c)) \<subseteq> set ''0123456789abcdef''"
    using format_02x_digits rng by blast
  show ?thesis
    unfolding Let_def c_def [symmetric] using clamp rng hex len digs by blast
qed

text \<open>
  C10. \<^verbatim>\<open>invert\<close> is an involution on every colour whose RGB value came out of the
  constructor: inverting twice gives back the same channels.
\<close>

theorem C10_invert_involution:
  "invert (invert (Color_of_RGB (RGB_new x y z))) = Color_of_RGB (RGB_new x y z)"
  by (simp add: invert_def Color_of_RGB_def RGB_new_def)

subsection \<open>Contrast\<close>

lemma RGB_new_white: "RGB_new 255 255 255 = \<lparr>r = 255, g = 255, b = 255\<rparr>"
  by (simp add: RGB_new_def)

lemma RGB_new_black: "RGB_new 0 0 0 = \<lparr>r = 0, g = 0, b = 0\<rparr>"
  by (simp add: RGB_new_def)

lemma contrast_white_black:
  "contrast_ratio (Color_of_RGB (RGB_new 255 255 255)) (Color_of_RGB (RGB_new 0 0 0)) = 21"
proof -
  have e1: "int_truediv 255 255 = 1"
    unfolding int_truediv_def by (rule rnd_eval [where k = "0" and m = 4503599627370496]) (simp_all add: pow2_def)
  have e2: "rnd (2126 / 10000) = (1914930561557935 / 9007199254740992)"
    by (rule rnd_eval [where k = "- 3" and m = 7659722246231740]) (simp_all add: pow2_def)
  have e3: "rnd (7152 / 10000) = (6441948906990757 / 9007199254740992)"
    by (rule rnd_eval [where k = "- 1" and m = 6441948906990757]) (simp_all add: pow2_def)
  have e4: "rnd (722 / 10000) = (5202558289538397 / 72057594037927936)"
    by (rule rnd_eval [where k = "- 4" and m = 5202558289538397]) (simp_all add: pow2_def)
  have e5: "fmul (1914930561557935 / 9007199254740992) 1 = (1914930561557935 / 9007199254740992)"
    unfolding fmul_def by (rule rnd_eval [where k = "- 3" and m = 7659722246231740]) (simp_all add: pow2_def)
  have e6: "fmul (6441948906990757 / 9007199254740992) 1 = (6441948906990757 / 9007199254740992)"
    unfolding fmul_def by (rule rnd_eval [where k = "- 1" and m = 6441948906990757]) (simp_all add: pow2_def)
  have e7: "fadd (1914930561557935 / 9007199254740992) (6441948906990757 / 9007199254740992) = (2089219867137173 / 2251799813685248)"
    unfolding fadd_def by (rule rnd_eval [where k = "- 1" and m = 8356879468548692]) (simp_all add: pow2_def)
  have e8: "fmul (5202558289538397 / 72057594037927936) 1 = (5202558289538397 / 72057594037927936)"
    unfolding fmul_def by (rule rnd_eval [where k = "- 4" and m = 5202558289538397]) (simp_all add: pow2_def)
  have e9: "fadd (2089219867137173 / 2251799813685248) (5202558289538397 / 72057594037927936) = 1"
    unfolding fadd_def by (rule rnd_eval [where k = "- 1" and m = 9007199254740992]) (simp_all add: pow2_def)
  have e10: "int_truediv 0 255 = 0"
    by (simp add: int_truediv_def)
  have e11: "fmul (1914930561557935 / 9007199254740992) 0 = 0"
    by (simp add: fmul_def)
  have e12: "fmul (6441948906990757 / 9007199254740992) 0 = 0"
    by (simp add: fmul_def)
  have e13: "fadd 0 0 = 0"
    by (simp add: fadd_def)
  have e14: "fmul (5202558289538397 / 72057594037927936) 0 = 0"
    by (simp add: fmul_def)
  have e15: "rnd (5 / 100) = (3602879701896397 / 72057594037927936)"
    by (rule rnd_eval [where k = "- 5" and m = 7205759403792794]) (simp_all add: pow2_def)
  have e16: "fadd 1 (3602879701896397 / 72057594037927936) = (4728779608739021 / 4503599627370496)"
    unfolding fadd_def by (rule rnd_eval [where k = "0" and m = 4728779608739021]) (simp_all add: pow2_def)
  have e17: "fadd 0 (3602879701896397 / 72057594037927936) = (3602879701896397 / 72057594037927936)"
    unfolding fadd_def by (rule rnd_eval [where k = "- 5" and m = 7205759403792794]) (simp_all add: pow2_def)
  have e18: "max ((4728779608739021 / 4503599627370496) :: rat) (3602879701896397 / 72057594037927936) = (4728779608739021 / 4503599627370496)"
    by simp
  have e19: "min ((4728779608739021 / 4503599627370496) :: rat) (3602879701896397 / 72057594037927936) = (3602879701896397 / 72057594037927936)"
    by simp
  have e20: "fdiv (4728779608739021 / 4503599627370496) (3602879701896397 / 72057594037927936) = 21"
    unfolding fdiv_def by (rule rnd_eval [where k = "4" and m = 5910974510923776]) (simp_all add: pow2_def)
  show ?thesis
    by (simp only: contrast_ratio_def luminance_def Let_def Color_of_RGB_def RGB_new_white
        RGB_new_black RGB.simps Color.simps e1 e2 e3 e4 e5 e6 e7 e8 e9 e10 e11 e12 e13 e14 e15 e16 e17 e18 e19 e20)
qed

lemma parse_white: "parse_string ''white'' = Inr (RGB_new 255 255 255)"
  unfolding RGB_new_white by code_simp

lemma parse_black: "parse_string ''black'' = Inr (RGB_new 0 0 0)"
  unfolding RGB_new_black by code_simp

text \<open>
  C9. The contrast ratio of two colours is the float quotient of the larger luminance
  plus 0.05 by the smaller luminance plus 0.05 (each sum and the quotient rounded as
  floats are), and \<^verbatim>\<open>Color("white").contrast_ratio(Color("black"))\<close> is exactly 21.0.
\<close>

theorem C9_contrast_ratio:
  "contrast_ratio c1 c2 =
     fdiv (fadd (max (luminance (rgb c1)) (luminance (rgb c2))) (rnd (5 / 100)))
          (fadd (min (luminance (rgb c1)) (luminance (rgb c2))) (rnd (5 / 100))) \<and>
   Color_of_string ''white'' = Inr (Color_of_RGB (RGB_new 255 255 255)) \<and>
   Color_of_string ''black'' = Inr (Color_of_RGB (RGB_new 0 0 0)) \<and>
   contrast_ratio (Color_of_RGB (RGB_new 255 255 255)) (Color_of_RGB (RGB_new 0 0 0)) = 21"
proof -
  have "contrast_ratio c1 c2 =
     fdiv (fadd (max (luminance (rgb c1)) (luminance (rgb c2))) (rnd (5 / 100)))
          (fadd (min (luminance (rgb c1)) (luminance (rgb c2))) (rnd (5 / 100)))"
    by (simp only: contrast_ratio_def Let_def fadd_max fadd_min)
  moreover have "Color_of_string ''white'' = Inr (Color_of_RGB (RGB_new 255 255 255))"
    by (simp add: Color_of_string_def parse_white Color_of_RGB_def)
  moreover have "Color_of_string ''black'' = Inr (Color_of_RGB (RGB_new 0 0 0))"
    by (simp add: Color_of_string_def parse_black Color_of_RGB_def)
  ultimately show ?thesis using contrast_white_black by blast
qed

subsection \<open>Evaluating conversions\<close>

lemma rhe_tie:
  assumes "q = of_int m + 1 / 2"
  shows "round_half_even q = (if even m then m else m + 1)"
proof -
  have "\<lfloor>q\<rfloor> = m" unfolding assms by (simp add: floor_eq_iff)
  then show ?thesis by (simp add: round_half_even_def Let_def assms)
qed

lemma rnd_eval_tie:
  assumes "0 < x" "pow2 k \<le> x" "x < pow2 (k + 1)"
    and "x / pow2 (max (k - 52) (- 1074)) = of_int m + 1 / 2"
    and "v = of_int (if even m then m else m + 1) * pow2 (max (k - 52) (- 1074))"
  shows "rnd x = v"
proof -
  have "ilog2 \<bar>x\<bar> = k" using assms(1-3) by (simp add: ilog2_unique)
  then have "ulp_exp x = max (k - 52) (- 1074)" by (simp add: ulp_exp_def)
  then show ?thesis using assms(1,4,5) by (simp only: rnd_pos rhe_tie)
qed


lemma to_hsl_10_20_30: "to_hsl \<lparr>r = 10, g = 20, b = 30\<rparr> = \<lparr>h = 210, s = 50, l = 7\<rparr>"
proof -
  have a1: "int_truediv 10 255 = (1412894000743685 / 36028797018963968)"
    unfolding int_truediv_def by (rule rnd_eval [where k = "- 5" and m = 5651576002974740]) (simp_all add: pow2_def)
  have a2: "int_truediv 20 255 = (1412894000743685 / 18014398509481984)"
    unfolding int_truediv_def by (rule rnd_eval [where k = "- 4" and m = 5651576002974740]) (simp_all add: pow2_def)
  have a3: "int_truediv 30 255 = (4238682002231055 / 36028797018963968)"
    unfolding int_truediv_def by (rule rnd_eval [where k = "- 4" and m = 8477364004462110]) (simp_all add: pow2_def)
  have a4: "max ((1412894000743685 / 18014398509481984) :: rat) (4238682002231055 / 36028797018963968) = (4238682002231055 / 36028797018963968)"
    by simp
  have a5: "max ((1412894000743685 / 36028797018963968) :: rat) (4238682002231055 / 36028797018963968) = (4238682002231055 / 36028797018963968)"
    by simp
  have a6: "min ((1412894000743685 / 18014398509481984) :: rat) (4238682002231055 / 36028797018963968) = (1412894000743685 / 18014398509481984)"
    by simp
  have a7: "min ((1412894000743685 / 36028797018963968) :: rat) (1412894000743685 / 18014398509481984) = (1412894000743685 / 36028797018963968)"
    by simp
  have a8: "fadd (4238682002231055 / 36028797018963968) (1412894000743685 / 36028797018963968) = (1412894000743685 / 9007199254740992)"
    unfolding fadd_def by (rule rnd_eval [where k = "- 3" and m = 5651576002974740]) (simp_all add: pow2_def)
  have a9: "fsub (4238682002231055 / 36028797018963968) (1412894000743685 / 36028797018963968) = (1412894000743685 / 18014398509481984)"
    unfolding fsub_def by (rule rnd_eval [where k = "- 4" and m = 5651576002974740]) (simp_all add: pow2_def)
  have a10: "fdiv (1412894000743685 / 9007199254740992) 2 = (1412894000743685 / 18014398509481984)"
    unfolding fdiv_def by (rule rnd_eval [where k = "- 4" and m = 5651576002974740]) (simp_all add: pow2_def)
  have a11: "(((1412894000743685 / 36028797018963968) :: rat) = (4238682002231055 / 36028797018963968)) = False"
    by simp
  have a12: "(((1412894000743685 / 18014398509481984) :: rat) \<le> (1 / 2)) = True"
    by simp
  have a13: "fdiv (1412894000743685 / 18014398509481984) (1412894000743685 / 9007199254740992) = (1 / 2)"
    unfolding fdiv_def by (rule rnd_eval [where k = "- 1" and m = 4503599627370496]) (simp_all add: pow2_def)
  have a14: "fdiv (1412894000743685 / 18014398509481984) (1412894000743685 / 18014398509481984) = 1"
    unfolding fdiv_def by (rule rnd_eval [where k = "0" and m = 4503599627370496]) (simp_all add: pow2_def)
  have a15: "fsub (4238682002231055 / 36028797018963968) (1412894000743685 / 18014398509481984) = (1412894000743685 / 36028797018963968)"
    unfolding fsub_def by (rule rnd_eval [where k = "- 5" and m = 5651576002974740]) (simp_all add: pow2_def)
  have a16: "fdiv (1412894000743685 / 36028797018963968) (1412894000743685 / 18014398509481984) = (1 / 2)"
    unfolding fdiv_def by (rule rnd_eval [where k = "- 1" and m = 4503599627370496]) (simp_all add: pow2_def)
  have a17: "fsub (4238682002231055 / 36028797018963968) (4238682002231055 / 36028797018963968) = 0"
    by (simp add: fsub_def)
  have a18: "fdiv 0 (1412894000743685 / 18014398509481984) = 0"
    by (simp add: fdiv_def)
  have a19: "(((1412894000743685 / 18014398509481984) :: rat) = (4238682002231055 / 36028797018963968)) = False"
    by simp
  have a20: "fadd 4 (1 / 2) = (9 / 2)"
    unfolding fadd_def by (rule rnd_eval [where k = "2" and m = 5066549580791808]) (simp_all add: pow2_def)
  have a21: "fsub (9 / 2) 1 = (7 / 2)"
    unfolding fsub_def by (rule rnd_eval [where k = "1" and m = 7881299347898368]) (simp_all add: pow2_def)
  have a22: "fdiv (7 / 2) 6 = (5254199565265579 / 9007199254740992)"
    unfolding fdiv_def by (rule rnd_eval [where k = "- 1" and m = 5254199565265579]) (simp_all add: pow2_def)
  have a23: "py_int (5254199565265579 / 9007199254740992) = 0"
    by (simp add: py_int_def floor_eq_iff)
  have a24: "fmod1 (5254199565265579 / 9007199254740992) = (5254199565265579 / 9007199254740992)"
    by (simp add: fmod1_def Let_def a23)
  have a25: "fmul (5254199565265579 / 9007199254740992) 360 = 210"
    unfolding fmul_def by (rule rnd_eval [where k = "7" and m = 7388718138654720]) (simp_all add: pow2_def)
  have a26: "py_int 210 = 210"
    by (simp add: py_int_def floor_eq_iff)
  have a27: "fmul (1 / 2) 100 = 50"
    unfolding fmul_def by (rule rnd_eval [where k = "5" and m = 7036874417766400]) (simp_all add: pow2_def)
  have a28: "py_int 50 = 50"
    by (simp add: py_int_def floor_eq_iff)
  have a29: "fmul (1412894000743685 / 18014398509481984) 100 = (8830587504648031 / 1125899906842624)"
    unfolding fmul_def by (rule rnd_eval [where k = "2" and m = 8830587504648031]) (simp_all add: pow2_def)
  have a30: "py_int (8830587504648031 / 1125899906842624) = 7"
    by (simp add: py_int_def floor_eq_iff)
  have "to_hsl \<lparr>r = 10, g = 20, b = 30\<rparr> = HSL_new 210 50 7"
    by (simp only: to_hsl_def rgb_to_hls_def Let_def RGB.simps if_True if_False prod.case
        a1 a2 a3 a4 a5 a6 a7 a8 a9 a10 a11 a12 a13 a14 a15 a16 a17 a18 a19 a20 a21 a22 a23 a24 a25 a26 a27 a28 a29 a30)
  then show ?thesis by (simp add: HSL_new_def)
qed


lemma to_hsl_black: "to_hsl \<lparr>r = 0, g = 0, b = 0\<rparr> = \<lparr>h = 0, s = 0, l = 0\<rparr>"
  by (simp add: to_hsl_def rgb_to_hls_def int_truediv_def fadd_def fsub_def fdiv_def fmul_def
      py_int_def HSL_new_def Let_def)

lemma to_rgb_black: "HSL_to_rgb \<lparr>h = x, s = 0, l = 0\<rparr> = \<lparr>r = 0, g = 0, b = 0\<rparr>"
  by (simp add: HSL_to_rgb_def hls_to_rgb_def int_truediv_def fmul_def py_int_def RGB_new_def)

lemma RGB_new_range:
  "0 \<le> r (RGB_new x y z)" "r (RGB_new x y z) \<le> 255"
  "0 \<le> g (RGB_new x y z)" "g (RGB_new x y z) \<le> 255"
  "0 \<le> b (RGB_new x y z)" "b (RGB_new x y z) \<le> 255"
  by (simp_all add: RGB_new_def)

lemma RGB_new_id:
  "0 \<le> x \<Longrightarrow> x \<le> 255 \<Longrightarrow> 0 \<le> y \<Longrightarrow> y \<le> 255 \<Longrightarrow> 0 \<le> z \<Longrightarrow> z \<le> 255 \<Longrightarrow>
     RGB_new x y z = \<lparr>r = x, g = y, b = z\<rparr>"
  by (simp add: RGB_new_def)

subsection \<open>Blending\<close>

lemma rnd_1 [simp]: "rnd 1 = 1"
  using rnd_of_int [of 1] by simp

lemma rnd_abs_err:
  assumes "0 \<le> x" "x \<le> pow2 j" "- 1022 \<le> j"
  shows "\<bar>rnd x - x\<bar> \<le> pow2 (j - 53)"
proof (cases "x = 0")
  case True
  then show ?thesis by simp
next
  case False
  with assms(1) have xpos: "0 < x" by simp
  define E where "E = ulp_exp x"
  have "pow2 (ilog2 x) \<le> x" using ilog2_bounds [OF xpos] by simp
  also have "x < pow2 (j + 1)" using assms(2) pow2_Suc [of j] pow2_pos [of j] by linarith
  finally have "ilog2 x < j + 1" by (simp only: pow2_less_iff)
  then have Ele: "E \<le> j - 52" using assms(3) xpos by (simp add: E_def ulp_exp_def)
  have "rnd x - x = (of_int (round_half_even (x / pow2 E)) - x / pow2 E) * pow2 E"
    using xpos by (simp add: rnd_pos E_def algebra_simps)
  then have "\<bar>rnd x - x\<bar> = \<bar>of_int (round_half_even (x / pow2 E)) - x / pow2 E\<bar> * pow2 E"
    by (simp add: abs_mult)
  also have "\<dots> \<le> (1 / 2) * pow2 E"
    using rhe_err [of "x / pow2 E"] by (intro mult_right_mono) simp_all
  also have "\<dots> \<le> (1 / 2) * pow2 (j - 52)"
    using pow2_mono [OF Ele] by simp
  also have "\<dots> = pow2 (j - 53)"
    using pow2_Suc [of "j - 53"] by simp
  finally show ?thesis .
qed

lemma rnd_le_int:
  assumes "x \<le> of_int n" "\<bar>n\<bar> < 2 ^ 53"
  shows "rnd x \<le> of_int n"
  using rnd_mono [OF assms(1)] rnd_of_int [OF assms(2)] by simp

lemma blend_same_bounds:
  assumes x: "0 \<le> x" "x \<le> 255" and t: "0 \<le> t" "t \<le> 1"
  shows "x - 1 \<le> blend_channel x x (PyFloat t) \<and> blend_channel x x (PyFloat t) \<le> x
         \<and> 0 \<le> blend_channel x x (PyFloat t)"
proof -
  define X :: rat where "X = of_int x"
  define u where "u = fsub 1 t"
  define p where "p = fmul X u"
  define q where "q = fmul X t"
  define w where "w = fadd p q"
  have X: "0 \<le> X" "X \<le> 255" using x by (simp_all add: X_def)
  have fx: "float_of_int x = X"
    unfolding float_of_int_def X_def using x by (intro rnd_of_int) simp
  have u0: "0 \<le> u" unfolding u_def fsub_def using t by (intro rnd_nonneg) simp
  have u1: "u \<le> 1" unfolding u_def fsub_def using t rnd_le_int [of "1 - t" 1] by simp
  have ue: "\<bar>u - (1 - t)\<bar> \<le> pow2 (- 53)"
    unfolding u_def fsub_def using t rnd_abs_err [of "1 - t" 0] by simp
  have Xu: "0 \<le> X * u" "X * u \<le> 255"
    using X u0 u1 mult_mono [of X 255 u 1] by simp_all
  have Xt: "0 \<le> X * t" "X * t \<le> 255"
    using X t mult_mono [of X 255 t 1] by simp_all
  have p0: "0 \<le> p" unfolding p_def fmul_def using Xu by (intro rnd_nonneg)
  have p1: "p \<le> 255" unfolding p_def fmul_def using Xu rnd_le_int [of "X * u" 255] by simp
  have pe: "\<bar>p - X * u\<bar> \<le> pow2 (- 45)"
    unfolding p_def fmul_def using Xu rnd_abs_err [of "X * u" 8] by (simp add: pow2_def)
  have q0: "0 \<le> q" unfolding q_def fmul_def using Xt by (intro rnd_nonneg)
  have q1: "q \<le> 255" unfolding q_def fmul_def using Xt rnd_le_int [of "X * t" 255] by simp
  have qe: "\<bar>q - X * t\<bar> \<le> pow2 (- 45)"
    unfolding q_def fmul_def using Xt rnd_abs_err [of "X * t" 8] by (simp add: pow2_def)
  have w0: "0 \<le> w" unfolding w_def fadd_def using p0 q0 by (intro rnd_nonneg) simp
  have we: "\<bar>w - (p + q)\<bar> \<le> pow2 (- 44)"
    unfolding w_def fadd_def using p0 q0 p1 q1 rnd_abs_err [of "p + q" 9] by (simp add: pow2_def)
  have "X * \<bar>u - (1 - t)\<bar> \<le> 255 * pow2 (- 53)"
    using X ue by (intro mult_mono) simp_all
  then have xe: "\<bar>X * u - X * (1 - t)\<bar> \<le> 255 * pow2 (- 53)"
    using X by (simp add: right_diff_distrib [symmetric] abs_mult del: right_diff_distrib)
  have "w - X = (w - (p + q)) + (p - X * u) + (q - X * t) + (X * u - X * (1 - t))"
    by (simp add: algebra_simps)
  then have "\<bar>w - X\<bar> \<le> pow2 (- 44) + pow2 (- 45) + pow2 (- 45) + 255 * pow2 (- 53)"
    using we pe qe xe by linarith
  also have "\<dots> < 1" by (simp add: pow2_def)
  finally have near: "X - 1 < w" "w < X + 1" by (simp_all add: abs_less_iff) 
  have bc: "blend_channel x x (PyFloat t) = \<lfloor>w\<rfloor>"
    using w0 by (simp add: py_int_def fx w_def p_def q_def u_def)
  have "of_int (x - 1) < w" using near(1) by (simp add: X_def)
  then have lo: "x - 1 \<le> \<lfloor>w\<rfloor>" by (simp add: le_floor_iff)
  have "w < of_int (x + 1)" using near(2) by (simp add: X_def)
  then have hi: "\<lfloor>w\<rfloor> < x + 1" by (simp only: floor_less_iff)
  have "0 \<le> \<lfloor>w\<rfloor>" using w0 by simp
  with lo hi show ?thesis unfolding bc by simp
qed

lemma blend_29:
  "blend_channel 29 29 (PyFloat (int_truediv 3 7)) = 28"
proof -
  have d1: "int_truediv 3 7 = (7720456504063707 / 18014398509481984)"
    unfolding int_truediv_def by (rule rnd_eval [where k = "- 2" and m = 7720456504063707]) (simp_all add: pow2_def)
  have d2: "float_of_int 29 = 29"
    unfolding float_of_int_def by (rule rnd_eval [where k = "4" and m = 8162774324609024]) (simp_all add: pow2_def)
  have d3: "fsub 1 (7720456504063707 / 18014398509481984) = (2573485501354569 / 4503599627370496)"
    unfolding fsub_def by (rule rnd_eval_tie [where k = "- 1" and m = 5146971002709138]) (simp_all add: pow2_def)
  have d4: "fmul 29 (2573485501354569 / 4503599627370496) = (1166110617801289 / 70368744177664)"
    unfolding fmul_def by (rule rnd_eval [where k = "4" and m = 4664442471205156]) (simp_all add: pow2_def)
  have d5: "fmul 29 (7720456504063707 / 18014398509481984) = (3498331853403867 / 281474976710656)"
    unfolding fmul_def by (rule rnd_eval [where k = "3" and m = 6996663706807734]) (simp_all add: pow2_def)
  have d6: "fadd (1166110617801289 / 70368744177664) (3498331853403867 / 281474976710656) = (8162774324609023 / 281474976710656)"
    unfolding fadd_def by (rule rnd_eval [where k = "4" and m = 8162774324609023]) (simp_all add: pow2_def)
  have d7: "py_int (8162774324609023 / 281474976710656) = 28"
    by (simp add: py_int_def floor_eq_iff)
  show ?thesis
    by (simp only: blend_channel.simps d1 d2 d3 d4 d5 d6 d7)
qed

lemma int_truediv_unit:
  assumes "0 \<le> i" "i \<le> j" "0 < j"
  shows "0 \<le> int_truediv i j" "int_truediv i j \<le> 1"
proof -
  have q: "0 \<le> (of_int i :: rat) / of_int j" "(of_int i :: rat) / of_int j \<le> of_int 1"
    using assms by simp_all
  show "0 \<le> int_truediv i j" unfolding int_truediv_def using q(1) by (rule rnd_nonneg)
  show "int_truediv i j \<le> 1"
    unfolding int_truediv_def using rnd_le_int [OF q(2)] by simp
qed

lemma blend_channel_0:
  assumes "\<bar>x\<bar> < 2 ^ 53"
  shows "blend_channel x y (PyFloat 0) = x"
proof -
  have "float_of_int x = of_int x" unfolding float_of_int_def using assms by (rule rnd_of_int)
  moreover have "rnd (of_int x) = of_int x" using assms by (rule rnd_of_int)
  ultimately show ?thesis
    by (simp add: fsub_def fmul_def fadd_def py_int_def)
qed

lemma blend_channel_1:
  assumes "\<bar>y\<bar> < 2 ^ 53"
  shows "blend_channel x y (PyFloat 1) = y"
proof -
  have "float_of_int y = of_int y" unfolding float_of_int_def using assms by (rule rnd_of_int)
  moreover have "rnd (of_int y) = of_int y" using assms by (rule rnd_of_int)
  ultimately show ?thesis
    by (simp add: fsub_def fmul_def fadd_def py_int_def)
qed

lemma RGB_new_fields: "RGB_new (r (RGB_new x y z)) (g (RGB_new x y z)) (b (RGB_new x y z)) = RGB_new x y z"
  by (simp add: RGB_new_def)

lemma blend_start:
  "blend (Color_of_RGB (RGB_new x y z)) other (PyFloat 0) = Color_of_RGB (RGB_new x y z)"
proof -
  define c where "c = RGB_new x y z"
  have "\<bar>r c\<bar> < 2 ^ 53" "\<bar>g c\<bar> < 2 ^ 53" "\<bar>b c\<bar> < 2 ^ 53"
    by (simp_all add: c_def RGB_new_def)
  then have "blend (Color_of_RGB c) other (PyFloat 0) = Color_of_RGB (RGB_new (r c) (g c) (b c))"
    by (simp only: blend_def blend_channel_0 Color_of_RGB_def Color.simps)
  then show ?thesis by (simp only: c_def RGB_new_fields)
qed

lemma blend_end:
  "blend other (Color_of_RGB (RGB_new x y z)) (PyFloat 1) = Color_of_RGB (RGB_new x y z)"
proof -
  define c where "c = RGB_new x y z"
  have "\<bar>r c\<bar> < 2 ^ 53" "\<bar>g c\<bar> < 2 ^ 53" "\<bar>b c\<bar> < 2 ^ 53"
    by (simp_all add: c_def RGB_new_def)
  then have "blend other (Color_of_RGB c) (PyFloat 1) = Color_of_RGB (RGB_new (r c) (g c) (b c))"
    by (simp only: blend_def blend_channel_1 Color_of_RGB_def Color.simps)
  then show ?thesis by (simp only: c_def RGB_new_fields)
qed

lemma blend_int_0:
  "blend (Color_of_RGB (RGB_new x y z)) other (PyInt 0) = Color_of_RGB (RGB_new x y z)"
  by (simp add: blend_def Color_of_RGB_def) (simp add: RGB_new_def)

lemma blend_same:
  assumes "0 \<le> t" "t \<le> 1"
  shows "r (rgb (blend (Color_of_RGB (RGB_new x y z)) (Color_of_RGB (RGB_new x y z)) (PyFloat t)))
           = blend_channel (r (RGB_new x y z)) (r (RGB_new x y z)) (PyFloat t)"
    and "g (rgb (blend (Color_of_RGB (RGB_new x y z)) (Color_of_RGB (RGB_new x y z)) (PyFloat t)))
           = blend_channel (g (RGB_new x y z)) (g (RGB_new x y z)) (PyFloat t)"
    and "b (rgb (blend (Color_of_RGB (RGB_new x y z)) (Color_of_RGB (RGB_new x y z)) (PyFloat t)))
           = blend_channel (b (RGB_new x y z)) (b (RGB_new x y z)) (PyFloat t)"
proof -
  note rng = RGB_new_range [of x y z]
  note bs = blend_same_bounds [OF rng(1,2) assms] blend_same_bounds [OF rng(3,4) assms]
    blend_same_bounds [OF rng(5,6) assms]
  have "RGB_new (blend_channel (r (RGB_new x y z)) (r (RGB_new x y z)) (PyFloat t))
                (blend_channel (g (RGB_new x y z)) (g (RGB_new x y z)) (PyFloat t))
                (blend_channel (b (RGB_new x y z)) (b (RGB_new x y z)) (PyFloat t))
        = \<lparr>r = blend_channel (r (RGB_new x y z)) (r (RGB_new x y z)) (PyFloat t),
           g = blend_channel (g (RGB_new x y z)) (g (RGB_new x y z)) (PyFloat t),
           b = blend_channel (b (RGB_new x y z)) (b (RGB_new x y z)) (PyFloat t)\<rparr>"
    using bs rng by (intro RGB_new_id) linarith+
  then show
    "r (rgb (blend (Color_of_RGB (RGB_new x y z)) (Color_of_RGB (RGB_new x y z)) (PyFloat t)))
           = blend_channel (r (RGB_new x y z)) (r (RGB_new x y z)) (PyFloat t)"
    "g (rgb (blend (Color_of_RGB (RGB_new x y z)) (Color_of_RGB (RGB_new x y z)) (PyFloat t)))
           = blend_channel (g (RGB_new x y z)) (g (RGB_new x y z)) (PyFloat t)"
    "b (rgb (blend (Color_of_RGB (RGB_new x y z)) (Color_of_RGB (RGB_new x y z)) (PyFloat t)))
           = blend_channel (b (RGB_new x y z)) (b (RGB_new x y z)) (PyFloat t)"
    by (simp_all add: blend_def Color_of_RGB_def)
qed

subsection \<open>Gradients\<close>

lemma length_gradient: "length (gradient c e n) = nat n"
  by (simp add: gradient_def)

lemma nth_gradient:
  assumes "0 \<le> i" "i < n"
  shows "gradient c e n ! nat i =
           blend c e (if 1 < n then PyFloat (int_truediv i (n - 1)) else PyInt 0)"
proof -
  have "nat i < length [0..n - 1]" using assms by simp
  moreover have "[0..n - 1] ! nat i = i" using assms by (simp add: nth_upto)
  ultimately show ?thesis by (simp add: gradient_def)
qed

lemma gradient_elem:
  assumes "c \<in> set (gradient a e n)"
  obtains i where "0 \<le> i" "i < n"
    "c = blend a e (if 1 < n then PyFloat (int_truediv i (n - 1)) else PyInt 0)"
  using assms by (auto simp: gradient_def)

lemma gradient_le_1:
  assumes "n \<le> 1"
  shows "gradient (Color_of_RGB (RGB_new x y z)) e n = replicate (nat n) (Color_of_RGB (RGB_new x y z))"
proof (cases "n = 1")
  case True
  then show ?thesis by (simp add: gradient_def blend_int_0 upto.simps)
next
  case False
  with assms have "n \<le> 0" by simp
  then show ?thesis by (simp add: gradient_def)
qed

lemma gradient_29:
  "gradient (Color_of_RGB (RGB_new 29 29 29)) (Color_of_RGB (RGB_new 29 29 29)) 8 ! 3
     = Color_of_RGB (RGB_new 28 28 28)"
proof -
  have c: "RGB_new 29 29 29 = \<lparr>r = 29, g = 29, b = 29\<rparr>" by (simp add: RGB_new_def)
  have "gradient (Color_of_RGB (RGB_new 29 29 29)) (Color_of_RGB (RGB_new 29 29 29)) 8 ! nat 3
     = blend (Color_of_RGB (RGB_new 29 29 29)) (Color_of_RGB (RGB_new 29 29 29))
         (if 1 < (8::int) then PyFloat (int_truediv 3 (8 - 1)) else PyInt 0)"
    by (rule nth_gradient) simp_all
  then show ?thesis
    by (simp add: blend_def Color_of_RGB_def c blend_29 del: blend_channel.simps)
qed



subsection \<open>The claims about conversions and gradients\<close>



text \<open>
  C5, as stated, fails: the gradient of eight steps from \<^verbatim>\<open>RGB(29, 29, 29)\<close> to itself
  is not eight copies of it; the sample at index 3 (ratio \<open>3 / 7\<close>) is
  \<^verbatim>\<open>RGB(28, 28, 28)\<close>, because the rounded sum of the two rounded products lies just
  below 29 and \<^verbatim>\<open>int\<close> truncates.
\<close>

theorem C5_gradient_same_counterexample:
  "gradient (Color_of_RGB (RGB_new 29 29 29)) (Color_of_RGB (RGB_new 29 29 29)) 8
     \<noteq> replicate 8 (Color_of_RGB (RGB_new 29 29 29))"
proof
  assume "gradient (Color_of_RGB (RGB_new 29 29 29)) (Color_of_RGB (RGB_new 29 29 29)) 8
     = replicate 8 (Color_of_RGB (RGB_new 29 29 29))"
  then have "gradient (Color_of_RGB (RGB_new 29 29 29)) (Color_of_RGB (RGB_new 29 29 29)) 8 ! 3
     = replicate 8 (Color_of_RGB (RGB_new 29 29 29)) ! 3"
    by simp
  then show False
    by (simp add: gradient_29) (simp add: Color_of_RGB_def RGB_new_def)
qed

text \<open>
  C5, amended. For every colour \<open>a\<close> and every integer \<open>n\<close>, \<^verbatim>\<open>gradient(a, a, n)\<close>
  returns \<open>n\<close> colours (none when \<open>n \<le> 0\<close>), and every channel of every sample is the
  channel of \<open>a\<close> or one less, and not negative; when \<open>n \<le> 1\<close> the samples are exact
  copies of \<open>a\<close>. Equality of colours is equality of their RGB values.
\<close>

theorem C5_gradient_same_amended:
  "length (gradient (Color_of_RGB (RGB_new x y z)) (Color_of_RGB (RGB_new x y z)) n) = nat n \<and>
   (\<forall>c \<in> set (gradient (Color_of_RGB (RGB_new x y z)) (Color_of_RGB (RGB_new x y z)) n).
      r (rgb c) \<in> {r (RGB_new x y z) - 1, r (RGB_new x y z)} \<and> 0 \<le> r (rgb c) \<and>
      g (rgb c) \<in> {g (RGB_new x y z) - 1, g (RGB_new x y z)} \<and> 0 \<le> g (rgb c) \<and>
      b (rgb c) \<in> {b (RGB_new x y z) - 1, b (RGB_new x y z)} \<and> 0 \<le> b (rgb c)) \<and>
   (n \<le> 1 \<longrightarrow>
      gradient (Color_of_RGB (RGB_new x y z)) (Color_of_RGB (RGB_new x y z)) n
        = replicate (nat n) (Color_of_RGB (RGB_new x y z)))"
proof -
  define a where "a = Color_of_RGB (RGB_new x y z)"
  note rng = RGB_new_range [of x y z]
  have elem: "r (rgb c) \<in> {r (RGB_new x y z) - 1, r (RGB_new x y z)} \<and> 0 \<le> r (rgb c) \<and>
      g (rgb c) \<in> {g (RGB_new x y z) - 1, g (RGB_new x y z)} \<and> 0 \<le> g (rgb c) \<and>
      b (rgb c) \<in> {b (RGB_new x y z) - 1, b (RGB_new x y z)} \<and> 0 \<le> b (rgb c)"
    if "c \<in> set (gradient a a n)" for c
  proof -
    from that obtain i where i: "0 \<le> i" "i < n"
      and c: "c = blend a a (if 1 < n then PyFloat (int_truediv i (n - 1)) else PyInt 0)"
      by (rule gradient_elem)
    show ?thesis
    proof (cases "1 < n")
      case True
      define t where "t = int_truediv i (n - 1)"
      have t: "0 \<le> t" "t \<le> 1"
        unfolding t_def using i True by (simp_all add: int_truediv_unit)
      have c': "c = blend a a (PyFloat t)" using c True by (simp add: t_def)
      show ?thesis
        unfolding c' a_def blend_same [OF t]
        using blend_same_bounds [OF rng(1,2) t] blend_same_bounds [OF rng(3,4) t]
          blend_same_bounds [OF rng(5,6) t]
        by auto
    next
      case False
      then have "c = a" using c by (simp add: a_def blend_int_0)
      then show ?thesis using rng by (simp add: a_def Color_of_RGB_def)
    qed
  qed
  have "n \<le> 1 \<longrightarrow> gradient a a n = replicate (nat n) a"
    by (simp add: a_def gradient_le_1)
  then show ?thesis
    using elem length_gradient [of a a n] unfolding a_def by blast
qed

theorem C5_gradient_same_witness:
  "gradient (Color_of_RGB (RGB_new 29 29 29)) (Color_of_RGB (RGB_new 29 29 29)) 8 ! 3
     \<in> set (gradient (Color_of_RGB (RGB_new 29 29 29)) (Color_of_RGB (RGB_new 29 29 29)) 8) \<and>
   r (rgb (gradient (Color_of_RGB (RGB_new 29 29 29)) (Color_of_RGB (RGB_new 29 29 29)) 8 ! 3))
     \<in> {28, 29} \<and>
   (0::int) \<le> 1 \<and>
   gradient (Color_of_RGB (RGB_new 29 29 29)) (Color_of_RGB (RGB_new 29 29 29)) 0 = []"
proof -
  have len: "length (gradient (Color_of_RGB (RGB_new 29 29 29)) (Color_of_RGB (RGB_new 29 29 29)) 8) = 8"
    by (simp add: length_gradient)
  then have mem: "gradient (Color_of_RGB (RGB_new 29 29 29)) (Color_of_RGB (RGB_new 29 29 29)) 8 ! 3
     \<in> set (gradient (Color_of_RGB (RGB_new 29 29 29)) (Color_of_RGB (RGB_new 29 29 29)) 8)"
    by (intro nth_mem) simp
  have "r (RGB_new 29 29 29) = 29" by (simp add: RGB_new_def)
  with mem C5_gradient_same_amended [of 29 29 29 8]
  have "r (rgb (gradient (Color_of_RGB (RGB_new 29 29 29)) (Color_of_RGB (RGB_new 29 29 29)) 8 ! 3))
     \<in> {28, 29}"
    by auto
  moreover have "gradient (Color_of_RGB (RGB_new 29 29 29)) (Color_of_RGB (RGB_new 29 29 29)) 0 = []"
    using C5_gradient_same_amended [of 29 29 29 0] by simp
  ultimately show ?thesis using mem by simp
qed

lemma gradient_values:
  "length (gradient (Color_of_RGB (RGB_new x1 y1 z1)) (Color_of_RGB (RGB_new x2 y2 z2)) n) = nat n \<and>
   (1 < n \<longrightarrow>
      (\<forall>i. 0 \<le> i \<and> i < n \<longrightarrow>
         gradient (Color_of_RGB (RGB_new x1 y1 z1)) (Color_of_RGB (RGB_new x2 y2 z2)) n ! nat i
           = blend (Color_of_RGB (RGB_new x1 y1 z1)) (Color_of_RGB (RGB_new x2 y2 z2))
               (PyFloat (int_truediv i (n - 1)))) \<and>
      hd (gradient (Color_of_RGB (RGB_new x1 y1 z1)) (Color_of_RGB (RGB_new x2 y2 z2)) n)
        = Color_of_RGB (RGB_new x1 y1 z1) \<and>
      last (gradient (Color_of_RGB (RGB_new x1 y1 z1)) (Color_of_RGB (RGB_new x2 y2 z2)) n)
        = Color_of_RGB (RGB_new x2 y2 z2)) \<and>
   (n \<le> 1 \<longrightarrow>
      gradient (Color_of_RGB (RGB_new x1 y1 z1)) (Color_of_RGB (RGB_new x2 y2 z2)) n
        = replicate (nat n) (Color_of_RGB (RGB_new x1 y1 z1)))"
proof -
  define a where "a = Color_of_RGB (RGB_new x1 y1 z1)"
  define e where "e = Color_of_RGB (RGB_new x2 y2 z2)"
  have len: "length (gradient a e n) = nat n" by (rule length_gradient)
  have many: "(\<forall>i. 0 \<le> i \<and> i < n \<longrightarrow>
         gradient a e n ! nat i = blend a e (PyFloat (int_truediv i (n - 1)))) \<and>
      hd (gradient a e n) = a \<and> last (gradient a e n) = e" if n: "1 < n"
  proof -
    have nth: "gradient a e n ! nat i = blend a e (PyFloat (int_truediv i (n - 1)))"
      if "0 \<le> i" "i < n" for i
      using nth_gradient [OF that, of a e] n by simp
    have ne: "gradient a e n \<noteq> []" using len n by auto
    have "hd (gradient a e n) = gradient a e n ! nat 0" using ne by (simp add: hd_conv_nth)
    also have "\<dots> = blend a e (PyFloat (int_truediv 0 (n - 1)))" using n by (intro nth) simp_all
    also have "int_truediv 0 (n - 1) = 0" by (simp add: int_truediv_def)
    finally have first: "hd (gradient a e n) = a" by (simp add: a_def blend_start)
    have "nat n - Suc 0 = nat (n - 1)" using n by simp
    then have "last (gradient a e n) = gradient a e n ! nat (n - 1)"
      using ne len by (simp add: last_conv_nth)
    also have "\<dots> = blend a e (PyFloat (int_truediv (n - 1) (n - 1)))"
      using n by (intro nth) simp_all
    also have "int_truediv (n - 1) (n - 1) = 1" using n by (simp add: int_truediv_def)
    finally have "last (gradient a e n) = e" by (simp add: e_def blend_end)
    with first nth show ?thesis by blast
  qed
  have few: "gradient a e n = replicate (nat n) a" if "n \<le> 1"
    using that by (simp add: a_def gradient_le_1)
  show ?thesis
    using len many few unfolding a_def e_def by blast
qed

lemma blend_channel_lerp:
  assumes x: "0 \<le> x" "x \<le> 255" and y: "0 \<le> y" "y \<le> 255" and i: "0 \<le> i" "i \<le> j" "0 < j"
  defines "L \<equiv> (of_int x :: rat) + (of_int y - of_int x) * of_int i / of_int j"
  shows "L - 1 - 1 / 2 ^ 42 < of_int (blend_channel x y (PyFloat (int_truediv i j)))"
    and "of_int (blend_channel x y (PyFloat (int_truediv i j))) \<le> L + 1 / 2 ^ 42"
    and "0 \<le> blend_channel x y (PyFloat (int_truediv i j))"
    and "blend_channel x y (PyFloat (int_truediv i j)) \<le> 255"
proof -
  define X :: rat where "X = of_int x"
  define Y :: rat where "Y = of_int y"
  define T :: rat where "T = of_int i / of_int j"
  define t where "t = int_truediv i j"
  define u where "u = fsub 1 t"
  define p where "p = fmul X u"
  define q where "q = fmul Y t"
  define w where "w = fadd p q"
  have X: "0 \<le> X" "X \<le> 255" using x by (simp_all add: X_def)
  have Y: "0 \<le> Y" "Y \<le> 255" using y by (simp_all add: Y_def)
  have T: "0 \<le> T" "T \<le> 1" using i by (simp_all add: T_def)
  have "of_int j \<noteq> (0 :: rat)" using i by simp
  then have L: "L = X * (1 - T) + Y * T"
    by (simp add: L_def X_def Y_def T_def field_simps)
  have t: "0 \<le> t" "t \<le> 1" unfolding t_def using i by (simp_all add: int_truediv_unit)
  have te: "\<bar>t - T\<bar> \<le> pow2 (- 53)"
    unfolding t_def int_truediv_def T_def [symmetric] using T rnd_abs_err [of T 0] by simp
  have fx: "float_of_int x = X"
    unfolding float_of_int_def X_def using x by (intro rnd_of_int) simp
  have fy: "float_of_int y = Y"
    unfolding float_of_int_def Y_def using y by (intro rnd_of_int) simp
  have u0: "0 \<le> u" unfolding u_def fsub_def using t by (intro rnd_nonneg) simp
  have u1: "u \<le> 1" unfolding u_def fsub_def using t rnd_le_int [of "1 - t" 1] by simp
  have ue: "\<bar>u - (1 - t)\<bar> \<le> pow2 (- 53)"
    unfolding u_def fsub_def using t rnd_abs_err [of "1 - t" 0] by simp
  have Xu: "0 \<le> X * u" "X * u \<le> 255"
    using X u0 u1 mult_mono [of X 255 u 1] by simp_all
  have Yt: "0 \<le> Y * t" "Y * t \<le> 255"
    using Y t mult_mono [of Y 255 t 1] by simp_all
  have p0: "0 \<le> p" unfolding p_def fmul_def using Xu by (intro rnd_nonneg)
  have p1: "p \<le> 255" unfolding p_def fmul_def using Xu rnd_le_int [of "X * u" 255] by simp
  have pe: "\<bar>p - X * u\<bar> \<le> pow2 (- 45)"
    unfolding p_def fmul_def using Xu rnd_abs_err [of "X * u" 8] by (simp add: pow2_def)
  have q0: "0 \<le> q" unfolding q_def fmul_def using Yt by (intro rnd_nonneg)
  have q1: "q \<le> 255" unfolding q_def fmul_def using Yt rnd_le_int [of "Y * t" 255] by simp
  have qe: "\<bar>q - Y * t\<bar> \<le> pow2 (- 45)"
    unfolding q_def fmul_def using Yt rnd_abs_err [of "Y * t" 8] by (simp add: pow2_def)
  have w0: "0 \<le> w" unfolding w_def fadd_def using p0 q0 by (intro rnd_nonneg) simp
  have we: "\<bar>w - (p + q)\<bar> \<le> pow2 (- 44)"
    unfolding w_def fadd_def using p0 q0 p1 q1 rnd_abs_err [of "p + q" 9] by (simp add: pow2_def)
  have "X * \<bar>u - (1 - t)\<bar> \<le> 255 * pow2 (- 53)"
    using X ue by (intro mult_mono) simp_all
  then have xe: "\<bar>X * u - X * (1 - t)\<bar> \<le> 255 * pow2 (- 53)"
    using X by (simp add: right_diff_distrib [symmetric] abs_mult del: right_diff_distrib)
  have "X * \<bar>t - T\<bar> \<le> 255 * pow2 (- 53)"
    using X te by (intro mult_mono) simp_all
  then have xt: "\<bar>X * (1 - t) - X * (1 - T)\<bar> \<le> 255 * pow2 (- 53)"
    using X by (simp add: right_diff_distrib [symmetric] abs_mult abs_minus_commute
        del: right_diff_distrib)
  have "Y * \<bar>t - T\<bar> \<le> 255 * pow2 (- 53)"
    using Y te by (intro mult_mono) simp_all
  then have yt: "\<bar>Y * t - Y * T\<bar> \<le> 255 * pow2 (- 53)"
    using Y by (simp add: right_diff_distrib [symmetric] abs_mult del: right_diff_distrib)
  have "w - L = (w - (p + q)) + (p - X * u) + (q - Y * t) + (X * u - X * (1 - t))
      + (X * (1 - t) - X * (1 - T)) + (Y * t - Y * T)"
    by (simp add: L algebra_simps)
  then have "\<bar>w - L\<bar> \<le> pow2 (- 44) + pow2 (- 45) + pow2 (- 45) + 255 * pow2 (- 53)
      + 255 * pow2 (- 53) + 255 * pow2 (- 53)"
    using we pe qe xe xt yt by linarith
  also have "\<dots> \<le> 1 / 2 ^ 42" by (simp add: pow2_def)
  finally have ab: "\<bar>w - L\<bar> \<le> 1 / 2 ^ 42" .
  have near: "L - 1 / 2 ^ 42 \<le> w" "w \<le> L + 1 / 2 ^ 42" using ab by linarith+
  have bc: "blend_channel x y (PyFloat (int_truediv i j)) = \<lfloor>w\<rfloor>"
    using w0 by (simp add: py_int_def fx fy w_def p_def q_def u_def t_def)
  have fl: "of_int \<lfloor>w\<rfloor> \<le> w" "w < of_int \<lfloor>w\<rfloor> + 1" by linarith+
  show "L - 1 - 1 / 2 ^ 42 < of_int (blend_channel x y (PyFloat (int_truediv i j)))"
    unfolding bc using near(1) fl(2) by linarith
  show "of_int (blend_channel x y (PyFloat (int_truediv i j))) \<le> L + 1 / 2 ^ 42"
    unfolding bc using near(2) fl(1) by linarith
  show "0 \<le> blend_channel x y (PyFloat (int_truediv i j))"
    unfolding bc using w0 by simp
  have "0 \<le> X * (1 - T)" "0 \<le> Y * T" using X Y T by simp_all
  have "X * (1 - T) + Y * T \<le> 255 * (1 - T) + 255 * T"
    using X Y T by (intro add_mono mult_right_mono) simp_all
  then have "L \<le> 255" by (simp add: L)
  then have "w < of_int 256" using near(2) by simp
  then have "\<lfloor>w\<rfloor> < 256" by (simp only: floor_less_iff)
  then show "blend_channel x y (PyFloat (int_truediv i j)) \<le> 255"
    unfolding bc by simp
qed

lemma gradient_loop_eq:
  assumes "p < length hp" "q < length hp"
  shows "gradient_loop p q n ks colors hp =
     (colors @ [length hp ..< length hp + length ks],
      hp @ map (\<lambda>i. blend (hp ! p) (hp ! q)
                         (if 1 < n then PyFloat (int_truediv i (n - 1)) else PyInt 0)) ks)"
  using assms
proof (induction ks arbitrary: colors hp)
  case Nil
  then show ?case by simp
next
  case (Cons k ks)
  define c where "c = blend (hp ! p) (hp ! q)
      (if 1 < n then PyFloat (int_truediv k (n - 1)) else PyInt 0)"
  have lt: "p < length (hp @ [c])" "q < length (hp @ [c])" using Cons.prems by simp_all
  have same: "(hp @ [c]) ! p = hp ! p" "(hp @ [c]) ! q = hp ! q"
    using Cons.prems by (simp_all add: nth_append)
  have step: "gradient_loop p q n (k # ks) colors hp
      = gradient_loop p q n ks (colors @ [length hp]) (hp @ [c])"
    by (simp add: blend_obj_def alloc_def c_def Let_def)
  have ih: "gradient_loop p q n ks (colors @ [length hp]) (hp @ [c])
      = ((colors @ [length hp]) @ [length (hp @ [c]) ..< length (hp @ [c]) + length ks],
         (hp @ [c]) @ map (\<lambda>i. blend ((hp @ [c]) ! p) ((hp @ [c]) ! q)
                         (if 1 < n then PyFloat (int_truediv i (n - 1)) else PyInt 0)) ks)"
    using lt by (rule Cons.IH)
  have idx: "(colors @ [length hp]) @ [length (hp @ [c]) ..< length (hp @ [c]) + length ks]
      = colors @ [length hp ..< length hp + length (k # ks)]"
  proof -
    have "length hp < length hp + Suc (length ks)" by simp
    then have "[length hp ..< length hp + Suc (length ks)]
        = length hp # [Suc (length hp) ..< length hp + Suc (length ks)]"
      by (rule upt_conv_Cons)
    then show ?thesis by simp
  qed
  have vals: "(hp @ [c]) @ map (\<lambda>i. blend ((hp @ [c]) ! p) ((hp @ [c]) ! q)
                         (if 1 < n then PyFloat (int_truediv i (n - 1)) else PyInt 0)) ks
      = hp @ map (\<lambda>i. blend (hp ! p) (hp ! q)
                         (if 1 < n then PyFloat (int_truediv i (n - 1)) else PyInt 0)) (k # ks)"
    unfolding same by (simp add: c_def)
  show ?case by (simp only: step ih idx vals)
qed

lemma gradient_obj_eq:
  assumes "p < length hp" "q < length hp"
  shows "gradient_obj p q n hp =
     ([length hp ..< length hp + nat n], hp @ gradient (hp ! p) (hp ! q) n)"
  unfolding gradient_obj_def gradient_loop_eq [OF assms] by (simp add: gradient_def)

text \<open>
  C7, as stated, fails in its last part: the colour that \<^verbatim>\<open>gradient(a, b, 1)\<close> returns
  is a new object, and \<^verbatim>\<open>Color\<close> defines no \<^verbatim>\<open>__eq__\<close>, so
  \<^verbatim>\<open>gradient(a, b, 1) == [a]\<close> is false although that colour has the RGB value of \<open>a\<close>.
  Here \<open>a\<close> (red) and \<open>b\<close> (blue) are the objects 0 and 1 of the heap.
\<close>

theorem C7_gradient_counterexample:
  "gradient_obj 0 1 1 [Color_of_RGB (RGB_new 255 0 0), Color_of_RGB (RGB_new 0 0 255)]
     = ([2], [Color_of_RGB (RGB_new 255 0 0), Color_of_RGB (RGB_new 0 0 255),
              Color_of_RGB (RGB_new 255 0 0)]) \<and>
   \<not> list_eq [2] [0]"
proof -
  have "gradient_obj 0 1 1 [Color_of_RGB (RGB_new 255 0 0), Color_of_RGB (RGB_new 0 0 255)]
     = ([length [Color_of_RGB (RGB_new 255 0 0), Color_of_RGB (RGB_new 0 0 255)] ..<
           length [Color_of_RGB (RGB_new 255 0 0), Color_of_RGB (RGB_new 0 0 255)] + nat 1],
        [Color_of_RGB (RGB_new 255 0 0), Color_of_RGB (RGB_new 0 0 255)]
          @ gradient ([Color_of_RGB (RGB_new 255 0 0), Color_of_RGB (RGB_new 0 0 255)] ! 0)
              ([Color_of_RGB (RGB_new 255 0 0), Color_of_RGB (RGB_new 0 0 255)] ! 1) 1)"
    by (rule gradient_obj_eq) simp_all
  moreover have "gradient (Color_of_RGB (RGB_new 255 0 0)) (Color_of_RGB (RGB_new 0 0 255)) 1
      = [Color_of_RGB (RGB_new 255 0 0)]"
    using gradient_le_1 [of 1 255 0 0 "Color_of_RGB (RGB_new 0 0 255)"] by simp
  ultimately show ?thesis
    by (simp add: list_eq_def Color_eq_def upt_conv_Cons)
qed

text \<open>
  C7, amended. Let \<open>start\<close> and \<open>end\<close> be colour objects (their RGB values came out of
  the constructor). \<^verbatim>\<open>gradient(start, end, steps)\<close> never raises; it leaves the existing
  objects as they are and returns \<open>steps\<close> new colour objects (none for \<open>steps \<le> 0\<close>),
  none of them identical to \<open>start\<close>, so that the result never is \<^verbatim>\<open>== [start]\<close>. When
  \<open>steps > 1\<close>, sample \<open>i\<close> is the blend at the float ratio \<open>i / (steps - 1)\<close>: every
  channel of it is, up to \<open>2 ^ - 42\<close>, at most the exact linear interpolation
  \<open>start + (end - start) * i / (steps - 1)\<close> of that channel and less than one below it;
  the first sample has the RGB value of \<open>start\<close> and the last that of \<open>end\<close>. When
  \<open>steps \<le> 1\<close>, every sample has the RGB value of \<open>start\<close>.
\<close>

theorem C7_gradient_amended:
  assumes "p < length hp" "q < length hp"
    and "hp ! p = Color_of_RGB (RGB_new x1 y1 z1)" "hp ! q = Color_of_RGB (RGB_new x2 y2 z2)"
    and "gradient_obj p q n hp = (cs, hp')"
  shows "length cs = nat n \<and> take (length hp) hp' = hp \<and>
     (\<forall>i < nat n. cs ! i = length hp + i \<and> \<not> Color_eq (cs ! i) p) \<and>
     \<not> list_eq cs [p] \<and>
     (1 < n \<longrightarrow>
        (\<forall>i < nat n. \<forall>ch \<in> {r, g, b}.
           hp' ! (cs ! i) = blend (hp ! p) (hp ! q) (PyFloat (int_truediv (int i) (n - 1))) \<and>
           of_int (ch (rgb (hp ! p)))
             + (of_int (ch (rgb (hp ! q))) - of_int (ch (rgb (hp ! p)))) * of_int (int i) / of_int (n - 1)
             - 1 - 1 / 2 ^ 42
             < (of_int (ch (rgb (hp' ! (cs ! i)))) :: rat) \<and>
           (of_int (ch (rgb (hp' ! (cs ! i)))) :: rat)
             \<le> of_int (ch (rgb (hp ! p)))
               + (of_int (ch (rgb (hp ! q))) - of_int (ch (rgb (hp ! p)))) * of_int (int i) / of_int (n - 1)
               + 1 / 2 ^ 42) \<and>
        hp' ! hd cs = hp ! p \<and> hp' ! last cs = hp ! q) \<and>
     (n \<le> 1 \<longrightarrow> (\<forall>c \<in> set cs. hp' ! c = hp ! p))"
proof -
  define a where "a = Color_of_RGB (RGB_new x1 y1 z1)"
  define e where "e = Color_of_RGB (RGB_new x2 y2 z2)"
  define vs where "vs = gradient a e n"
  have hpa: "hp ! p = a" and hpe: "hp ! q = e" using assms(3,4) by (simp_all add: a_def e_def)
  have eq: "cs = [length hp ..< length hp + nat n]" "hp' = hp @ vs"
    using assms(5) gradient_obj_eq [OF assms(1,2), of n] by (simp_all add: hpa hpe vs_def)
  have lenv: "length vs = nat n" by (simp add: vs_def length_gradient)
  have len: "length cs = nat n" by (simp add: eq)
  have old: "take (length hp) hp' = hp" by (simp add: eq)
  have nth: "cs ! i = length hp + i" if "i < nat n" for i using that by (simp add: eq)
  have val: "hp' ! (cs ! i) = vs ! i" if "i < nat n" for i
    using that by (simp add: nth eq(2) nth_append)
  have fresh: "\<forall>i < nat n. cs ! i = length hp + i \<and> \<not> Color_eq (cs ! i) p"
    using nth assms(1) by (simp add: Color_eq_def)
  have neq: "\<not> list_eq cs [p]"
  proof
    assume "list_eq cs [p]"
    then have "length cs = 1" "Color_eq (cs ! 0) p"
      by (auto simp: list_eq_def list_all2_conv_all_nth)
    then show False using fresh len by auto
  qed
  note gv = gradient_values [of x1 y1 z1 x2 y2 z2 n, folded a_def e_def, folded vs_def]
  note ra = RGB_new_range [of x1 y1 z1] and re = RGB_new_range [of x2 y2 z2]
  have many: "(\<forall>i < nat n. \<forall>ch \<in> {r, g, b}.
           hp' ! (cs ! i) = blend (hp ! p) (hp ! q) (PyFloat (int_truediv (int i) (n - 1))) \<and>
           of_int (ch (rgb (hp ! p)))
             + (of_int (ch (rgb (hp ! q))) - of_int (ch (rgb (hp ! p)))) * of_int (int i) / of_int (n - 1)
             - 1 - 1 / 2 ^ 42
             < (of_int (ch (rgb (hp' ! (cs ! i)))) :: rat) \<and>
           (of_int (ch (rgb (hp' ! (cs ! i)))) :: rat)
             \<le> of_int (ch (rgb (hp ! p)))
               + (of_int (ch (rgb (hp ! q))) - of_int (ch (rgb (hp ! p)))) * of_int (int i) / of_int (n - 1)
               + 1 / 2 ^ 42) \<and>
        hp' ! hd cs = hp ! p \<and> hp' ! last cs = hp ! q" if n: "1 < n"
  proof -
    have ne: "cs \<noteq> []" "vs \<noteq> []" using len lenv n by auto
    have hd: "hp' ! hd cs = hp ! p"
    proof -
      have "hd cs = cs ! 0" using ne by (simp add: hd_conv_nth)
      then have "hp' ! hd cs = vs ! 0" using val [of 0] n by simp
      also have "\<dots> = hd vs" using ne by (simp add: hd_conv_nth)
      finally show ?thesis using gv n by (simp add: hpa)
    qed
    have last: "hp' ! last cs = hp ! q"
    proof -
      have "last cs = cs ! (nat n - 1)" using ne len by (simp add: last_conv_nth)
      then have "hp' ! last cs = vs ! (nat n - 1)" using val [of "nat n - 1"] n by simp
      also have "\<dots> = last vs" using ne lenv by (simp add: last_conv_nth)
      finally show ?thesis using gv n by (simp add: hpe)
    qed
    have samp: "hp' ! (cs ! i) = blend (hp ! p) (hp ! q) (PyFloat (int_truediv (int i) (n - 1))) \<and>
           of_int (ch (rgb (hp ! p)))
             + (of_int (ch (rgb (hp ! q))) - of_int (ch (rgb (hp ! p)))) * of_int (int i) / of_int (n - 1)
             - 1 - 1 / 2 ^ 42
             < (of_int (ch (rgb (hp' ! (cs ! i)))) :: rat) \<and>
           (of_int (ch (rgb (hp' ! (cs ! i)))) :: rat)
             \<le> of_int (ch (rgb (hp ! p)))
               + (of_int (ch (rgb (hp ! q))) - of_int (ch (rgb (hp ! p)))) * of_int (int i) / of_int (n - 1)
               + 1 / 2 ^ 42"
      if i: "i < nat n" and ch: "ch \<in> {r, g, b}" for i ch
    proof -
      have ii: "0 \<le> int i" "int i \<le> n - 1" "0 < n - 1" using i n by simp_all
      from gv n have "\<forall>k. 0 \<le> k \<and> k < n \<longrightarrow>
          vs ! nat k = blend a e (PyFloat (int_truediv k (n - 1)))"
        by (simp add: vs_def)
      from this [THEN spec, of "int i"] ii
      have "vs ! nat (int i) = blend a e (PyFloat (int_truediv (int i) (n - 1)))"
        by simp
      then have v: "hp' ! (cs ! i) = blend a e (PyFloat (int_truediv (int i) (n - 1)))"
        using val [OF i] by simp
      note br = blend_channel_lerp [OF ra(1,2) re(1,2) ii]
      note bg = blend_channel_lerp [OF ra(3,4) re(3,4) ii]
      note bb = blend_channel_lerp [OF ra(5,6) re(5,6) ii]
      have id: "rgb (blend a e (PyFloat (int_truediv (int i) (n - 1))))
          = \<lparr>r = blend_channel (r (RGB_new x1 y1 z1)) (r (RGB_new x2 y2 z2)) (PyFloat (int_truediv (int i) (n - 1))),
             g = blend_channel (g (RGB_new x1 y1 z1)) (g (RGB_new x2 y2 z2)) (PyFloat (int_truediv (int i) (n - 1))),
             b = blend_channel (b (RGB_new x1 y1 z1)) (b (RGB_new x2 y2 z2)) (PyFloat (int_truediv (int i) (n - 1)))\<rparr>"
        unfolding blend_def a_def e_def Color_of_RGB_def Color.simps
        using br(3,4) bg(3,4) bb(3,4) by (intro RGB_new_id)
      from ch consider "ch = r" | "ch = g" | "ch = b" by auto
      then show ?thesis
      proof cases
        case 1
        then show ?thesis unfolding v using br(1,2)
          by (simp add: id hpa hpe) (simp add: a_def e_def Color_of_RGB_def)
      next
        case 2
        then show ?thesis unfolding v using bg(1,2)
          by (simp add: id hpa hpe) (simp add: a_def e_def Color_of_RGB_def)
      next
        case 3
        then show ?thesis unfolding v using bb(1,2)
          by (simp add: id hpa hpe) (simp add: a_def e_def Color_of_RGB_def)
      qed
    qed
    from samp hd last show ?thesis by blast
  qed
  have few: "\<forall>c \<in> set cs. hp' ! c = hp ! p" if n: "n \<le> 1"
  proof
    fix c assume "c \<in> set cs"
    then obtain i where i: "i < nat n" "c = cs ! i" using len by (metis in_set_conv_nth)
    have "vs = replicate (nat n) a" using gv n by simp
    then have "vs ! i = a" using i(1) by simp
    then show "hp' ! c = hp ! p" using val [OF i(1)] i(2) by (simp add: hpa)
  qed
  from len old fresh neq many few show ?thesis by blast
qed

theorem C7_gradient_witness:
  "(0::nat) < length [Color_of_RGB (RGB_new 255 0 0), Color_of_RGB (RGB_new 0 0 255)] \<and>
   (1::int) < 5 \<and> (2::nat) < nat 5 \<and> r \<in> {r, g, b} \<and>
   fst (gradient_obj 0 1 5 [Color_of_RGB (RGB_new 255 0 0), Color_of_RGB (RGB_new 0 0 255)])
     = [2, 3, 4, 5, 6] \<and>
   (255 + (0 - 255) * 2 / 4 - 1 - 1 / 2 ^ 42 :: rat)
     < of_int (r (rgb (snd (gradient_obj 0 1 5
          [Color_of_RGB (RGB_new 255 0 0), Color_of_RGB (RGB_new 0 0 255)]) ! 4))) \<and>
   (of_int (r (rgb (snd (gradient_obj 0 1 5
          [Color_of_RGB (RGB_new 255 0 0), Color_of_RGB (RGB_new 0 0 255)]) ! 4))) :: rat)
     \<le> 255 + (0 - 255) * 2 / 4 + 1 / 2 ^ 42 \<and>
   snd (gradient_obj 0 1 5 [Color_of_RGB (RGB_new 255 0 0), Color_of_RGB (RGB_new 0 0 255)]) ! 6
     = Color_of_RGB (RGB_new 0 0 255) \<and>
   (1::int) \<le> 1 \<and>
   snd (gradient_obj 0 1 1 [Color_of_RGB (RGB_new 255 0 0), Color_of_RGB (RGB_new 0 0 255)]) ! 2
     = Color_of_RGB (RGB_new 255 0 0)"
proof -
  define hp where "hp = [Color_of_RGB (RGB_new 255 0 0), Color_of_RGB (RGB_new 0 0 255)]"
  have h: "0 < length hp" "1 < length hp" "hp ! 0 = Color_of_RGB (RGB_new 255 0 0)"
    "hp ! 1 = Color_of_RGB (RGB_new 0 0 255)" "length hp = 2"
    by (simp_all add: hp_def)
  have ch: "r (rgb (hp ! 0)) = 255" "r (rgb (hp ! 1)) = 0"
    by (simp_all add: hp_def Color_of_RGB_def RGB_new_def)
  have g5: "gradient_obj 0 1 5 hp = (fst (gradient_obj 0 1 5 hp), snd (gradient_obj 0 1 5 hp))"
    by simp
  have g1: "gradient_obj 0 1 1 hp = (fst (gradient_obj 0 1 1 hp), snd (gradient_obj 0 1 1 hp))"
    by simp
  note t5 = C7_gradient_amended [OF h(1,2,3,4) g5]
  note t1 = C7_gradient_amended [OF h(1,2,3,4) g1]
  have cs5: "fst (gradient_obj 0 1 5 hp) = [2, 3, 4, 5, 6]"
    unfolding gradient_obj_eq [OF h(1,2)] h(5) by (simp add: upt_conv_Cons)
  have cs1: "fst (gradient_obj 0 1 1 hp) = [2]"
    unfolding gradient_obj_eq [OF h(1,2)] h(5) by (simp add: upt_conv_Cons)
  have n5: "(1::int) < 5" and i2: "(2::nat) < nat 5" and rr: "r \<in> {r, g, b}" and n1: "(1::int) \<le> 1"
    by simp_all
  note m5 = t5 [THEN conjunct2, THEN conjunct2, THEN conjunct2, THEN conjunct2, THEN conjunct1,
      THEN mp, OF n5]
  note s5 = m5 [THEN conjunct1, THEN spec, THEN mp, OF i2, THEN bspec, OF rr]
  have mid: "(255 + (0 - 255) * 2 / 4 - 1 - 1 / 2 ^ 42 :: rat)
       < of_int (r (rgb (snd (gradient_obj 0 1 5 hp) ! 4)))"
    "(of_int (r (rgb (snd (gradient_obj 0 1 5 hp) ! 4))) :: rat) \<le> 255 + (0 - 255) * 2 / 4 + 1 / 2 ^ 42"
    using s5 [THEN conjunct2, THEN conjunct1] s5 [THEN conjunct2, THEN conjunct2]
    unfolding cs5 ch by simp_all
  have "snd (gradient_obj 0 1 5 hp) ! last (fst (gradient_obj 0 1 5 hp)) = hp ! 1"
    by (rule m5 [THEN conjunct2, THEN conjunct2])
  then have last: "snd (gradient_obj 0 1 5 hp) ! 6 = Color_of_RGB (RGB_new 0 0 255)"
    unfolding cs5 h(4) by simp
  have "\<forall>c \<in> set (fst (gradient_obj 0 1 1 hp)). snd (gradient_obj 0 1 1 hp) ! c = hp ! 0"
    by (rule t1 [THEN conjunct2, THEN conjunct2, THEN conjunct2, THEN conjunct2, THEN conjunct2,
        THEN mp, OF n1])
  then have one: "snd (gradient_obj 0 1 1 hp) ! 2 = Color_of_RGB (RGB_new 255 0 0)"
    unfolding cs1 h(3) by simp
  from cs5 mid last one h(5) show ?thesis unfolding hp_def [symmetric] by simp
qed

subsection \<open>Palettes\<close>

lemma to_hsl_range:
  "0 \<le> h (to_hsl c)" "h (to_hsl c) < 360"
  "0 \<le> s (to_hsl c)" "s (to_hsl c) \<le> 100"
  "0 \<le> l (to_hsl c)" "l (to_hsl c) \<le> 100"
  by (simp_all add: to_hsl_def HSL_new_def Let_def split: prod.splits)

lemma HSL_new_id:
  "0 \<le> x \<Longrightarrow> x < 360 \<Longrightarrow> 0 \<le> y \<Longrightarrow> y \<le> 100 \<Longrightarrow> 0 \<le> z \<Longrightarrow> z \<le> 100 \<Longrightarrow>
     HSL_new x y z = \<lparr>h = x, s = y, l = z\<rparr>"
  by (simp add: HSL_new_def)

lemma triadic_black:
  "triadic (Color_of_RGB (RGB_new 0 0 0))
     = [Color_of_RGB (RGB_new 0 0 0), Color_of_RGB (RGB_new 0 0 0), Color_of_RGB (RGB_new 0 0 0)]"
  by (simp add: triadic_def hsl_def Color_of_RGB_def Color_of_HSL_def RGB_new_black to_hsl_black
      HSL_new_def to_rgb_black)

text \<open>
  C4, as stated, fails: the three colours of \<^verbatim>\<open>triadic\<close> of black are all black, and the
  hue of each, read with \<^verbatim>\<open>hsl()\<close>, is 0; they are 0 degrees apart, not 120.
\<close>

theorem C4_triadic_counterexample:
  "h (hsl (triadic (Color_of_RGB (RGB_new 0 0 0)) ! 0)) = 0 \<and>
   h (hsl (triadic (Color_of_RGB (RGB_new 0 0 0)) ! 1)) = 0 \<and>
   h (hsl (triadic (Color_of_RGB (RGB_new 0 0 0)) ! 2)) = 0 \<and>
   (h (hsl (triadic (Color_of_RGB (RGB_new 0 0 0)) ! 1))
      - h (hsl (triadic (Color_of_RGB (RGB_new 0 0 0)) ! 0))) mod 360 \<noteq> 120"
  by (simp add: triadic_black) (simp add: hsl_def Color_of_RGB_def RGB_new_black to_hsl_black)

text \<open>
  C4, amended. \<^verbatim>\<open>triadic(base)\<close> returns exactly three colours: \<open>base\<close>, and the
  colours converted from the HSL values with hue \<open>(h + 120) mod 360\<close> and
  \<open>(h + 240) mod 360\<close> and the saturation and lightness of \<open>base.hsl()\<close>, where \<open>h\<close> is
  the hue of \<open>base.hsl()\<close>. These three HSL hues are pairwise 120 degrees apart modulo
  360; nothing is said of the hues read back from the colours returned.
  \<^verbatim>\<open>complementary(base)\<close> returns exactly two colours.
\<close>

theorem C4_triadic_amended:
  "length (complementary base) = 2 \<and>
   length (triadic base) = 3 \<and>
   triadic base =
     [base,
      Color_of_HSL \<lparr>h = (h (hsl base) + 120) mod 360, s = s (hsl base), l = l (hsl base)\<rparr>,
      Color_of_HSL \<lparr>h = (h (hsl base) + 240) mod 360, s = s (hsl base), l = l (hsl base)\<rparr>] \<and>
   ((h (hsl base) + 120) mod 360 - h (hsl base)) mod 360 = 120 \<and>
   ((h (hsl base) + 240) mod 360 - (h (hsl base) + 120) mod 360) mod 360 = 120 \<and>
   (h (hsl base) - (h (hsl base) + 240) mod 360) mod 360 = 120"
proof -
  define x where "x = hsl base"
  note rng = to_hsl_range [of "rgb base", folded hsl_def, folded x_def]
  have n1: "HSL_new ((h x + 120) mod 360) (s x) (l x) = \<lparr>h = (h x + 120) mod 360, s = s x, l = l x\<rparr>"
    using rng by (intro HSL_new_id) simp_all
  have n2: "HSL_new ((h x + 240) mod 360) (s x) (l x) = \<lparr>h = (h x + 240) mod 360, s = s x, l = l x\<rparr>"
    using rng by (intro HSL_new_id) simp_all
  have tri: "triadic base =
     [base, Color_of_HSL \<lparr>h = (h x + 120) mod 360, s = s x, l = l x\<rparr>,
      Color_of_HSL \<lparr>h = (h x + 240) mod 360, s = s x, l = l x\<rparr>]"
    by (simp add: triadic_def Let_def x_def [symmetric] n1 n2)
  have m1: "((h x + 120) mod 360 - h x) mod 360 = 120"
    by (simp add: mod_diff_left_eq)
  have m2: "((h x + 240) mod 360 - (h x + 120) mod 360) mod 360 = 120"
    by (simp add: mod_diff_eq)
  have m3: "(h x - (h x + 240) mod 360) mod 360 = 120"
    by (simp add: mod_diff_right_eq)
  show ?thesis
    unfolding x_def [symmetric] using tri m1 m2 m3 by (simp add: complementary_def)
qed

lemma to_rgb_210_50_10: "HSL_to_rgb \<lparr>h = 210, s = 50, l = 10\<rparr> = \<lparr>r = 12, g = 25, b = 38\<rparr>"
proof -
  have u0_1: "int_truediv 210 360 = (5254199565265579 / 9007199254740992)"
    unfolding int_truediv_def by (rule rnd_eval [where k = "- 1" and m = 5254199565265579]) (simp_all add: pow2_def)
  have u0_2: "int_truediv 10 100 = (3602879701896397 / 36028797018963968)"
    unfolding int_truediv_def by (rule rnd_eval [where k = "- 4" and m = 7205759403792794]) (simp_all add: pow2_def)
  have u0_3: "int_truediv 50 100 = (1 / 2)"
    unfolding int_truediv_def by (rule rnd_eval [where k = "- 1" and m = 4503599627370496]) (simp_all add: pow2_def)
  have u0_4: "(((1 / 2) :: rat) = 0) = False"
    by simp
  have u0_5: "(((3602879701896397 / 36028797018963968) :: rat) \<le> (1 / 2)) = True"
    by simp
  have u0_6: "fadd 1 (1 / 2) = (3 / 2)"
    unfolding fadd_def by (rule rnd_eval [where k = "0" and m = 6755399441055744]) (simp_all add: pow2_def)
  have u0_7: "fmul (3602879701896397 / 36028797018963968) (3 / 2) = (1351079888211149 / 9007199254740992)"
    unfolding fmul_def by (rule rnd_eval_tie [where k = "- 3" and m = 5404319552844595]) (simp_all add: pow2_def)
  have u0_8: "fmul 2 (3602879701896397 / 36028797018963968) = (3602879701896397 / 18014398509481984)"
    unfolding fmul_def by (rule rnd_eval [where k = "- 3" and m = 7205759403792794]) (simp_all add: pow2_def)
  have u0_9: "fsub (3602879701896397 / 18014398509481984) (1351079888211149 / 9007199254740992) = (900719925474099 / 18014398509481984)"
    unfolding fsub_def by (rule rnd_eval [where k = "- 5" and m = 7205759403792792]) (simp_all add: pow2_def)
  have u0_10: "fdiv 1 3 = (6004799503160661 / 18014398509481984)"
    unfolding fdiv_def by (rule rnd_eval [where k = "- 2" and m = 6004799503160661]) (simp_all add: pow2_def)
  have u0_11: "fadd (5254199565265579 / 9007199254740992) (6004799503160661 / 18014398509481984) = (4128299658422955 / 4503599627370496)"
    unfolding fadd_def by (rule rnd_eval_tie [where k = "- 1" and m = 8256599316845909]) (simp_all add: pow2_def)
  have u0_12: "py_int (4128299658422955 / 4503599627370496) = 0"
    by (simp add: py_int_def floor_eq_iff)
  have u0_13: "fmod1 (4128299658422955 / 4503599627370496) = (4128299658422955 / 4503599627370496)"
    by (simp add: fmod1_def Let_def u0_12)
  have u0_14: "fdiv 1 6 = (6004799503160661 / 36028797018963968)"
    unfolding fdiv_def by (rule rnd_eval [where k = "- 3" and m = 6004799503160661]) (simp_all add: pow2_def)
  have u0_15: "(((4128299658422955 / 4503599627370496) :: rat) < (6004799503160661 / 36028797018963968)) = False"
    by simp
  have u0_16: "(((4128299658422955 / 4503599627370496) :: rat) < (1 / 2)) = False"
    by simp
  have u0_17: "fdiv 2 3 = (6004799503160661 / 9007199254740992)"
    unfolding fdiv_def by (rule rnd_eval [where k = "- 1" and m = 6004799503160661]) (simp_all add: pow2_def)
  have u0_18: "(((4128299658422955 / 4503599627370496) :: rat) < (6004799503160661 / 9007199254740992)) = False"
    by simp
  have u0_19: "py_int (5254199565265579 / 9007199254740992) = 0"
    by (simp add: py_int_def floor_eq_iff)
  have u0_20: "fmod1 (5254199565265579 / 9007199254740992) = (5254199565265579 / 9007199254740992)"
    by (simp add: fmod1_def Let_def u0_19)
  have u0_21: "(((5254199565265579 / 9007199254740992) :: rat) < (6004799503160661 / 36028797018963968)) = False"
    by simp
  have u0_22: "(((5254199565265579 / 9007199254740992) :: rat) < (1 / 2)) = False"
    by simp
  have u0_23: "(((5254199565265579 / 9007199254740992) :: rat) < (6004799503160661 / 9007199254740992)) = True"
    by simp
  have u0_24: "fsub (1351079888211149 / 9007199254740992) (900719925474099 / 18014398509481984) = (1801439850948199 / 18014398509481984)"
    unfolding fsub_def by (rule rnd_eval [where k = "- 4" and m = 7205759403792796]) (simp_all add: pow2_def)
  have u0_25: "fsub (6004799503160661 / 9007199254740992) (5254199565265579 / 9007199254740992) = (375299968947541 / 4503599627370496)"
    unfolding fsub_def by (rule rnd_eval [where k = "- 4" and m = 6004799503160656]) (simp_all add: pow2_def)
  have u0_26: "fmul (1801439850948199 / 18014398509481984) (375299968947541 / 4503599627370496) = (2401919801264263 / 288230376151711744)"
    unfolding fmul_def by (rule rnd_eval [where k = "- 7" and m = 4803839602528526]) (simp_all add: pow2_def)
  have u0_27: "fmul (2401919801264263 / 288230376151711744) 6 = (7205759403792789 / 144115188075855872)"
    unfolding fmul_def by (rule rnd_eval [where k = "- 5" and m = 7205759403792789]) (simp_all add: pow2_def)
  have u0_28: "fadd (900719925474099 / 18014398509481984) (7205759403792789 / 144115188075855872) = (3602879701896395 / 36028797018963968)"
    unfolding fadd_def by (rule rnd_eval_tie [where k = "- 4" and m = 7205759403792790]) (simp_all add: pow2_def)
  have u0_29: "fsub (5254199565265579 / 9007199254740992) (6004799503160661 / 18014398509481984) = (4503599627370497 / 18014398509481984)"
    unfolding fsub_def by (rule rnd_eval [where k = "- 2" and m = 4503599627370497]) (simp_all add: pow2_def)
  have u0_30: "py_int (4503599627370497 / 18014398509481984) = 0"
    by (simp add: py_int_def floor_eq_iff)
  have u0_31: "fmod1 (4503599627370497 / 18014398509481984) = (4503599627370497 / 18014398509481984)"
    by (simp add: fmod1_def Let_def u0_30)
  have u0_32: "(((4503599627370497 / 18014398509481984) :: rat) < (6004799503160661 / 36028797018963968)) = False"
    by simp
  have u0_33: "(((4503599627370497 / 18014398509481984) :: rat) < (1 / 2)) = True"
    by simp
  have u0_34: "fmul (900719925474099 / 18014398509481984) 255 = (3588805953060863 / 281474976710656)"
    unfolding fmul_def by (rule rnd_eval [where k = "3" and m = 7177611906121726]) (simp_all add: pow2_def)
  have u0_35: "py_int (3588805953060863 / 281474976710656) = 12"
    by (simp add: py_int_def floor_eq_iff)
  have u0_36: "fmul (3602879701896395 / 36028797018963968) 255 = (1794402976530431 / 70368744177664)"
    unfolding fmul_def by (rule rnd_eval [where k = "4" and m = 7177611906121724]) (simp_all add: pow2_def)
  have u0_37: "py_int (1794402976530431 / 70368744177664) = 25"
    by (simp add: py_int_def floor_eq_iff)
  have u0_38: "fmul (1351079888211149 / 9007199254740992) 255 = (5383208929591297 / 140737488355328)"
    unfolding fmul_def by (rule rnd_eval [where k = "5" and m = 5383208929591297]) (simp_all add: pow2_def)
  have u0_39: "py_int (5383208929591297 / 140737488355328) = 38"
    by (simp add: py_int_def floor_eq_iff)
  have "HSL_to_rgb \<lparr>h = 210, s = 50, l = 10\<rparr> = RGB_new 12 25 38"
    by (simp only: HSL_to_rgb_def hls_to_rgb_def hls_v_def ONE_THIRD_def ONE_SIXTH_def
        TWO_THIRD_def Let_def HSL.simps if_True if_False prod.case
        u0_1 u0_2 u0_3 u0_4 u0_5 u0_6 u0_7 u0_8 u0_9 u0_10 u0_11 u0_12 u0_13 u0_14 u0_15 u0_16 u0_17 u0_18 u0_19 u0_20 u0_21 u0_22 u0_23 u0_24 u0_25 u0_26 u0_27 u0_28 u0_29 u0_30 u0_31 u0_32 u0_33 u0_34 u0_35 u0_36 u0_37 u0_38 u0_39)
  then show ?thesis by (simp add: RGB_new_def)
qed

lemma to_rgb_210_50_26: "HSL_to_rgb \<lparr>h = 210, s = 50, l = 26\<rparr> = \<lparr>r = 33, g = 66, b = 99\<rparr>"
proof -
  have u1_1: "int_truediv 210 360 = (5254199565265579 / 9007199254740992)"
    unfolding int_truediv_def by (rule rnd_eval [where k = "- 1" and m = 5254199565265579]) (simp_all add: pow2_def)
  have u1_2: "int_truediv 26 100 = (1170935903116329 / 4503599627370496)"
    unfolding int_truediv_def by (rule rnd_eval [where k = "- 2" and m = 4683743612465316]) (simp_all add: pow2_def)
  have u1_3: "int_truediv 50 100 = (1 / 2)"
    unfolding int_truediv_def by (rule rnd_eval [where k = "- 1" and m = 4503599627370496]) (simp_all add: pow2_def)
  have u1_4: "(((1 / 2) :: rat) = 0) = False"
    by simp
  have u1_5: "(((1170935903116329 / 4503599627370496) :: rat) \<le> (1 / 2)) = True"
    by simp
  have u1_6: "fadd 1 (1 / 2) = (3 / 2)"
    unfolding fadd_def by (rule rnd_eval [where k = "0" and m = 6755399441055744]) (simp_all add: pow2_def)
  have u1_7: "fmul (1170935903116329 / 4503599627370496) (3 / 2) = (3512807709348987 / 9007199254740992)"
    unfolding fmul_def by (rule rnd_eval [where k = "- 2" and m = 7025615418697974]) (simp_all add: pow2_def)
  have u1_8: "fmul 2 (1170935903116329 / 4503599627370496) = (1170935903116329 / 2251799813685248)"
    unfolding fmul_def by (rule rnd_eval [where k = "- 1" and m = 4683743612465316]) (simp_all add: pow2_def)
  have u1_9: "fsub (1170935903116329 / 2251799813685248) (3512807709348987 / 9007199254740992) = (1170935903116329 / 9007199254740992)"
    unfolding fsub_def by (rule rnd_eval [where k = "- 3" and m = 4683743612465316]) (simp_all add: pow2_def)
  have u1_10: "fdiv 1 3 = (6004799503160661 / 18014398509481984)"
    unfolding fdiv_def by (rule rnd_eval [where k = "- 2" and m = 6004799503160661]) (simp_all add: pow2_def)
  have u1_11: "fadd (5254199565265579 / 9007199254740992) (6004799503160661 / 18014398509481984) = (4128299658422955 / 4503599627370496)"
    unfolding fadd_def by (rule rnd_eval_tie [where k = "- 1" and m = 8256599316845909]) (simp_all add: pow2_def)
  have u1_12: "py_int (4128299658422955 / 4503599627370496) = 0"
    by (simp add: py_int_def floor_eq_iff)
  have u1_13: "fmod1 (4128299658422955 / 4503599627370496) = (4128299658422955 / 4503599627370496)"
    by (simp add: fmod1_def Let_def u1_12)
  have u1_14: "fdiv 1 6 = (6004799503160661 / 36028797018963968)"
    unfolding fdiv_def by (rule rnd_eval [where k = "- 3" and m = 6004799503160661]) (simp_all add: pow2_def)
  have u1_15: "(((4128299658422955 / 4503599627370496) :: rat) < (6004799503160661 / 36028797018963968)) = False"
    by simp
  have u1_16: "(((4128299658422955 / 4503599627370496) :: rat) < (1 / 2)) = False"
    by simp
  have u1_17: "fdiv 2 3 = (6004799503160661 / 9007199254740992)"
    unfolding fdiv_def by (rule rnd_eval [where k = "- 1" and m = 6004799503160661]) (simp_all add: pow2_def)
  have u1_18: "(((4128299658422955 / 4503599627370496) :: rat) < (6004799503160661 / 9007199254740992)) = False"
    by simp
  have u1_19: "py_int (5254199565265579 / 9007199254740992) = 0"
    by (simp add: py_int_def floor_eq_iff)
  have u1_20: "fmod1 (5254199565265579 / 9007199254740992) = (5254199565265579 / 9007199254740992)"
    by (simp add: fmod1_def Let_def u1_19)
  have u1_21: "(((5254199565265579 / 9007199254740992) :: rat) < (6004799503160661 / 36028797018963968)) = False"
    by simp
  have u1_22: "(((5254199565265579 / 9007199254740992) :: rat) < (1 / 2)) = False"
    by simp
  have u1_23: "(((5254199565265579 / 9007199254740992) :: rat) < (6004799503160661 / 9007199254740992)) = True"
    by simp
  have u1_24: "fsub (3512807709348987 / 9007199254740992) (1170935903116329 / 9007199254740992) = (1170935903116329 / 4503599627370496)"
    unfolding fsub_def by (rule rnd_eval [where k = "- 2" and m = 4683743612465316]) (simp_all add: pow2_def)
  have u1_25: "fsub (6004799503160661 / 9007199254740992) (5254199565265579 / 9007199254740992) = (375299968947541 / 4503599627370496)"
    unfolding fsub_def by (rule rnd_eval [where k = "- 4" and m = 6004799503160656]) (simp_all add: pow2_def)
  have u1_26: "fmul (1170935903116329 / 4503599627370496) (375299968947541 / 4503599627370496) = (3122495741643541 / 144115188075855872)"
    unfolding fmul_def by (rule rnd_eval [where k = "- 6" and m = 6244991483287082]) (simp_all add: pow2_def)
  have u1_27: "fmul (3122495741643541 / 144115188075855872) 6 = (146366987889541 / 1125899906842624)"
    unfolding fmul_def by (rule rnd_eval_tie [where k = "- 3" and m = 4683743612465311]) (simp_all add: pow2_def)
  have u1_28: "fadd (1170935903116329 / 9007199254740992) (146366987889541 / 1125899906842624) = (2341871806232657 / 9007199254740992)"
    unfolding fadd_def by (rule rnd_eval [where k = "- 2" and m = 4683743612465314]) (simp_all add: pow2_def)
  have u1_29: "fsub (5254199565265579 / 9007199254740992) (6004799503160661 / 18014398509481984) = (4503599627370497 / 18014398509481984)"
    unfolding fsub_def by (rule rnd_eval [where k = "- 2" and m = 4503599627370497]) (simp_all add: pow2_def)
  have u1_30: "py_int (4503599627370497 / 18014398509481984) = 0"
    by (simp add: py_int_def floor_eq_iff)
  have u1_31: "fmod1 (4503599627370497 / 18014398509481984) = (4503599627370497 / 18014398509481984)"
    by (simp add: fmod1_def Let_def u1_30)
  have u1_32: "(((4503599627370497 / 18014398509481984) :: rat) < (6004799503160661 / 36028797018963968)) = False"
    by simp
  have u1_33: "(((4503599627370497 / 18014398509481984) :: rat) < (1 / 2)) = True"
    by simp
  have u1_34: "fmul (1170935903116329 / 9007199254740992) 255 = (4665447738979123 / 140737488355328)"
    unfolding fmul_def by (rule rnd_eval [where k = "5" and m = 4665447738979123]) (simp_all add: pow2_def)
  have u1_35: "py_int (4665447738979123 / 140737488355328) = 33"
    by (simp add: py_int_def floor_eq_iff)
  have u1_36: "fmul (2341871806232657 / 9007199254740992) 255 = (4665447738979121 / 70368744177664)"
    unfolding fmul_def by (rule rnd_eval [where k = "6" and m = 4665447738979121]) (simp_all add: pow2_def)
  have u1_37: "py_int (4665447738979121 / 70368744177664) = 66"
    by (simp add: py_int_def floor_eq_iff)
  have u1_38: "fmul (3512807709348987 / 9007199254740992) 255 = (6998171608468685 / 70368744177664)"
    unfolding fmul_def by (rule rnd_eval [where k = "6" and m = 6998171608468685]) (simp_all add: pow2_def)
  have u1_39: "py_int (6998171608468685 / 70368744177664) = 99"
    by (simp add: py_int_def floor_eq_iff)
  have "HSL_to_rgb \<lparr>h = 210, s = 50, l = 26\<rparr> = RGB_new 33 66 99"
    by (simp only: HSL_to_rgb_def hls_to_rgb_def hls_v_def ONE_THIRD_def ONE_SIXTH_def
        TWO_THIRD_def Let_def HSL.simps if_True if_False prod.case
        u1_1 u1_2 u1_3 u1_4 u1_5 u1_6 u1_7 u1_8 u1_9 u1_10 u1_11 u1_12 u1_13 u1_14 u1_15 u1_16 u1_17 u1_18 u1_19 u1_20 u1_21 u1_22 u1_23 u1_24 u1_25 u1_26 u1_27 u1_28 u1_29 u1_30 u1_31 u1_32 u1_33 u1_34 u1_35 u1_36 u1_37 u1_38 u1_39)
  then show ?thesis by (simp add: RGB_new_def)
qed

lemma to_rgb_210_50_42: "HSL_to_rgb \<lparr>h = 210, s = 50, l = 42\<rparr> = \<lparr>r = 53, g = 107, b = 160\<rparr>"
proof -
  have u2_1: "int_truediv 210 360 = (5254199565265579 / 9007199254740992)"
    unfolding int_truediv_def by (rule rnd_eval [where k = "- 1" and m = 5254199565265579]) (simp_all add: pow2_def)
  have u2_2: "int_truediv 42 100 = (7566047373982433 / 18014398509481984)"
    unfolding int_truediv_def by (rule rnd_eval [where k = "- 2" and m = 7566047373982433]) (simp_all add: pow2_def)
  have u2_3: "int_truediv 50 100 = (1 / 2)"
    unfolding int_truediv_def by (rule rnd_eval [where k = "- 1" and m = 4503599627370496]) (simp_all add: pow2_def)
  have u2_4: "(((1 / 2) :: rat) = 0) = False"
    by simp
  have u2_5: "(((7566047373982433 / 18014398509481984) :: rat) \<le> (1 / 2)) = True"
    by simp
  have u2_6: "fadd 1 (1 / 2) = (3 / 2)"
    unfolding fadd_def by (rule rnd_eval [where k = "0" and m = 6755399441055744]) (simp_all add: pow2_def)
  have u2_7: "fmul (7566047373982433 / 18014398509481984) (3 / 2) = (5674535530486825 / 9007199254740992)"
    unfolding fmul_def by (rule rnd_eval [where k = "- 1" and m = 5674535530486825]) (simp_all add: pow2_def)
  have u2_8: "fmul 2 (7566047373982433 / 18014398509481984) = (7566047373982433 / 9007199254740992)"
    unfolding fmul_def by (rule rnd_eval [where k = "- 1" and m = 7566047373982433]) (simp_all add: pow2_def)
  have u2_9: "fsub (7566047373982433 / 9007199254740992) (5674535530486825 / 9007199254740992) = (236438980436951 / 1125899906842624)"
    unfolding fsub_def by (rule rnd_eval [where k = "- 3" and m = 7566047373982432]) (simp_all add: pow2_def)
  have u2_10: "fdiv 1 3 = (6004799503160661 / 18014398509481984)"
    unfolding fdiv_def by (rule rnd_eval [where k = "- 2" and m = 6004799503160661]) (simp_all add: pow2_def)
  have u2_11: "fadd (5254199565265579 / 9007199254740992) (6004799503160661 / 18014398509481984) = (4128299658422955 / 4503599627370496)"
    unfolding fadd_def by (rule rnd_eval_tie [where k = "- 1" and m = 8256599316845909]) (simp_all add: pow2_def)
  have u2_12: "py_int (4128299658422955 / 4503599627370496) = 0"
    by (simp add: py_int_def floor_eq_iff)
  have u2_13: "fmod1 (4128299658422955 / 4503599627370496) = (4128299658422955 / 4503599627370496)"
    by (simp add: fmod1_def Let_def u2_12)
  have u2_14: "fdiv 1 6 = (6004799503160661 / 36028797018963968)"
    unfolding fdiv_def by (rule rnd_eval [where k = "- 3" and m = 6004799503160661]) (simp_all add: pow2_def)
  have u2_15: "(((4128299658422955 / 4503599627370496) :: rat) < (6004799503160661 / 36028797018963968)) = False"
    by simp
  have u2_16: "(((4128299658422955 / 4503599627370496) :: rat) < (1 / 2)) = False"
    by simp
  have u2_17: "fdiv 2 3 = (6004799503160661 / 9007199254740992)"
    unfolding fdiv_def by (rule rnd_eval [where k = "- 1" and m = 6004799503160661]) (simp_all add: pow2_def)
  have u2_18: "(((4128299658422955 / 4503599627370496) :: rat) < (6004799503160661 / 9007199254740992)) = False"
    by simp
  have u2_19: "py_int (5254199565265579 / 9007199254740992) = 0"
    by (simp add: py_int_def floor_eq_iff)
  have u2_20: "fmod1 (5254199565265579 / 9007199254740992) = (5254199565265579 / 9007199254740992)"
    by (simp add: fmod1_def Let_def u2_19)
  have u2_21: "(((5254199565265579 / 9007199254740992) :: rat) < (6004799503160661 / 36028797018963968)) = False"
    by simp
  have u2_22: "(((5254199565265579 / 9007199254740992) :: rat) < (1 / 2)) = False"
    by simp
  have u2_23: "(((5254199565265579 / 9007199254740992) :: rat) < (6004799503160661 / 9007199254740992)) = True"
    by simp
  have u2_24: "fsub (5674535530486825 / 9007199254740992) (236438980436951 / 1125899906842624) = (3783023686991217 / 9007199254740992)"
    unfolding fsub_def by (rule rnd_eval [where k = "- 2" and m = 7566047373982434]) (simp_all add: pow2_def)
  have u2_25: "fsub (6004799503160661 / 9007199254740992) (5254199565265579 / 9007199254740992) = (375299968947541 / 4503599627370496)"
    unfolding fsub_def by (rule rnd_eval [where k = "- 4" and m = 6004799503160656]) (simp_all add: pow2_def)
  have u2_26: "fmul (3783023686991217 / 9007199254740992) (375299968947541 / 4503599627370496) = (630503947831869 / 18014398509481984)"
    unfolding fmul_def by (rule rnd_eval [where k = "- 5" and m = 5044031582654952]) (simp_all add: pow2_def)
  have u2_27: "fmul (630503947831869 / 18014398509481984) 6 = (1891511843495607 / 9007199254740992)"
    unfolding fmul_def by (rule rnd_eval [where k = "- 3" and m = 7566047373982428]) (simp_all add: pow2_def)
  have u2_28: "fadd (236438980436951 / 1125899906842624) (1891511843495607 / 9007199254740992) = (3783023686991215 / 9007199254740992)"
    unfolding fadd_def by (rule rnd_eval [where k = "- 2" and m = 7566047373982430]) (simp_all add: pow2_def)
  have u2_29: "fsub (5254199565265579 / 9007199254740992) (6004799503160661 / 18014398509481984) = (4503599627370497 / 18014398509481984)"
    unfolding fsub_def by (rule rnd_eval [where k = "- 2" and m = 4503599627370497]) (simp_all add: pow2_def)
  have u2_30: "py_int (4503599627370497 / 18014398509481984) = 0"
    by (simp add: py_int_def floor_eq_iff)
  have u2_31: "fmod1 (4503599627370497 / 18014398509481984) = (4503599627370497 / 18014398509481984)"
    by (simp add: fmod1_def Let_def u2_30)
  have u2_32: "(((4503599627370497 / 18014398509481984) :: rat) < (6004799503160661 / 36028797018963968)) = False"
    by simp
  have u2_33: "(((4503599627370497 / 18014398509481984) :: rat) < (1 / 2)) = True"
    by simp
  have u2_34: "fmul (236438980436951 / 1125899906842624) 255 = (7536492501427813 / 140737488355328)"
    unfolding fmul_def by (rule rnd_eval [where k = "5" and m = 7536492501427813]) (simp_all add: pow2_def)
  have u2_35: "py_int (7536492501427813 / 140737488355328) = 53"
    by (simp add: py_int_def floor_eq_iff)
  have u2_36: "fmul (3783023686991215 / 9007199254740992) 255 = (7536492501427811 / 70368744177664)"
    unfolding fmul_def by (rule rnd_eval [where k = "6" and m = 7536492501427811]) (simp_all add: pow2_def)
  have u2_37: "py_int (7536492501427811 / 70368744177664) = 107"
    by (simp add: py_int_def floor_eq_iff)
  have u2_38: "fmul (5674535530486825 / 9007199254740992) 255 = (5652369376070861 / 35184372088832)"
    unfolding fmul_def by (rule rnd_eval [where k = "7" and m = 5652369376070861]) (simp_all add: pow2_def)
  have u2_39: "py_int (5652369376070861 / 35184372088832) = 160"
    by (simp add: py_int_def floor_eq_iff)
  have "HSL_to_rgb \<lparr>h = 210, s = 50, l = 42\<rparr> = RGB_new 53 107 160"
    by (simp only: HSL_to_rgb_def hls_to_rgb_def hls_v_def ONE_THIRD_def ONE_SIXTH_def
        TWO_THIRD_def Let_def HSL.simps if_True if_False prod.case
        u2_1 u2_2 u2_3 u2_4 u2_5 u2_6 u2_7 u2_8 u2_9 u2_10 u2_11 u2_12 u2_13 u2_14 u2_15 u2_16 u2_17 u2_18 u2_19 u2_20 u2_21 u2_22 u2_23 u2_24 u2_25 u2_26 u2_27 u2_28 u2_29 u2_30 u2_31 u2_32 u2_33 u2_34 u2_35 u2_36 u2_37 u2_38 u2_39)
  then show ?thesis by (simp add: RGB_new_def)
qed

lemma to_rgb_210_50_58: "HSL_to_rgb \<lparr>h = 210, s = 50, l = 58\<rparr> = \<lparr>r = 94, g = 147, b = 201\<rparr>"
proof -
  have u3_1: "int_truediv 210 360 = (5254199565265579 / 9007199254740992)"
    unfolding int_truediv_def by (rule rnd_eval [where k = "- 1" and m = 5254199565265579]) (simp_all add: pow2_def)
  have u3_2: "int_truediv 58 100 = (5224175567749775 / 9007199254740992)"
    unfolding int_truediv_def by (rule rnd_eval [where k = "- 1" and m = 5224175567749775]) (simp_all add: pow2_def)
  have u3_3: "int_truediv 50 100 = (1 / 2)"
    unfolding int_truediv_def by (rule rnd_eval [where k = "- 1" and m = 4503599627370496]) (simp_all add: pow2_def)
  have u3_4: "(((1 / 2) :: rat) = 0) = False"
    by simp
  have u3_5: "(((5224175567749775 / 9007199254740992) :: rat) \<le> (1 / 2)) = False"
    by simp
  have u3_6: "fadd (5224175567749775 / 9007199254740992) (1 / 2) = (607985949695017 / 562949953421312)"
    unfolding fadd_def by (rule rnd_eval_tie [where k = "0" and m = 4863887597560135]) (simp_all add: pow2_def)
  have u3_7: "fmul (5224175567749775 / 9007199254740992) (1 / 2) = (5224175567749775 / 18014398509481984)"
    unfolding fmul_def by (rule rnd_eval [where k = "- 2" and m = 5224175567749775]) (simp_all add: pow2_def)
  have u3_8: "fsub (607985949695017 / 562949953421312) (5224175567749775 / 18014398509481984) = (889460926405673 / 1125899906842624)"
    unfolding fsub_def by (rule rnd_eval_tie [where k = "- 1" and m = 7115687411245384]) (simp_all add: pow2_def)
  have u3_9: "fmul 2 (5224175567749775 / 9007199254740992) = (5224175567749775 / 4503599627370496)"
    unfolding fmul_def by (rule rnd_eval [where k = "0" and m = 5224175567749775]) (simp_all add: pow2_def)
  have u3_10: "fsub (5224175567749775 / 4503599627370496) (889460926405673 / 1125899906842624) = (1666331862127083 / 4503599627370496)"
    unfolding fsub_def by (rule rnd_eval [where k = "- 2" and m = 6665327448508332]) (simp_all add: pow2_def)
  have u3_11: "fdiv 1 3 = (6004799503160661 / 18014398509481984)"
    unfolding fdiv_def by (rule rnd_eval [where k = "- 2" and m = 6004799503160661]) (simp_all add: pow2_def)
  have u3_12: "fadd (5254199565265579 / 9007199254740992) (6004799503160661 / 18014398509481984) = (4128299658422955 / 4503599627370496)"
    unfolding fadd_def by (rule rnd_eval_tie [where k = "- 1" and m = 8256599316845909]) (simp_all add: pow2_def)
  have u3_13: "py_int (4128299658422955 / 4503599627370496) = 0"
    by (simp add: py_int_def floor_eq_iff)
  have u3_14: "fmod1 (4128299658422955 / 4503599627370496) = (4128299658422955 / 4503599627370496)"
    by (simp add: fmod1_def Let_def u3_13)
  have u3_15: "fdiv 1 6 = (6004799503160661 / 36028797018963968)"
    unfolding fdiv_def by (rule rnd_eval [where k = "- 3" and m = 6004799503160661]) (simp_all add: pow2_def)
  have u3_16: "(((4128299658422955 / 4503599627370496) :: rat) < (6004799503160661 / 36028797018963968)) = False"
    by simp
  have u3_17: "(((4128299658422955 / 4503599627370496) :: rat) < (1 / 2)) = False"
    by simp
  have u3_18: "fdiv 2 3 = (6004799503160661 / 9007199254740992)"
    unfolding fdiv_def by (rule rnd_eval [where k = "- 1" and m = 6004799503160661]) (simp_all add: pow2_def)
  have u3_19: "(((4128299658422955 / 4503599627370496) :: rat) < (6004799503160661 / 9007199254740992)) = False"
    by simp
  have u3_20: "py_int (5254199565265579 / 9007199254740992) = 0"
    by (simp add: py_int_def floor_eq_iff)
  have u3_21: "fmod1 (5254199565265579 / 9007199254740992) = (5254199565265579 / 9007199254740992)"
    by (simp add: fmod1_def Let_def u3_20)
  have u3_22: "(((5254199565265579 / 9007199254740992) :: rat) < (6004799503160661 / 36028797018963968)) = False"
    by simp
  have u3_23: "(((5254199565265579 / 9007199254740992) :: rat) < (1 / 2)) = False"
    by simp
  have u3_24: "(((5254199565265579 / 9007199254740992) :: rat) < (6004799503160661 / 9007199254740992)) = True"
    by simp
  have u3_25: "fsub (889460926405673 / 1125899906842624) (1666331862127083 / 4503599627370496) = (1891511843495609 / 4503599627370496)"
    unfolding fsub_def by (rule rnd_eval [where k = "- 2" and m = 7566047373982436]) (simp_all add: pow2_def)
  have u3_26: "fsub (6004799503160661 / 9007199254740992) (5254199565265579 / 9007199254740992) = (375299968947541 / 4503599627370496)"
    unfolding fsub_def by (rule rnd_eval [where k = "- 4" and m = 6004799503160656]) (simp_all add: pow2_def)
  have u3_27: "fmul (1891511843495609 / 4503599627370496) (375299968947541 / 4503599627370496) = (5044031582654953 / 144115188075855872)"
    unfolding fmul_def by (rule rnd_eval [where k = "- 5" and m = 5044031582654953]) (simp_all add: pow2_def)
  have u3_28: "fmul (5044031582654953 / 144115188075855872) 6 = (3783023686991215 / 18014398509481984)"
    unfolding fmul_def by (rule rnd_eval_tie [where k = "- 3" and m = 7566047373982429]) (simp_all add: pow2_def)
  have u3_29: "fadd (1666331862127083 / 4503599627370496) (3783023686991215 / 18014398509481984) = (2612087783874887 / 4503599627370496)"
    unfolding fadd_def by (rule rnd_eval_tie [where k = "- 1" and m = 5224175567749773]) (simp_all add: pow2_def)
  have u3_30: "fsub (5254199565265579 / 9007199254740992) (6004799503160661 / 18014398509481984) = (4503599627370497 / 18014398509481984)"
    unfolding fsub_def by (rule rnd_eval [where k = "- 2" and m = 4503599627370497]) (simp_all add: pow2_def)
  have u3_31: "py_int (4503599627370497 / 18014398509481984) = 0"
    by (simp add: py_int_def floor_eq_iff)
  have u3_32: "fmod1 (4503599627370497 / 18014398509481984) = (4503599627370497 / 18014398509481984)"
    by (simp add: fmod1_def Let_def u3_31)
  have u3_33: "(((4503599627370497 / 18014398509481984) :: rat) < (6004799503160661 / 36028797018963968)) = False"
    by simp
  have u3_34: "(((4503599627370497 / 18014398509481984) :: rat) < (1 / 2)) = True"
    by simp
  have u3_35: "fmul (1666331862127083 / 4503599627370496) 255 = (1659822753290649 / 17592186044416)"
    unfolding fmul_def by (rule rnd_eval [where k = "6" and m = 6639291013162596]) (simp_all add: pow2_def)
  have u3_36: "py_int (1659822753290649 / 17592186044416) = 94"
    by (simp add: py_int_def floor_eq_iff)
  have u3_37: "fmul (2612087783874887 / 4503599627370496) 255 = (5203768631938251 / 35184372088832)"
    unfolding fmul_def by (rule rnd_eval [where k = "7" and m = 5203768631938251]) (simp_all add: pow2_def)
  have u3_38: "py_int (5203768631938251 / 35184372088832) = 147"
    by (simp add: py_int_def floor_eq_iff)
  have u3_39: "fmul (889460926405673 / 1125899906842624) 255 = (7087891757295207 / 35184372088832)"
    unfolding fmul_def by (rule rnd_eval [where k = "7" and m = 7087891757295207]) (simp_all add: pow2_def)
  have u3_40: "py_int (7087891757295207 / 35184372088832) = 201"
    by (simp add: py_int_def floor_eq_iff)
  have "HSL_to_rgb \<lparr>h = 210, s = 50, l = 58\<rparr> = RGB_new 94 147 201"
    by (simp only: HSL_to_rgb_def hls_to_rgb_def hls_v_def ONE_THIRD_def ONE_SIXTH_def
        TWO_THIRD_def Let_def HSL.simps if_True if_False prod.case
        u3_1 u3_2 u3_3 u3_4 u3_5 u3_6 u3_7 u3_8 u3_9 u3_10 u3_11 u3_12 u3_13 u3_14 u3_15 u3_16 u3_17 u3_18 u3_19 u3_20 u3_21 u3_22 u3_23 u3_24 u3_25 u3_26 u3_27 u3_28 u3_29 u3_30 u3_31 u3_32 u3_33 u3_34 u3_35 u3_36 u3_37 u3_38 u3_39 u3_40)
  then show ?thesis by (simp add: RGB_new_def)
qed

lemma to_rgb_210_50_74: "HSL_to_rgb \<lparr>h = 210, s = 50, l = 74\<rparr> = \<lparr>r = 155, g = 188, b = 221\<rparr>"
proof -
  have u4_1: "int_truediv 210 360 = (5254199565265579 / 9007199254740992)"
    unfolding int_truediv_def by (rule rnd_eval [where k = "- 1" and m = 5254199565265579]) (simp_all add: pow2_def)
  have u4_2: "int_truediv 74 100 = (3332663724254167 / 4503599627370496)"
    unfolding int_truediv_def by (rule rnd_eval [where k = "- 1" and m = 6665327448508334]) (simp_all add: pow2_def)
  have u4_3: "int_truediv 50 100 = (1 / 2)"
    unfolding int_truediv_def by (rule rnd_eval [where k = "- 1" and m = 4503599627370496]) (simp_all add: pow2_def)
  have u4_4: "(((1 / 2) :: rat) = 0) = False"
    by simp
  have u4_5: "(((3332663724254167 / 4503599627370496) :: rat) \<le> (1 / 2)) = False"
    by simp
  have u4_6: "fadd (3332663724254167 / 4503599627370496) (1 / 2) = (5584463537939415 / 4503599627370496)"
    unfolding fadd_def by (rule rnd_eval [where k = "0" and m = 5584463537939415]) (simp_all add: pow2_def)
  have u4_7: "fmul (3332663724254167 / 4503599627370496) (1 / 2) = (3332663724254167 / 9007199254740992)"
    unfolding fmul_def by (rule rnd_eval [where k = "- 2" and m = 6665327448508334]) (simp_all add: pow2_def)
  have u4_8: "fsub (5584463537939415 / 4503599627370496) (3332663724254167 / 9007199254740992) = (7836263351624663 / 9007199254740992)"
    unfolding fsub_def by (rule rnd_eval [where k = "- 1" and m = 7836263351624663]) (simp_all add: pow2_def)
  have u4_9: "fmul 2 (3332663724254167 / 4503599627370496) = (3332663724254167 / 2251799813685248)"
    unfolding fmul_def by (rule rnd_eval [where k = "0" and m = 6665327448508334]) (simp_all add: pow2_def)
  have u4_10: "fsub (3332663724254167 / 2251799813685248) (7836263351624663 / 9007199254740992) = (5494391545392005 / 9007199254740992)"
    unfolding fsub_def by (rule rnd_eval [where k = "- 1" and m = 5494391545392005]) (simp_all add: pow2_def)
  have u4_11: "fdiv 1 3 = (6004799503160661 / 18014398509481984)"
    unfolding fdiv_def by (rule rnd_eval [where k = "- 2" and m = 6004799503160661]) (simp_all add: pow2_def)
  have u4_12: "fadd (5254199565265579 / 9007199254740992) (6004799503160661 / 18014398509481984) = (4128299658422955 / 4503599627370496)"
    unfolding fadd_def by (rule rnd_eval_tie [where k = "- 1" and m = 8256599316845909]) (simp_all add: pow2_def)
  have u4_13: "py_int (4128299658422955 / 4503599627370496) = 0"
    by (simp add: py_int_def floor_eq_iff)
  have u4_14: "fmod1 (4128299658422955 / 4503599627370496) = (4128299658422955 / 4503599627370496)"
    by (simp add: fmod1_def Let_def u4_13)
  have u4_15: "fdiv 1 6 = (6004799503160661 / 36028797018963968)"
    unfolding fdiv_def by (rule rnd_eval [where k = "- 3" and m = 6004799503160661]) (simp_all add: pow2_def)
  have u4_16: "(((4128299658422955 / 4503599627370496) :: rat) < (6004799503160661 / 36028797018963968)) = False"
    by simp
  have u4_17: "(((4128299658422955 / 4503599627370496) :: rat) < (1 / 2)) = False"
    by simp
  have u4_18: "fdiv 2 3 = (6004799503160661 / 9007199254740992)"
    unfolding fdiv_def by (rule rnd_eval [where k = "- 1" and m = 6004799503160661]) (simp_all add: pow2_def)
  have u4_19: "(((4128299658422955 / 4503599627370496) :: rat) < (6004799503160661 / 9007199254740992)) = False"
    by simp
  have u4_20: "py_int (5254199565265579 / 9007199254740992) = 0"
    by (simp add: py_int_def floor_eq_iff)
  have u4_21: "fmod1 (5254199565265579 / 9007199254740992) = (5254199565265579 / 9007199254740992)"
    by (simp add: fmod1_def Let_def u4_20)
  have u4_22: "(((5254199565265579 / 9007199254740992) :: rat) < (6004799503160661 / 36028797018963968)) = False"
    by simp
  have u4_23: "(((5254199565265579 / 9007199254740992) :: rat) < (1 / 2)) = False"
    by simp
  have u4_24: "(((5254199565265579 / 9007199254740992) :: rat) < (6004799503160661 / 9007199254740992)) = True"
    by simp
  have u4_25: "fsub (7836263351624663 / 9007199254740992) (5494391545392005 / 9007199254740992) = (1170935903116329 / 4503599627370496)"
    unfolding fsub_def by (rule rnd_eval [where k = "- 2" and m = 4683743612465316]) (simp_all add: pow2_def)
  have u4_26: "fsub (6004799503160661 / 9007199254740992) (5254199565265579 / 9007199254740992) = (375299968947541 / 4503599627370496)"
    unfolding fsub_def by (rule rnd_eval [where k = "- 4" and m = 6004799503160656]) (simp_all add: pow2_def)
  have u4_27: "fmul (1170935903116329 / 4503599627370496) (375299968947541 / 4503599627370496) = (3122495741643541 / 144115188075855872)"
    unfolding fmul_def by (rule rnd_eval [where k = "- 6" and m = 6244991483287082]) (simp_all add: pow2_def)
  have u4_28: "fmul (3122495741643541 / 144115188075855872) 6 = (146366987889541 / 1125899906842624)"
    unfolding fmul_def by (rule rnd_eval_tie [where k = "- 3" and m = 4683743612465311]) (simp_all add: pow2_def)
  have u4_29: "fadd (5494391545392005 / 9007199254740992) (146366987889541 / 1125899906842624) = (6665327448508333 / 9007199254740992)"
    unfolding fadd_def by (rule rnd_eval [where k = "- 1" and m = 6665327448508333]) (simp_all add: pow2_def)
  have u4_30: "fsub (5254199565265579 / 9007199254740992) (6004799503160661 / 18014398509481984) = (4503599627370497 / 18014398509481984)"
    unfolding fsub_def by (rule rnd_eval [where k = "- 2" and m = 4503599627370497]) (simp_all add: pow2_def)
  have u4_31: "py_int (4503599627370497 / 18014398509481984) = 0"
    by (simp add: py_int_def floor_eq_iff)
  have u4_32: "fmod1 (4503599627370497 / 18014398509481984) = (4503599627370497 / 18014398509481984)"
    by (simp add: fmod1_def Let_def u4_31)
  have u4_33: "(((4503599627370497 / 18014398509481984) :: rat) < (6004799503160661 / 36028797018963968)) = False"
    by simp
  have u4_34: "(((4503599627370497 / 18014398509481984) :: rat) < (1 / 2)) = True"
    by simp
  have u4_35: "fmul (5494391545392005 / 9007199254740992) 255 = (5472929078417817 / 35184372088832)"
    unfolding fmul_def by (rule rnd_eval [where k = "7" and m = 5472929078417817]) (simp_all add: pow2_def)
  have u4_36: "py_int (5472929078417817 / 35184372088832) = 155"
    by (simp add: py_int_def floor_eq_iff)
  have u4_37: "fmul (6665327448508333 / 9007199254740992) 255 = (6639291013162597 / 35184372088832)"
    unfolding fmul_def by (rule rnd_eval [where k = "7" and m = 6639291013162597]) (simp_all add: pow2_def)
  have u4_38: "py_int (6639291013162597 / 35184372088832) = 188"
    by (simp add: py_int_def floor_eq_iff)
  have u4_39: "fmul (7836263351624663 / 9007199254740992) 255 = (7805652947907379 / 35184372088832)"
    unfolding fmul_def by (rule rnd_eval [where k = "7" and m = 7805652947907379]) (simp_all add: pow2_def)
  have u4_40: "py_int (7805652947907379 / 35184372088832) = 221"
    by (simp add: py_int_def floor_eq_iff)
  have "HSL_to_rgb \<lparr>h = 210, s = 50, l = 74\<rparr> = RGB_new 155 188 221"
    by (simp only: HSL_to_rgb_def hls_to_rgb_def hls_v_def ONE_THIRD_def ONE_SIXTH_def
        TWO_THIRD_def Let_def HSL.simps if_True if_False prod.case
        u4_1 u4_2 u4_3 u4_4 u4_5 u4_6 u4_7 u4_8 u4_9 u4_10 u4_11 u4_12 u4_13 u4_14 u4_15 u4_16 u4_17 u4_18 u4_19 u4_20 u4_21 u4_22 u4_23 u4_24 u4_25 u4_26 u4_27 u4_28 u4_29 u4_30 u4_31 u4_32 u4_33 u4_34 u4_35 u4_36 u4_37 u4_38 u4_39 u4_40)
  then show ?thesis by (simp add: RGB_new_def)
qed

lemma to_hsl_12_25_38: "to_hsl \<lparr>r = 12, g = 25, b = 38\<rparr> = \<lparr>h = 210, s = 52, l = 9\<rparr>"
proof -
  have v0_1: "int_truediv 12 255 = (847736400446211 / 18014398509481984)"
    unfolding int_truediv_def by (rule rnd_eval [where k = "- 5" and m = 6781891203569688]) (simp_all add: pow2_def)
  have v0_2: "int_truediv 25 255 = (7064470003718425 / 72057594037927936)"
    unfolding int_truediv_def by (rule rnd_eval [where k = "- 4" and m = 7064470003718425]) (simp_all add: pow2_def)
  have v0_3: "int_truediv 38 255 = (5368997202826003 / 36028797018963968)"
    unfolding int_truediv_def by (rule rnd_eval [where k = "- 3" and m = 5368997202826003]) (simp_all add: pow2_def)
  have v0_4: "max ((7064470003718425 / 72057594037927936) :: rat) (5368997202826003 / 36028797018963968) = (5368997202826003 / 36028797018963968)"
    by simp
  have v0_5: "max ((847736400446211 / 18014398509481984) :: rat) (5368997202826003 / 36028797018963968) = (5368997202826003 / 36028797018963968)"
    by simp
  have v0_6: "min ((7064470003718425 / 72057594037927936) :: rat) (5368997202826003 / 36028797018963968) = (7064470003718425 / 72057594037927936)"
    by simp
  have v0_7: "min ((847736400446211 / 18014398509481984) :: rat) (7064470003718425 / 72057594037927936) = (847736400446211 / 18014398509481984)"
    by simp
  have v0_8: "fadd (5368997202826003 / 36028797018963968) (847736400446211 / 18014398509481984) = (7064470003718425 / 36028797018963968)"
    unfolding fadd_def by (rule rnd_eval [where k = "- 3" and m = 7064470003718425]) (simp_all add: pow2_def)
  have v0_9: "fsub (5368997202826003 / 36028797018963968) (847736400446211 / 18014398509481984) = (3673524401933581 / 36028797018963968)"
    unfolding fsub_def by (rule rnd_eval [where k = "- 4" and m = 7347048803867162]) (simp_all add: pow2_def)
  have v0_10: "fdiv (7064470003718425 / 36028797018963968) 2 = (7064470003718425 / 72057594037927936)"
    unfolding fdiv_def by (rule rnd_eval [where k = "- 4" and m = 7064470003718425]) (simp_all add: pow2_def)
  have v0_11: "(((847736400446211 / 18014398509481984) :: rat) = (5368997202826003 / 36028797018963968)) = False"
    by simp
  have v0_12: "(((7064470003718425 / 72057594037927936) :: rat) \<le> (1 / 2)) = True"
    by simp
  have v0_13: "fdiv (3673524401933581 / 36028797018963968) (7064470003718425 / 36028797018963968) = (1170935903116329 / 2251799813685248)"
    unfolding fdiv_def by (rule rnd_eval [where k = "- 1" and m = 4683743612465316]) (simp_all add: pow2_def)
  have v0_14: "fdiv (3673524401933581 / 36028797018963968) (3673524401933581 / 36028797018963968) = 1"
    unfolding fdiv_def by (rule rnd_eval [where k = "0" and m = 4503599627370496]) (simp_all add: pow2_def)
  have v0_15: "fsub (5368997202826003 / 36028797018963968) (7064470003718425 / 72057594037927936) = (3673524401933581 / 72057594037927936)"
    unfolding fsub_def by (rule rnd_eval [where k = "- 5" and m = 7347048803867162]) (simp_all add: pow2_def)
  have v0_16: "fdiv (3673524401933581 / 72057594037927936) (3673524401933581 / 36028797018963968) = (1 / 2)"
    unfolding fdiv_def by (rule rnd_eval [where k = "- 1" and m = 4503599627370496]) (simp_all add: pow2_def)
  have v0_17: "fsub (5368997202826003 / 36028797018963968) (5368997202826003 / 36028797018963968) = 0"
    by (simp add: fsub_def)
  have v0_18: "fdiv 0 (3673524401933581 / 36028797018963968) = 0"
    by (simp add: fdiv_def)
  have v0_19: "(((7064470003718425 / 72057594037927936) :: rat) = (5368997202826003 / 36028797018963968)) = False"
    by simp
  have v0_20: "fadd 4 (1 / 2) = (9 / 2)"
    unfolding fadd_def by (rule rnd_eval [where k = "2" and m = 5066549580791808]) (simp_all add: pow2_def)
  have v0_21: "fsub (9 / 2) 1 = (7 / 2)"
    unfolding fsub_def by (rule rnd_eval [where k = "1" and m = 7881299347898368]) (simp_all add: pow2_def)
  have v0_22: "fdiv (7 / 2) 6 = (5254199565265579 / 9007199254740992)"
    unfolding fdiv_def by (rule rnd_eval [where k = "- 1" and m = 5254199565265579]) (simp_all add: pow2_def)
  have v0_23: "py_int (5254199565265579 / 9007199254740992) = 0"
    by (simp add: py_int_def floor_eq_iff)
  have v0_24: "fmod1 (5254199565265579 / 9007199254740992) = (5254199565265579 / 9007199254740992)"
    by (simp add: fmod1_def Let_def v0_23)
  have v0_25: "fmul (5254199565265579 / 9007199254740992) 360 = 210"
    unfolding fmul_def by (rule rnd_eval [where k = "7" and m = 7388718138654720]) (simp_all add: pow2_def)
  have v0_26: "py_int 210 = 210"
    by (simp add: py_int_def floor_eq_iff)
  have v0_27: "fmul (1170935903116329 / 2251799813685248) 100 = 52"
    unfolding fmul_def by (rule rnd_eval [where k = "5" and m = 7318349394477056]) (simp_all add: pow2_def)
  have v0_28: "py_int 52 = 52"
    by (simp add: py_int_def floor_eq_iff)
  have v0_29: "fmul (7064470003718425 / 72057594037927936) 100 = (1379779297601255 / 140737488355328)"
    unfolding fmul_def by (rule rnd_eval [where k = "3" and m = 5519117190405020]) (simp_all add: pow2_def)
  have v0_30: "py_int (1379779297601255 / 140737488355328) = 9"
    by (simp add: py_int_def floor_eq_iff)
  have "to_hsl \<lparr>r = 12, g = 25, b = 38\<rparr> = HSL_new 210 52 9"
    by (simp only: to_hsl_def rgb_to_hls_def Let_def RGB.simps if_True if_False prod.case
        v0_1 v0_2 v0_3 v0_4 v0_5 v0_6 v0_7 v0_8 v0_9 v0_10 v0_11 v0_12 v0_13 v0_14 v0_15 v0_16 v0_17 v0_18 v0_19 v0_20 v0_21 v0_22 v0_23 v0_24 v0_25 v0_26 v0_27 v0_28 v0_29 v0_30)
  then show ?thesis by (simp add: HSL_new_def)
qed

lemma to_hsl_33_66_99: "to_hsl \<lparr>r = 33, g = 66, b = 99\<rparr> = \<lparr>h = 210, s = 49, l = 25\<rparr>"
proof -
  have v1_1: "int_truediv 33 255 = (4662550202454161 / 36028797018963968)"
    unfolding int_truediv_def by (rule rnd_eval [where k = "- 3" and m = 4662550202454161]) (simp_all add: pow2_def)
  have v1_2: "int_truediv 66 255 = (4662550202454161 / 18014398509481984)"
    unfolding int_truediv_def by (rule rnd_eval [where k = "- 2" and m = 4662550202454161]) (simp_all add: pow2_def)
  have v1_3: "int_truediv 99 255 = (6993825303681241 / 18014398509481984)"
    unfolding int_truediv_def by (rule rnd_eval [where k = "- 2" and m = 6993825303681241]) (simp_all add: pow2_def)
  have v1_4: "max ((4662550202454161 / 18014398509481984) :: rat) (6993825303681241 / 18014398509481984) = (6993825303681241 / 18014398509481984)"
    by simp
  have v1_5: "max ((4662550202454161 / 36028797018963968) :: rat) (6993825303681241 / 18014398509481984) = (6993825303681241 / 18014398509481984)"
    by simp
  have v1_6: "min ((4662550202454161 / 18014398509481984) :: rat) (6993825303681241 / 18014398509481984) = (4662550202454161 / 18014398509481984)"
    by simp
  have v1_7: "min ((4662550202454161 / 36028797018963968) :: rat) (4662550202454161 / 18014398509481984) = (4662550202454161 / 36028797018963968)"
    by simp
  have v1_8: "fadd (6993825303681241 / 18014398509481984) (4662550202454161 / 36028797018963968) = (4662550202454161 / 9007199254740992)"
    unfolding fadd_def by (rule rnd_eval [where k = "- 1" and m = 4662550202454161]) (simp_all add: pow2_def)
  have v1_9: "fsub (6993825303681241 / 18014398509481984) (4662550202454161 / 36028797018963968) = (291409387653385 / 1125899906842624)"
    unfolding fsub_def by (rule rnd_eval_tie [where k = "- 2" and m = 4662550202454160]) (simp_all add: pow2_def)
  have v1_10: "fdiv (4662550202454161 / 9007199254740992) 2 = (4662550202454161 / 18014398509481984)"
    unfolding fdiv_def by (rule rnd_eval [where k = "- 2" and m = 4662550202454161]) (simp_all add: pow2_def)
  have v1_11: "(((4662550202454161 / 36028797018963968) :: rat) = (6993825303681241 / 18014398509481984)) = False"
    by simp
  have v1_12: "(((4662550202454161 / 18014398509481984) :: rat) \<le> (1 / 2)) = True"
    by simp
  have v1_13: "fdiv (291409387653385 / 1125899906842624) (4662550202454161 / 9007199254740992) = (4503599627370495 / 9007199254740992)"
    unfolding fdiv_def by (rule rnd_eval [where k = "- 2" and m = 9007199254740990]) (simp_all add: pow2_def)
  have v1_14: "fdiv (291409387653385 / 1125899906842624) (291409387653385 / 1125899906842624) = 1"
    unfolding fdiv_def by (rule rnd_eval [where k = "0" and m = 4503599627370496]) (simp_all add: pow2_def)
  have v1_15: "fsub (6993825303681241 / 18014398509481984) (4662550202454161 / 18014398509481984) = (291409387653385 / 2251799813685248)"
    unfolding fsub_def by (rule rnd_eval [where k = "- 3" and m = 4662550202454160]) (simp_all add: pow2_def)
  have v1_16: "fdiv (291409387653385 / 2251799813685248) (291409387653385 / 1125899906842624) = (1 / 2)"
    unfolding fdiv_def by (rule rnd_eval [where k = "- 1" and m = 4503599627370496]) (simp_all add: pow2_def)
  have v1_17: "fsub (6993825303681241 / 18014398509481984) (6993825303681241 / 18014398509481984) = 0"
    by (simp add: fsub_def)
  have v1_18: "fdiv 0 (291409387653385 / 1125899906842624) = 0"
    by (simp add: fdiv_def)
  have v1_19: "(((4662550202454161 / 18014398509481984) :: rat) = (6993825303681241 / 18014398509481984)) = False"
    by simp
  have v1_20: "fadd 4 (1 / 2) = (9 / 2)"
    unfolding fadd_def by (rule rnd_eval [where k = "2" and m = 5066549580791808]) (simp_all add: pow2_def)
  have v1_21: "fsub (9 / 2) 1 = (7 / 2)"
    unfolding fsub_def by (rule rnd_eval [where k = "1" and m = 7881299347898368]) (simp_all add: pow2_def)
  have v1_22: "fdiv (7 / 2) 6 = (5254199565265579 / 9007199254740992)"
    unfolding fdiv_def by (rule rnd_eval [where k = "- 1" and m = 5254199565265579]) (simp_all add: pow2_def)
  have v1_23: "py_int (5254199565265579 / 9007199254740992) = 0"
    by (simp add: py_int_def floor_eq_iff)
  have v1_24: "fmod1 (5254199565265579 / 9007199254740992) = (5254199565265579 / 9007199254740992)"
    by (simp add: fmod1_def Let_def v1_23)
  have v1_25: "fmul (5254199565265579 / 9007199254740992) 360 = 210"
    unfolding fmul_def by (rule rnd_eval [where k = "7" and m = 7388718138654720]) (simp_all add: pow2_def)
  have v1_26: "py_int 210 = 210"
    by (simp add: py_int_def floor_eq_iff)
  have v1_27: "fmul (4503599627370495 / 9007199254740992) 100 = (3518437208883199 / 70368744177664)"
    unfolding fmul_def by (rule rnd_eval [where k = "5" and m = 7036874417766398]) (simp_all add: pow2_def)
  have v1_28: "py_int (3518437208883199 / 70368744177664) = 49"
    by (simp add: py_int_def floor_eq_iff)
  have v1_29: "fmul (4662550202454161 / 18014398509481984) 100 = (7285234691334627 / 281474976710656)"
    unfolding fmul_def by (rule rnd_eval [where k = "4" and m = 7285234691334627]) (simp_all add: pow2_def)
  have v1_30: "py_int (7285234691334627 / 281474976710656) = 25"
    by (simp add: py_int_def floor_eq_iff)
  have "to_hsl \<lparr>r = 33, g = 66, b = 99\<rparr> = HSL_new 210 49 25"
    by (simp only: to_hsl_def rgb_to_hls_def Let_def RGB.simps if_True if_False prod.case
        v1_1 v1_2 v1_3 v1_4 v1_5 v1_6 v1_7 v1_8 v1_9 v1_10 v1_11 v1_12 v1_13 v1_14 v1_15 v1_16 v1_17 v1_18 v1_19 v1_20 v1_21 v1_22 v1_23 v1_24 v1_25 v1_26 v1_27 v1_28 v1_29 v1_30)
  then show ?thesis by (simp add: HSL_new_def)
qed

lemma monochromatic_zero: "monochromatic base 0 = Inl ZeroDivisionError"
  by (simp add: monochromatic_def)

lemma monochromatic_pos:
  assumes c: "0 < count"
  shows "\<exists>cs. monochromatic base count = Inr cs \<and> length cs = nat count \<and>
         (\<forall>i < nat count.
            cs ! i = Color_of_HSL
              \<lparr>h = h (hsl base), s = s (hsl base),
               l = min 90 (max 10 (l (hsl base) - 80 div count * count div 2)
                            + 80 div count * int i)\<rparr> \<and>
            10 \<le> min 90 (max 10 (l (hsl base) - 80 div count * count div 2) + 80 div count * int i))"
proof -
  define x where "x = hsl base"
  note rng = to_hsl_range [of "rgb base", folded hsl_def, folded x_def]
  define step where "step = 80 div count"
  define start where "start = max 10 (l x - step * count div 2)"
  define cs where "cs = map (\<lambda>i. Color_of_HSL (HSL_new (h x) (s x) (min 90 (start + step * i))))
                           [0..count - 1]"
  have st: "0 \<le> step" using c by (simp add: step_def pos_imp_zdiv_nonneg_iff)
  have eq: "monochromatic base count = Inr cs"
    using c by (simp add: monochromatic_def Let_def x_def step_def start_def cs_def)
  have len: "length cs = nat count" by (simp add: cs_def)
  have el: "cs ! i = Color_of_HSL \<lparr>h = h x, s = s x, l = min 90 (start + step * int i)\<rparr> \<and>
          10 \<le> min 90 (start + step * int i)" if i: "i < nat count" for i
  proof -
    have "0 \<le> step * int i" using st by simp
    moreover have "10 \<le> start" by (simp add: start_def)
    ultimately have lo: "10 \<le> min 90 (start + step * int i)" by simp
    then have "HSL_new (h x) (s x) (min 90 (start + step * int i))
        = \<lparr>h = h x, s = s x, l = min 90 (start + step * int i)\<rparr>"
      using rng by (intro HSL_new_id) simp_all
    moreover have "[0..count - 1] ! i = int i" using i by (simp add: nth_upto)
    moreover have "i < length [0..count - 1]" using i by simp
    ultimately show ?thesis using lo by (simp add: cs_def)
  qed
  from eq len el show ?thesis
    unfolding x_def step_def start_def by blast
qed

lemma monochromatic_10_20_30:
  "monochromatic (Color_of_RGB (RGB_new 10 20 30)) 5 =
     Inr [Color_of_RGB (RGB_new 12 25 38), Color_of_RGB (RGB_new 33 66 99),
          Color_of_RGB (RGB_new 53 107 160), Color_of_RGB (RGB_new 94 147 201),
          Color_of_RGB (RGB_new 155 188 221)]"
proof -
  have b: "RGB_new 10 20 30 = \<lparr>r = 10, g = 20, b = 30\<rparr>" by (simp add: RGB_new_def)
  have x: "hsl (Color_of_RGB (RGB_new 10 20 30)) = \<lparr>h = 210, s = 50, l = 7\<rparr>"
    by (simp add: hsl_def Color_of_RGB_def b to_hsl_10_20_30)
  have up: "[0..5 - 1] = [0, 1, 2, 3, 4 :: int]" by (simp add: upto.simps)
  have n: "HSL_new 210 50 10 = \<lparr>h = 210, s = 50, l = 10\<rparr>"
    "HSL_new 210 50 26 = \<lparr>h = 210, s = 50, l = 26\<rparr>"
    "HSL_new 210 50 42 = \<lparr>h = 210, s = 50, l = 42\<rparr>"
    "HSL_new 210 50 58 = \<lparr>h = 210, s = 50, l = 58\<rparr>"
    "HSL_new 210 50 74 = \<lparr>h = 210, s = 50, l = 74\<rparr>"
    by (simp_all add: HSL_new_def)
  have c: "RGB_new 12 25 38 = \<lparr>r = 12, g = 25, b = 38\<rparr>"
    "RGB_new 33 66 99 = \<lparr>r = 33, g = 66, b = 99\<rparr>"
    "RGB_new 53 107 160 = \<lparr>r = 53, g = 107, b = 160\<rparr>"
    "RGB_new 94 147 201 = \<lparr>r = 94, g = 147, b = 201\<rparr>"
    "RGB_new 155 188 221 = \<lparr>r = 155, g = 188, b = 221\<rparr>"
    by (simp_all add: RGB_new_def)
  show ?thesis
    unfolding monochromatic_def x Let_def up
    by (simp add: n c Color_of_HSL_def Color_of_RGB_def to_rgb_210_50_10 to_rgb_210_50_26
        to_rgb_210_50_42 to_rgb_210_50_58 to_rgb_210_50_74)
qed

text \<open>
  C8, as stated, fails in its second half: the five colours of \<^verbatim>\<open>monochromatic\<close> of
  \<^verbatim>\<open>RGB(10, 20, 30)\<close> do not have one saturation. Read with \<^verbatim>\<open>hsl()\<close>, the first has
  saturation 52 and the second 49 (the base has 50).
\<close>

theorem C8_monochromatic_counterexample:
  "monochromatic (Color_of_RGB (RGB_new 10 20 30)) 5 =
     Inr [Color_of_RGB (RGB_new 12 25 38), Color_of_RGB (RGB_new 33 66 99),
          Color_of_RGB (RGB_new 53 107 160), Color_of_RGB (RGB_new 94 147 201),
          Color_of_RGB (RGB_new 155 188 221)] \<and>
   s (hsl (Color_of_RGB (RGB_new 10 20 30))) = 50 \<and>
   s (hsl (Color_of_RGB (RGB_new 12 25 38))) = 52 \<and>
   s (hsl (Color_of_RGB (RGB_new 33 66 99))) = 49"
proof -
  have c: "RGB_new 10 20 30 = \<lparr>r = 10, g = 20, b = 30\<rparr>"
    "RGB_new 12 25 38 = \<lparr>r = 12, g = 25, b = 38\<rparr>"
    "RGB_new 33 66 99 = \<lparr>r = 33, g = 66, b = 99\<rparr>"
    by (simp_all add: RGB_new_def)
  have "s (hsl (Color_of_RGB (RGB_new 10 20 30))) = 50"
    "s (hsl (Color_of_RGB (RGB_new 12 25 38))) = 52"
    "s (hsl (Color_of_RGB (RGB_new 33 66 99))) = 49"
    by (simp_all add: hsl_def Color_of_RGB_def c to_hsl_10_20_30 to_hsl_12_25_38 to_hsl_33_66_99)
  with monochromatic_10_20_30 show ?thesis by blast
qed

text \<open>
  C8, amended. \<^verbatim>\<open>monochromatic(base, 0)\<close> raises \<^verbatim>\<open>ZeroDivisionError\<close>. For every
  \<open>count > 0\<close> it returns exactly \<open>count\<close> colours; colour \<open>i\<close> is converted from the HSL
  value that has the hue and the saturation of \<open>base.hsl()\<close> and the lightness
  \<open>min(90, start + step * i)\<close>, with \<open>step = 80 // count\<close> and
  \<open>start = max(10, l - step * count // 2)\<close>, a lightness between 10 and 90. Nothing is
  said of the hue and the saturation read back from the colours returned.
\<close>

theorem C8_monochromatic_amended:
  "monochromatic base 0 = Inl ZeroDivisionError \<and>
   (0 < count \<longrightarrow>
      (\<exists>cs. monochromatic base count = Inr cs \<and> length cs = nat count \<and>
         (\<forall>i < nat count.
            cs ! i = Color_of_HSL
              \<lparr>h = h (hsl base), s = s (hsl base),
               l = min 90 (max 10 (l (hsl base) - 80 div count * count div 2)
                            + 80 div count * int i)\<rparr> \<and>
            10 \<le> min 90 (max 10 (l (hsl base) - 80 div count * count div 2) + 80 div count * int i))))"
  using monochromatic_zero monochromatic_pos by blast

theorem C8_monochromatic_witness:
  "(0::int) < 5 \<and> (1::nat) < nat 5 \<and>
   (\<exists>cs. monochromatic (Color_of_RGB (RGB_new 10 20 30)) 5 = Inr cs \<and> length cs = 5 \<and>
      cs ! 1 = Color_of_HSL \<lparr>h = 210, s = 50, l = 26\<rparr> \<and>
      rgb (cs ! 1) = \<lparr>r = 33, g = 66, b = 99\<rparr>)"
proof -
  have x: "hsl (Color_of_RGB (RGB_new 10 20 30)) = \<lparr>h = 210, s = 50, l = 7\<rparr>"
    by (simp add: hsl_def Color_of_RGB_def RGB_new_def to_hsl_10_20_30)
  have "(1::nat) < nat 5" by simp
  with C8_monochromatic_amended [of "Color_of_RGB (RGB_new 10 20 30)" 5]
  obtain cs where "monochromatic (Color_of_RGB (RGB_new 10 20 30)) 5 = Inr cs" "length cs = 5"
    "cs ! 1 = Color_of_HSL \<lparr>h = 210, s = 50, l = 26\<rparr>"
    unfolding x by fastforce
  then show ?thesis by (auto simp: Color_of_HSL_def to_rgb_210_50_26)
qed

subsection \<open>Hexadecimal colour strings\<close>

lemma int_base16_empty: "int_base16 [] = Inl ValueError"
  by (simp add: int_base16_def)

lemma int_base16_error: "int_base16 str = Inl e \<Longrightarrow> e = ValueError"
  by (auto simp: int_base16_def Let_def split: if_splits prod.splits)

lemma three_ints_error:
  assumes "three_ints (int_base16 u) (int_base16 v) (int_base16 w) = Inl e"
  shows "e = ValueError"
  using assms int_base16_error
  by (auto simp: three_ints_def split: sum.splits)

lemma three_ints_empty:
  "three_ints (int_base16 u) (int_base16 v) (int_base16 []) = Inl ValueError"
proof (cases "int_base16 u")
  case (Inl e)
  then show ?thesis using int_base16_error [of u e] by (simp add: three_ints_def)
next
  case u: (Inr x)
  show ?thesis
  proof (cases "int_base16 v")
    case (Inl e)
    then show ?thesis using u int_base16_error [of v e] by (simp add: three_ints_def)
  next
    case (Inr y)
    then show ?thesis using u by (simp add: three_ints_def int_base16_empty)
  qed
qed

lemma is_hex_range:
  assumes "is_hex c"
  shows "(48 \<le> (of_char c :: nat) \<and> (of_char c :: nat) \<le> 57) \<or>
         (97 \<le> (of_char c :: nat) \<and> (of_char c :: nat) \<le> 102) \<or>
         (65 \<le> (of_char c :: nat) \<and> (of_char c :: nat) \<le> 70)"
  using assms by (auto simp: is_hex_def hex_value_def Let_def split: if_splits)

lemma is_hex_not_special:
  assumes "is_hex c"
  shows "\<not> int_space c" "c \<noteq> CHR ''+''" "c \<noteq> CHR ''-''" "c \<noteq> CHR ''_''"
    "c \<noteq> CHR ''x''" "c \<noteq> CHR ''X''"
  using is_hex_range [OF assms] by (auto simp: int_space_def)

lemma hex_digit_le: "hex_digit c \<le> 15"
  by (auto simp: hex_digit_def hex_value_def Let_def split: option.splits if_splits)

lemma int_base16_two_digits:
  assumes "is_hex c" "is_hex d"
  shows "int_base16 [c, d] = Inr (int (16 * hex_digit c + hex_digit d))"
  using assms is_hex_not_special [OF assms(1)] is_hex_not_special [OF assms(2)]
  by (simp add: int_base16_def Let_def)

lemma parse_hex_error: "parse_hex str = Inl e \<Longrightarrow> e = ValueError"
  using three_ints_error
  by (fastforce simp: parse_hex_def Let_def split: sum.splits if_splits)

lemma parse_hex_short:
  assumes "length (dropWhile (\<lambda>c. c = CHR ''#'') str) \<in> {0, 1, 2, 4}"
  shows "parse_hex str = Inl ValueError"
proof -
  define hex where "hex = dropWhile (\<lambda>c. c = CHR ''#'') str"
  have "length hex \<in> {0, 1, 2, 4}" using assms by (simp only: hex_def)
  then have "length hex \<noteq> 3" "drop 4 hex = []" by auto
  then show ?thesis
    by (simp add: parse_hex_def Let_def hex_def [symmetric] three_ints_empty)
qed

lemma dropWhile_hash_Cons:
  assumes "hex = dropWhile (\<lambda>c. c = CHR ''#'') str" "hex \<noteq> []"
  shows "dropWhile (\<lambda>c. c = CHR ''#'') (CHR ''#'' # take n hex) = take n hex"
proof -
  have "hd hex \<noteq> CHR ''#''"
    using assms hd_dropWhile [of "\<lambda>c. c = CHR ''#''" str] by auto
  then show ?thesis using assms(2) by (cases hex; cases n) simp_all
qed

lemma parse_hex_three:
  assumes "dropWhile (\<lambda>c. c = CHR ''#'') str = [c1, c2, c3]"
  shows "parse_hex str = parse_hex (CHR ''#'' # [c1, c1, c2, c2, c3, c3])"
proof -
  have "hd (dropWhile (\<lambda>c. c = CHR ''#'') str) \<noteq> CHR ''#''"
    using assms hd_dropWhile [of "\<lambda>c. c = CHR ''#''" str] by auto
  then have "c1 \<noteq> CHR ''#''" by (simp add: assms)
  then show ?thesis by (simp add: parse_hex_def Let_def assms)
qed

lemma parse_hex_long:
  assumes "hex = dropWhile (\<lambda>c. c = CHR ''#'') str" "5 \<le> length hex"
  shows "parse_hex str = parse_hex (CHR ''#'' # take 6 hex)"
proof -
  have ne: "hex \<noteq> []" using assms(2) by auto
  have dw: "dropWhile (\<lambda>c. c = CHR ''#'') (CHR ''#'' # take 6 hex) = take 6 hex"
    using assms(1) ne by (rule dropWhile_hash_Cons)
  have l3: "length hex \<noteq> 3" "length (take 6 hex) \<noteq> 3" using assms(2) by auto
  have "parse_hex (CHR ''#'' # take 6 hex) =
      (case three_ints (int_base16 (take 2 (take 6 hex)))
                       (int_base16 (take 2 (drop 2 (take 6 hex))))
                       (int_base16 (take 2 (drop 4 (take 6 hex)))) of
         Inl e \<Rightarrow> Inl e | Inr (x, y, z) \<Rightarrow> Inr (RGB_new x y z))"
    unfolding parse_hex_def Let_def dw using l3(2) by simp
  moreover have "take 2 (take 6 hex) = take 2 hex" "take 2 (drop 2 (take 6 hex)) = take 2 (drop 2 hex)"
    "take 2 (drop 4 (take 6 hex)) = take 2 (drop 4 hex)"
    by (simp_all add: drop_take)
  ultimately show ?thesis
    using l3(1) by (simp add: parse_hex_def Let_def assms(1) [symmetric])
qed

lemma parse_hex_six:
  assumes "dropWhile (\<lambda>c. c = CHR ''#'') str = [c1, c2, c3, c4, c5, c6]"
    and "is_hex c1" "is_hex c2" "is_hex c3" "is_hex c4" "is_hex c5" "is_hex c6"
  shows "parse_hex str =
     Inr \<lparr>r = int (16 * hex_digit c1 + hex_digit c2), g = int (16 * hex_digit c3 + hex_digit c4),
          b = int (16 * hex_digit c5 + hex_digit c6)\<rparr>"
proof -
  have "parse_hex str = Inr (RGB_new (int (16 * hex_digit c1 + hex_digit c2))
      (int (16 * hex_digit c3 + hex_digit c4)) (int (16 * hex_digit c5 + hex_digit c6)))"
    by (simp add: parse_hex_def Let_def assms(1) int_base16_two_digits assms(2-) three_ints_def)
  moreover have "RGB_new (int (16 * hex_digit c1 + hex_digit c2))
      (int (16 * hex_digit c3 + hex_digit c4)) (int (16 * hex_digit c5 + hex_digit c6))
    = \<lparr>r = int (16 * hex_digit c1 + hex_digit c2), g = int (16 * hex_digit c3 + hex_digit c4),
          b = int (16 * hex_digit c5 + hex_digit c6)\<rparr>"
    using hex_digit_le [of c1] hex_digit_le [of c2] hex_digit_le [of c3] hex_digit_le [of c4]
      hex_digit_le [of c5] hex_digit_le [of c6]
    by (intro RGB_new_id) linarith+
  ultimately show ?thesis by simp
qed

lemma parse_string_hash:
  assumes "lower (strip str) = CHR ''#'' # rest"
  shows "parse_string str = parse_hex (CHR ''#'' # rest)"
  by (simp add: parse_string_def Let_def assms startswith_def)

lemma parse_hex_aabbccdd: "parse_hex ''#aabbccdd'' = Inr \<lparr>r = 170, g = 187, b = 204\<rparr>"
  by code_simp

lemma parse_hex_aabbcc: "parse_hex ''#aabbcc'' = Inr \<lparr>r = 170, g = 187, b = 204\<rparr>"
  by code_simp

lemma parse_hex_abcde: "parse_hex ''#abcde'' = Inr \<lparr>r = 171, g = 205, b = 14\<rparr>"
  by code_simp

lemma lower_strip_examples:
  "lower (strip ''#aabbccdd'') = ''#aabbccdd''" "lower (strip ''#abcde'') = ''#abcde''"
  "lower (strip '' #ABC '') = ''#abc''" "lower (strip ''#abcd'') = ''#abcd''"
  "lower (strip ''#AABBCC'') = ''#aabbcc''"
  by code_simp+

text \<open>
  C1, as stated, fails in its last part: a string with eight digits after \<open>#\<close> is
  accepted (the first six digits are read), and so is one with five digits (the blue
  channel is read from the single fifth digit).
\<close>

theorem C1_hex_length_counterexample:
  "length (dropWhile (\<lambda>c. c = CHR ''#'') ''#aabbccdd'') = 8 \<and>
   Color_of_string ''#aabbccdd'' = Inr \<lparr>rgb = \<lparr>r = 170, g = 187, b = 204\<rparr>\<rparr> \<and>
   length (dropWhile (\<lambda>c. c = CHR ''#'') ''#abcde'') = 5 \<and>
   Color_of_string ''#abcde'' = Inr \<lparr>rgb = \<lparr>r = 171, g = 205, b = 14\<rparr>\<rparr>"
  by (simp add: Color_of_string_def parse_string_hash [OF lower_strip_examples(1)]
      parse_string_hash [OF lower_strip_examples(2)] parse_hex_aabbccdd parse_hex_abcde)

text \<open>
  C1, amended. Let the trimmed, lower-cased input start with \<open>#\<close>, and let \<open>hex\<close> be
  what follows the leading \<open>#\<close> characters. Three characters are each doubled and then
  read as the six-character form is (so \<^verbatim>\<open>#abc\<close> gives what \<^verbatim>\<open>#aabbcc\<close> gives); six
  hexadecimal digits are read directly, two per channel; a \<open>hex\<close> of 0, 1, 2 or 4
  characters fails with \<^verbatim>\<open>ValueError\<close>; a \<open>hex\<close> of five or more characters is read
  as its first six characters are, whatever follows them; and every failure is a
  \<^verbatim>\<open>ValueError\<close>.
\<close>

theorem C1_hex_amended:
  assumes "lower (strip str) = CHR ''#'' # rest"
    and "hex = dropWhile (\<lambda>c. c = CHR ''#'') rest"
  shows "(\<forall>c1 c2 c3. hex = [c1, c2, c3] \<longrightarrow>
            parse_string str = parse_hex (CHR ''#'' # [c1, c1, c2, c2, c3, c3])) \<and>
         (\<forall>c1 c2 c3 c4 c5 c6.
            hex = [c1, c2, c3, c4, c5, c6] \<and> list_all is_hex hex \<longrightarrow>
            parse_string str =
              Inr \<lparr>r = int (16 * hex_digit c1 + hex_digit c2),
                   g = int (16 * hex_digit c3 + hex_digit c4),
                   b = int (16 * hex_digit c5 + hex_digit c6)\<rparr>) \<and>
         (length hex \<in> {0, 1, 2, 4} \<longrightarrow> parse_string str = Inl ValueError) \<and>
         (5 \<le> length hex \<longrightarrow> parse_string str = parse_hex (CHR ''#'' # take 6 hex)) \<and>
         (\<forall>e. parse_string str = Inl e \<longrightarrow> e = ValueError)"
proof -
  have ps: "parse_string str = parse_hex (CHR ''#'' # rest)"
    using assms(1) by (rule parse_string_hash)
  have dw: "dropWhile (\<lambda>c. c = CHR ''#'') (CHR ''#'' # rest) = hex"
    by (simp add: assms(2))
  have three: "parse_string str = parse_hex (CHR ''#'' # [c1, c1, c2, c2, c3, c3])"
    if "hex = [c1, c2, c3]" for c1 c2 c3
    unfolding ps using dw that by (intro parse_hex_three) simp
  have six: "parse_string str =
              Inr \<lparr>r = int (16 * hex_digit c1 + hex_digit c2),
                   g = int (16 * hex_digit c3 + hex_digit c4),
                   b = int (16 * hex_digit c5 + hex_digit c6)\<rparr>"
    if "hex = [c1, c2, c3, c4, c5, c6] \<and> list_all is_hex hex" for c1 c2 c3 c4 c5 c6
  proof -
    from that have "list_all is_hex [c1, c2, c3, c4, c5, c6]" by auto
    then have "is_hex c1" "is_hex c2" "is_hex c3" "is_hex c4" "is_hex c5" "is_hex c6"
      by simp_all
    moreover have "dropWhile (\<lambda>c. c = CHR ''#'') (CHR ''#'' # rest) = [c1, c2, c3, c4, c5, c6]"
      using dw that by simp
    ultimately show ?thesis unfolding ps by (intro parse_hex_six)
  qed
  have short: "parse_string str = Inl ValueError" if "length hex \<in> {0, 1, 2, 4}"
    unfolding ps using that by (intro parse_hex_short) (simp only: dw)
  have long: "parse_string str = parse_hex (CHR ''#'' # take 6 hex)" if "5 \<le> length hex"
    unfolding ps using dw [symmetric] that by (rule parse_hex_long)
  have err: "e = ValueError" if "parse_string str = Inl e" for e
    using that parse_hex_error unfolding ps by blast
  from three six short long err show ?thesis by blast
qed

theorem C1_hex_witness:
  "lower (strip '' #ABC '') = CHR ''#'' # ''abc'' \<and>
   parse_string '' #ABC '' = Inr \<lparr>r = 170, g = 187, b = 204\<rparr> \<and>
   parse_string ''#AABBCC'' = Inr \<lparr>r = 170, g = 187, b = 204\<rparr> \<and>
   length ''abcd'' \<in> {0, 1, 2, 4 :: nat} \<and> parse_string ''#abcd'' = Inl ValueError \<and>
   5 \<le> length ''aabbccdd'' \<and> parse_string ''#aabbccdd'' = parse_hex ''#aabbcc''"
proof -
  have 1: "parse_string '' #ABC '' = Inr \<lparr>r = 170, g = 187, b = 204\<rparr>"
    using C1_hex_amended [of "'' #ABC ''" "''abc''" "''abc''"]
    by (simp add: lower_strip_examples parse_hex_aabbcc)
  have hd: "hex_digit CHR ''a'' = 10" "hex_digit CHR ''b'' = 11" "hex_digit CHR ''c'' = 12"
    "is_hex CHR ''a''" "is_hex CHR ''b''" "is_hex CHR ''c''"
    by (simp_all add: hex_digit_def is_hex_def hex_value_def)
  have 2: "parse_string ''#AABBCC'' = Inr \<lparr>r = 170, g = 187, b = 204\<rparr>"
    using C1_hex_amended [of "''#AABBCC''" "''aabbcc''" "''aabbcc''"]
    by (simp add: lower_strip_examples hd)
  have 3: "parse_string ''#abcd'' = Inl ValueError"
    using C1_hex_amended [of "''#abcd''" "''abcd''" "''abcd''"]
    by (simp add: lower_strip_examples)
  have 4: "parse_string ''#aabbccdd'' = parse_hex ''#aabbcc''"
    using C1_hex_amended [of "''#aabbccdd''" "''aabbccdd''" "''aabbccdd''"]
    by (simp add: lower_strip_examples)
  from 1 2 3 4 show ?thesis by (simp add: lower_strip_examples)
qed

subsection \<open>Functional colour strings\<close>























end
